(* ===== verification/Rdmnet_Prelude.thy ===== *)
theory Rdmnet_Prelude
  imports Main "HOL-Library.Word" "HOL-Library.Monad_Syntax" "HOL-Library.AList"
begin

text \<open>
  Shared vocabulary of the development: the machine types of the C and C++ sources, the unsigned
  subtraction of \<^verbatim>\<open>size_t\<close>, ordered containers in the style of \<^verbatim>\<open>std::map\<close> (association lists with
  distinct keys), and the lemma collections the component theories use.

  Conventions used by every component.
  \<^item> A \<^verbatim>\<open>size_t\<close> is a \<^typ>\<open>nat\<close>. The sources subtract sizes without a guard in several places; such a
    subtraction is written \<open>csub\<close>, which wraps modulo \<open>2 ^ 64\<close> as C does on an LP64 platform.
  \<^item> A value of type \<^typ>\<open>'a option\<close> returned by a modelled C function that "may fault" is \<^const>\<open>None\<close>
    exactly when the C program has no defined result: undefined behaviour (an out-of-range copy, a
    read of an uninitialised variable) or a loop that never ends.
  \<^item> \<^verbatim>\<open>RDMNET_ASSERT_VERIFY(e)\<close> is modelled with the semantics of a release build: it is the boolean
    \<open>e\<close>; a debug build aborts where it is false.
  \<^item> Pointer arguments that the library itself passes are not null; the null checks at the head of
    each function are not part of the model.
\<close>

named_theorems csub_simps \<open>unsigned subtraction without wrap-around\<close>
named_theorems pdu_simps \<open>equations for PDU block states\<close>
named_theorems parse_defs \<open>definitions of the message parsers\<close>

section \<open>Machine types\<close>

type_synonym u8 = "8 word"
type_synonym u16 = "16 word"
type_synonym u32 = "32 word"
type_synonym byte = "8 word"
type_synonym bytes = "8 word list"

text \<open>An \<^verbatim>\<open>EtcPalUuid\<close> is 16 bytes; the model only compares and copies them.\<close>

type_synonym EtcPalUuid = bytes

text \<open>An RDM UID (\<^verbatim>\<open>struct RdmUid\<close>): manufacturer id and device id.\<close>

record RdmUid =
  manu :: u16
  dev_id :: u32

section \<open>Unsigned subtraction of sizes\<close>

definition SIZE_MOD :: nat where
  "SIZE_MOD = 2 ^ 64"

definition csub :: "nat \<Rightarrow> nat \<Rightarrow> nat" where
  "csub a b = (if b \<le> a then a - b else a + SIZE_MOD - b)"

lemma csub_le [simp, csub_simps]: "b \<le> a \<Longrightarrow> csub a b = a - b"
  by (simp add: csub_def)

lemma csub_underflow: "a < b \<Longrightarrow> csub a b = a + SIZE_MOD - b"
  by (simp add: csub_def)

lemma csub_0 [simp, csub_simps]: "csub a 0 = a"
  by (simp add: csub_def)

section \<open>Conditionals\<close>

lemma if_eqE:
  assumes "(if P then x else y) = z"
  obtains "P" "x = z" | "\<not> P" "y = z"
  using assms by (cases P) auto

section \<open>Association lists as ordered or unordered maps\<close>

text \<open>
  \<open>alist_insert\<close> is \<^verbatim>\<open>std::map::insert\<close>: it leaves an existing entry alone.
\<close>

definition alist_insert :: "'k \<Rightarrow> 'v \<Rightarrow> ('k \<times> 'v) list \<Rightarrow> ('k \<times> 'v) list" where
  "alist_insert k v m = (case map_of m k of None \<Rightarrow> (k, v) # m | Some _ \<Rightarrow> m)"

definition has_key :: "('k \<times> 'v) list \<Rightarrow> 'k \<Rightarrow> bool" where
  "has_key m k \<longleftrightarrow> map_of m k \<noteq> None"

lemma has_key_fst: "has_key m k \<longleftrightarrow> k \<in> fst ` set m"
  by (simp add: has_key_def map_of_eq_None_iff)

lemma map_of_alist_insert:
  "map_of (alist_insert k v m) = (if has_key m k then map_of m else (map_of m)(k \<mapsto> v))"
  by (auto simp: alist_insert_def has_key_def split: option.splits)

lemma distinct_alist_insert [simp]:
  "distinct (map fst (alist_insert k v m)) = distinct (map fst m)"
  by (auto simp: alist_insert_def map_of_eq_None_iff split: option.splits)

lemma length_alist_insert:
  "length (alist_insert k v m) = (if has_key m k then length m else Suc (length m))"
  by (auto simp: alist_insert_def has_key_def split: option.splits)

end
