(* ===== verification/Uid_Manager.thy ===== *)
theory Uid_Manager
  imports Rdmnet_Prelude
begin

text \<open>
  The broker's UID registry, \<^verbatim>\<open>BrokerUidManager\<close> of \<^verbatim>\<open>src/rdmnet/broker/broker_uid_manager.cpp\<close>
  and \<^verbatim>\<open>.h\<close>. Each method is one definition. The two \<^verbatim>\<open>std::map\<close>s are association lists with
  distinct keys; the pointer \<^verbatim>\<open>UidData::reservation\<close> into a node of \<^verbatim>\<open>reservations_\<close> is the key of
  that node. The search for a free device id is a loop over a wrapping 32-bit counter, modelled
  with \<^theory_text>\<open>partial_function (option)\<close>; that it ends is a theorem.
\<close>

section \<open>Data\<close>

record ReservationData =
  assigned_uid :: RdmUid
  currently_connected :: bool

record UidData =
  client_handle :: int
  reservation :: "EtcPalUuid option"

record uid_manager =
  uid_lookup :: "(RdmUid \<times> UidData) list"
  reservations :: "(EtcPalUuid \<times> ReservationData) list"
  next_device_id :: u32
  max_uid_capacity :: nat

datatype AddResult = kOk | kCapacityExceeded | kDuplicateId

section \<open>Operations\<close>

definition kDefaultMaxUidCapacity :: nat where
  "kDefaultMaxUidCapacity = 1000000"

definition BrokerUidManager :: "nat \<Rightarrow> uid_manager" where
  "BrokerUidManager cap =
     \<lparr>uid_lookup = [], reservations = [], next_device_id = 1, max_uid_capacity = cap\<rparr>"

definition SetNextDeviceId :: "u32 \<Rightarrow> uid_manager \<Rightarrow> uid_manager" where
  "SetNextDeviceId n m = m\<lparr>next_device_id := n\<rparr>"

definition AddStaticUid :: "uid_manager \<Rightarrow> int \<Rightarrow> RdmUid \<Rightarrow> AddResult \<times> uid_manager" where
  "AddStaticUid m h u =
     (if length (uid_lookup m) \<ge> max_uid_capacity m then (kCapacityExceeded, m)
      else if has_key (uid_lookup m) u then (kDuplicateId, m)
      else (kOk, m\<lparr>uid_lookup :=
             alist_insert u \<lparr>client_handle = h, reservation = None\<rparr> (uid_lookup m)\<rparr>))"

text \<open>
  The \<^verbatim>\<open>do ... while\<close> loop of \<^verbatim>\<open>AddDynamicUid\<close>: take the counter, post-increment it, and go on while
  the counter has just passed the reserved id 0 or the UID is in use. The result is the device id
  and the counter.
\<close>

partial_function (option) next_free_id ::
  "(RdmUid \<times> UidData) list \<Rightarrow> u16 \<Rightarrow> u32 \<Rightarrow> (u32 \<times> u32) option" where
  "next_free_id lookup mf n =
     (if n + 1 = 1 \<or> has_key lookup \<lparr>manu = mf, dev_id = n\<rparr>
      then next_free_id lookup mf (n + 1)
      else Some (n, n + 1))"

definition AddDynamicUid ::
  "uid_manager \<Rightarrow> int \<Rightarrow> EtcPalUuid \<Rightarrow> RdmUid \<Rightarrow> (AddResult \<times> RdmUid \<times> uid_manager) option" where
  "AddDynamicUid m h cid u =
     (if length (uid_lookup m) \<ge> max_uid_capacity m then Some (kCapacityExceeded, u, m)
      else case map_of (reservations m) cid of
        Some r \<Rightarrow>
          if currently_connected r then Some (kDuplicateId, u, m)
          else Some (kOk, assigned_uid r,
            m\<lparr>reservations := AList.update cid (r\<lparr>currently_connected := True\<rparr>) (reservations m),
              uid_lookup := alist_insert (assigned_uid r)
                \<lparr>client_handle = h, reservation = Some cid\<rparr> (uid_lookup m)\<rparr>)
      | None \<Rightarrow>
          do {
            (i, n') \<leftarrow> next_free_id (uid_lookup m) (manu u) (next_device_id m);
            let u' = u\<lparr>dev_id := i\<rparr>;
            Some (kOk, u',
              m\<lparr>next_device_id := n',
                reservations := alist_insert cid
                  \<lparr>assigned_uid = u', currently_connected = True\<rparr> (reservations m),
                uid_lookup := alist_insert u'
                  \<lparr>client_handle = h, reservation = Some cid\<rparr> (uid_lookup m)\<rparr>)
          })"

definition RemoveUid :: "uid_manager \<Rightarrow> RdmUid \<Rightarrow> uid_manager" where
  "RemoveUid m u =
     (case map_of (uid_lookup m) u of
        None \<Rightarrow> m
      | Some d \<Rightarrow>
          m\<lparr>reservations :=
              (case reservation d of
                 None \<Rightarrow> reservations m
               | Some cid \<Rightarrow>
                   (case map_of (reservations m) cid of
                      None \<Rightarrow> reservations m
                    | Some r \<Rightarrow> AList.update cid (r\<lparr>currently_connected := False\<rparr>) (reservations m))),
            uid_lookup := AList.delete u (uid_lookup m)\<rparr>)"

definition UidToHandle :: "uid_manager \<Rightarrow> RdmUid \<Rightarrow> int option" where
  "UidToHandle m u = map_option client_handle (map_of (uid_lookup m) u)"

section \<open>The search for a free device id\<close>

lemma next_free_id_step:
  assumes "n + 1 = 1 \<or> has_key lookup \<lparr>manu = mf, dev_id = n\<rparr>"
  shows "next_free_id lookup mf n = next_free_id lookup mf (n + 1)"
  using assms by (simp add: next_free_id.simps [of lookup mf n])

lemma next_free_id_stop:
  assumes "n \<noteq> 0" and "\<not> has_key lookup \<lparr>manu = mf, dev_id = n\<rparr>"
  shows "next_free_id lookup mf n = Some (n, n + 1)"
  using assms by (simp add: next_free_id.simps [of lookup mf n])

text \<open>The device ids the loop has to skip.\<close>

definition taken_ids :: "(RdmUid \<times> UidData) list \<Rightarrow> u16 \<Rightarrow> u32 set" where
  "taken_ids lookup mf = insert 0 {i. has_key lookup \<lparr>manu = mf, dev_id = i\<rparr>}"

lemma next_free_id_skip:
  assumes "n \<in> taken_ids lookup mf"
  shows "next_free_id lookup mf n = next_free_id lookup mf (n + 1)"
  using assms by (intro next_free_id_step) (auto simp: taken_ids_def)

lemma next_free_id_found:
  assumes "n \<notin> taken_ids lookup mf"
  shows "next_free_id lookup mf n = Some (n, n + 1)"
  using assms by (intro next_free_id_stop) (auto simp: taken_ids_def)

text \<open>The loop returns the first id, counting up from the counter, that is not taken.\<close>

lemma next_free_id_first:
  assumes "n + of_nat k \<notin> taken_ids lookup mf"
    and "\<And>j. j < k \<Longrightarrow> n + of_nat j \<in> taken_ids lookup mf"
  shows "next_free_id lookup mf n = Some (n + of_nat k, n + of_nat k + 1)"
  using assms
proof (induction k arbitrary: n)
  case 0
  then show ?case by (simp add: next_free_id_found)
next
  case (Suc k)
  have "next_free_id lookup mf (n + 1) = Some (n + 1 + of_nat k, n + 1 + of_nat k + 1)"
  proof (rule Suc.IH)
    show "n + 1 + of_nat k \<notin> taken_ids lookup mf"
      using Suc.prems(1) by (simp add: ac_simps)
    show "n + 1 + of_nat j \<in> taken_ids lookup mf" if "j < k" for j
      using Suc.prems(2) [of "Suc j"] that by (simp add: ac_simps)
  qed
  moreover have "next_free_id lookup mf n = next_free_id lookup mf (n + 1)"
    using Suc.prems(2) [of 0] by (simp add: next_free_id_skip)
  ultimately show ?case by (simp add: ac_simps)
qed

lemma taken_ids_image:
  "taken_ids lookup mf \<subseteq> insert 0 (dev_id ` fst ` set lookup)"
  by (force simp: taken_ids_def has_key_fst)

lemma finite_taken_ids [simp]: "finite (taken_ids lookup mf)"
  by simp

lemma card_taken_ids: "card (taken_ids lookup mf) \<le> Suc (length lookup)"
proof -
  have "card (taken_ids lookup mf) \<le> card (insert 0 (dev_id ` fst ` set lookup))"
    by (intro card_mono taken_ids_image) simp
  also have "\<dots> \<le> Suc (card (dev_id ` fst ` set lookup))"
    by (simp add: card_insert_if)
  also have "card (dev_id ` fst ` set lookup) \<le> card (set lookup)"
    by (metis card_image_le finite_imageI le_trans List.finite_set)
  also have "card (set lookup) \<le> length lookup"
    by (rule card_length)
  finally show ?thesis by simp
qed

text \<open>
  Among the first \<open>Suc (Suc (length lookup))\<close> candidates one is free, as long as those candidates
  are different words.
\<close>

lemma free_id_within:
  fixes n :: u32
  assumes "Suc (length lookup) < 2 ^ 32"
  obtains k where "k \<le> Suc (length lookup)" and "n + of_nat k \<notin> taken_ids lookup mf"
    and "\<And>j. j < k \<Longrightarrow> n + of_nat j \<in> taken_ids lookup mf"
proof -
  define L where "L = Suc (length lookup)"
  have inj: "inj_on (\<lambda>k. n + of_nat k :: u32) {..L}"
  proof (rule inj_onI)
    fix a b assume ab: "a \<in> {..L}" "b \<in> {..L}" and eq: "n + of_nat a = (n + of_nat b :: u32)"
    have "unat (of_nat a :: u32) = unat (of_nat b :: u32)" using eq by simp
    moreover have "a < 2 ^ 32" "b < 2 ^ 32" using ab assms by (auto simp: L_def)
    ultimately show "a = b" by (simp add: unsigned_of_nat take_bit_nat_eq_self)
  qed
  have "\<not> (\<lambda>k. n + of_nat k) ` {..L} \<subseteq> taken_ids lookup mf"
  proof
    assume "(\<lambda>k. n + of_nat k) ` {..L} \<subseteq> taken_ids lookup mf"
    then have "card ((\<lambda>k. n + of_nat k) ` {..L}) \<le> card (taken_ids lookup mf)"
      by (rule card_mono [rotated]) simp
    then show False
      using card_taken_ids [of lookup mf] inj by (simp add: card_image L_def)
  qed
  then obtain k0 where k0: "k0 \<le> L" "n + of_nat k0 \<notin> taken_ids lookup mf" by auto
  define k where "k = (LEAST k. n + of_nat k \<notin> taken_ids lookup mf)"
  show thesis
  proof (rule that)
    show "n + of_nat k \<notin> taken_ids lookup mf" unfolding k_def by (rule LeastI) (rule k0)
    show "k \<le> Suc (length lookup)"
      using k0 unfolding k_def L_def by (meson Least_le order_trans)
    show "n + of_nat j \<in> taken_ids lookup mf" if "j < k" for j
      using that not_less_Least unfolding k_def by blast
  qed
qed

text \<open>So the loop ends.\<close>

lemma next_free_id_returns:
  assumes "Suc (length lookup) < 2 ^ 32"
  obtains i where "next_free_id lookup mf n = Some (i, i + 1)" and "i \<notin> taken_ids lookup mf"
proof -
  obtain k where "n + of_nat k \<notin> taken_ids lookup mf"
    and "\<And>j. j < k \<Longrightarrow> n + of_nat j \<in> taken_ids lookup mf"
    using free_id_within [OF assms] by metis
  with next_free_id_first that show thesis by blast
qed

section \<open>The registry invariant\<close>

text \<open>
  The two tables agree: a registered UID that came from a reservation points to a reservation of
  that very UID, marked connected; a reservation marked connected has its UID registered for it;
  a reservation that is not connected keeps its UID unregistered.
\<close>

definition tables_agree ::
  "(RdmUid \<rightharpoonup> UidData) \<Rightarrow> (EtcPalUuid \<rightharpoonup> ReservationData) \<Rightarrow> bool" where
  "tables_agree L R \<longleftrightarrow>
     (\<forall>u d c. L u = Some d \<and> reservation d = Some c \<longrightarrow>
        (\<exists>r. R c = Some r \<and> assigned_uid r = u \<and> currently_connected r)) \<and>
     (\<forall>c r. R c = Some r \<longrightarrow>
        (if currently_connected r
         then \<exists>d. L (assigned_uid r) = Some d \<and> reservation d = Some c
         else L (assigned_uid r) = None))"

text \<open>
  The assigned UIDs are dynamic UIDs (top bit of the manufacturer id set), pairwise different, and
  below the counter: this is what fails once the counter has wrapped. A UID registered without a
  reservation is a static one.
\<close>

definition is_dynamic :: "RdmUid \<Rightarrow> bool" where
  "is_dynamic u \<longleftrightarrow> bit (manu u) 15"

definition assigned_below :: "(EtcPalUuid \<rightharpoonup> ReservationData) \<Rightarrow> u32 \<Rightarrow> bool" where
  "assigned_below R n \<longleftrightarrow>
     (\<forall>c r. R c = Some r \<longrightarrow> is_dynamic (assigned_uid r) \<and> unat (dev_id (assigned_uid r)) < unat n) \<and>
     (\<forall>c r c' r'. R c = Some r \<and> R c' = Some r' \<and> assigned_uid r = assigned_uid r' \<longrightarrow> c = c')"

definition statics_static :: "(RdmUid \<rightharpoonup> UidData) \<Rightarrow> bool" where
  "statics_static L \<longleftrightarrow> (\<forall>u d. L u = Some d \<and> reservation d = None \<longrightarrow> \<not> is_dynamic u)"

definition uid_inv :: "uid_manager \<Rightarrow> bool" where
  "uid_inv m \<longleftrightarrow> distinct (map fst (uid_lookup m)) \<and> distinct (map fst (reservations m)) \<and>
     length (uid_lookup m) \<le> max_uid_capacity m \<and> 0 < unat (next_device_id m) \<and>
     tables_agree (map_of (uid_lookup m)) (map_of (reservations m)) \<and>
     assigned_below (map_of (reservations m)) (next_device_id m) \<and>
     statics_static (map_of (uid_lookup m))"

lemma uid_inv_init [simp]: "uid_inv (BrokerUidManager cap)"
  by (simp add: uid_inv_def tables_agree_def assigned_below_def statics_static_def BrokerUidManager_def)

lemma tables_agreeI:
  assumes "\<And>u d c. L u = Some d \<Longrightarrow> reservation d = Some c \<Longrightarrow>
      \<exists>r. R c = Some r \<and> assigned_uid r = u \<and> currently_connected r"
    and "\<And>c r. R c = Some r \<Longrightarrow> currently_connected r \<Longrightarrow>
      \<exists>d. L (assigned_uid r) = Some d \<and> reservation d = Some c"
    and "\<And>c r. R c = Some r \<Longrightarrow> \<not> currently_connected r \<Longrightarrow> L (assigned_uid r) = None"
  shows "tables_agree L R"
  using assms by (simp add: tables_agree_def)

lemma tables_agreeD:
  assumes "tables_agree L R"
  shows "L u = Some d \<Longrightarrow> reservation d = Some c \<Longrightarrow>
      \<exists>r. R c = Some r \<and> assigned_uid r = u \<and> currently_connected r"
    and "R c = Some r \<Longrightarrow> currently_connected r \<Longrightarrow>
      \<exists>d. L (assigned_uid r) = Some d \<and> reservation d = Some c"
    and "R c = Some r \<Longrightarrow> \<not> currently_connected r \<Longrightarrow> L (assigned_uid r) = None"
  using assms by (auto simp: tables_agree_def)

text \<open>What each kind of table update needs to keep the tables in agreement.\<close>

lemma tables_agree_static:
  assumes "tables_agree L R" and "L u = None" and "reservation d = None"
    and "\<And>c r. R c = Some r \<Longrightarrow> assigned_uid r \<noteq> u"
  shows "tables_agree (L(u \<mapsto> d)) R"
  using assms by (fastforce simp: tables_agree_def)

lemma tables_agree_dynamic:
  assumes "tables_agree L R" and "L u = None" and "reservation d = Some c"
    and "\<And>r. R c = Some r \<Longrightarrow> \<not> currently_connected r"
    and "\<And>c' r. R c' = Some r \<Longrightarrow> c' \<noteq> c \<Longrightarrow> assigned_uid r \<noteq> u"
    and "assigned_uid r' = u" and "currently_connected r'"
  shows "tables_agree (L(u \<mapsto> d)) (R(c \<mapsto> r'))"
    (is "tables_agree ?L ?R")
proof (rule tables_agreeI)
  fix u' d' c' assume "?L u' = Some d'" "reservation d' = Some c'"
  then show "\<exists>r. ?R c' = Some r \<and> assigned_uid r = u' \<and> currently_connected r"
    using assms(3,4,6,7) tables_agreeD(1) [OF assms(1), of u' d' c']
    by (cases "u' = u"; cases "c' = c") auto
next
  fix c' r assume "?R c' = Some r" "currently_connected r"
  then show "\<exists>d. ?L (assigned_uid r) = Some d \<and> reservation d = Some c'"
    using assms(3,6) tables_agreeD(2) [OF assms(1), of c' r] assms(5) [of c' r]
    by (cases "c' = c") auto
next
  fix c' r assume "?R c' = Some r" "\<not> currently_connected r"
  then show "?L (assigned_uid r) = None"
    using assms(7) tables_agreeD(3) [OF assms(1), of c' r] assms(5) [of c' r] by (cases "c' = c") auto
qed

lemma tables_agree_remove_static:
  assumes "tables_agree L R" and "L u = Some d" and "reservation d = None"
  shows "tables_agree (L(u := None)) R"
proof (rule tables_agreeI)
  fix c r assume "R c = Some r" "currently_connected r"
  then show "\<exists>d. (L(u := None)) (assigned_uid r) = Some d \<and> reservation d = Some c"
    using assms(2,3) tables_agreeD(2) [OF assms(1), of c r] by auto
qed (use tables_agreeD [OF assms(1)] in \<open>auto split: if_splits\<close>)

lemma tables_agree_remove_dynamic:
  assumes "tables_agree L R" and "L u = Some d" and "reservation d = Some c" and "R c = Some r"
  shows "tables_agree (L(u := None)) (R(c \<mapsto> r\<lparr>currently_connected := False\<rparr>))"
    (is "tables_agree ?L ?R")
proof (rule tables_agreeI)
  have r: "assigned_uid r = u" "currently_connected r"
    using tables_agreeD(1) [OF assms(1-3)] assms(4) by simp_all
  {
    fix u' d' c' assume "?L u' = Some d'" "reservation d' = Some c'"
    then show "\<exists>r. ?R c' = Some r \<and> assigned_uid r = u' \<and> currently_connected r"
      using r assms(4) tables_agreeD(1) [OF assms(1), of u' d' c']
      by (cases "u' = u"; cases "c' = c") auto
  next
    fix c' r' assume "?R c' = Some r'" "currently_connected r'"
    then show "\<exists>d. ?L (assigned_uid r') = Some d \<and> reservation d = Some c'"
      using assms(2,3) tables_agreeD(2) [OF assms(1), of c' r'] by (cases "c' = c") auto
  next
    fix c' r' assume "?R c' = Some r'" "\<not> currently_connected r'"
    then show "?L (assigned_uid r') = None"
      using r tables_agreeD(3) [OF assms(1), of c' r'] by (cases "c' = c") auto
  }
qed

lemma assigned_below_new:
  assumes "assigned_below R n" and "unat n < unat n'" and "is_dynamic u" and "dev_id u = n"
  shows "assigned_below (R(c \<mapsto> \<lparr>assigned_uid = u, currently_connected = b\<rparr>)) n'"
  using assms by (fastforce simp: assigned_below_def)

lemma assigned_below_update:
  assumes "assigned_below R n" and "R c = Some r" and "assigned_uid r' = assigned_uid r"
  shows "assigned_below (R(c \<mapsto> r')) n"
  using assms by (auto simp: assigned_below_def)

lemma statics_static_update:
  "statics_static L \<Longrightarrow> reservation d = None \<longrightarrow> \<not> is_dynamic u \<Longrightarrow> statics_static (L(u \<mapsto> d))"
  "statics_static L \<Longrightarrow> statics_static (L(u := None))"
  by (auto simp: statics_static_def)

section \<open>Every operation keeps the invariant\<close>

lemma AddStaticUid_Ok:
  assumes "AddStaticUid m h u = (kOk, m')"
  shows "m' = m\<lparr>uid_lookup := alist_insert u \<lparr>client_handle = h, reservation = None\<rparr> (uid_lookup m)\<rparr>"
    and "map_of (uid_lookup m) u = None" and "length (uid_lookup m) < max_uid_capacity m"
  using assms by (auto simp: AddStaticUid_def has_key_def split: if_splits)

lemma AddStaticUid_fail: "AddStaticUid m h u = (res, m') \<Longrightarrow> res \<noteq> kOk \<Longrightarrow> m' = m"
  by (auto simp: AddStaticUid_def split: if_splits)

lemma AddStaticUid_inv:
  assumes "uid_inv m" and "\<not> is_dynamic u" and "AddStaticUid m h u = (res, m')"
  shows "uid_inv m'"
proof (cases "res = kOk")
  case True
  note ok = AddStaticUid_Ok [OF assms(3) [unfolded True]]
  have "assigned_uid r \<noteq> u" if "map_of (reservations m) c = Some r" for c r
    using assms(1,2) that by (auto simp: uid_inv_def assigned_below_def simp del: map_of_eq_Some_iff)
  then have "tables_agree ((map_of (uid_lookup m))(u \<mapsto> \<lparr>client_handle = h, reservation = None\<rparr>))
      (map_of (reservations m))"
    using assms(1) ok(2) by (intro tables_agree_static) (simp_all add: uid_inv_def)
  with assms(1,2) ok(2,3) show ?thesis
    by (simp add: ok(1) uid_inv_def map_of_alist_insert length_alist_insert has_key_def
        statics_static_update)
next
  case False
  with assms(1,3) show ?thesis by (auto dest: AddStaticUid_fail)
qed

text \<open>
  While the invariant holds no registered dynamic UID is at or above the counter, so the search
  succeeds at once.
\<close>

lemma counter_free:
  assumes "uid_inv m" and "is_dynamic u" and "dev_id u = next_device_id m"
  shows "map_of (uid_lookup m) u = None"
proof (rule ccontr)
  assume "map_of (uid_lookup m) u \<noteq> None"
  then obtain d where d: "map_of (uid_lookup m) u = Some d" by blast
  then obtain c where "reservation d = Some c"
    using assms(1,2) by (cases "reservation d") (auto simp: uid_inv_def statics_static_def simp del: map_of_eq_Some_iff)
  then obtain r where "map_of (reservations m) c = Some r" "assigned_uid r = u"
    using tables_agreeD(1) assms(1) d unfolding uid_inv_def by blast
  then have "unat (dev_id u) < unat (next_device_id m)"
    using assms(1) unfolding uid_inv_def assigned_below_def by blast
  with assms(3) show False by simp
qed

lemma next_free_id_inv:
  assumes "uid_inv m" and "bit mf 15"
  shows "next_free_id (uid_lookup m) mf (next_device_id m) = Some (next_device_id m, next_device_id m + 1)"
  using assms counter_free [OF assms(1), of "\<lparr>manu = mf, dev_id = next_device_id m\<rparr>"]
  by (intro next_free_id_stop) (auto simp: uid_inv_def is_dynamic_def has_key_def)

lemma update_keeps_keys:
  "map_of m k = Some v \<Longrightarrow> map fst (AList.update k w m) = map fst m"
  by (induction m) auto

text \<open>The three outcomes of \<^verbatim>\<open>AddDynamicUid\<close> in a state that satisfies the invariant.\<close>

lemma AddDynamicUid_cases:
  assumes "AddDynamicUid m h c u = Some (res, u', m')" and "uid_inv m" and "is_dynamic u"
  obtains (fail) "res \<noteq> kOk" "m' = m" "u' = u"
  | (reserved) r where "res = kOk" "length (uid_lookup m) < max_uid_capacity m"
      "map_of (reservations m) c = Some r" "\<not> currently_connected r" "u' = assigned_uid r"
      "m' = m\<lparr>reservations := AList.update c (r\<lparr>currently_connected := True\<rparr>) (reservations m),
              uid_lookup := alist_insert u' \<lparr>client_handle = h, reservation = Some c\<rparr> (uid_lookup m)\<rparr>"
  | (new) "res = kOk" "length (uid_lookup m) < max_uid_capacity m"
      "map_of (reservations m) c = None" "u' = u\<lparr>dev_id := next_device_id m\<rparr>"
      "m' = m\<lparr>next_device_id := next_device_id m + 1,
              reservations := alist_insert c \<lparr>assigned_uid = u', currently_connected = True\<rparr> (reservations m),
              uid_lookup := alist_insert u' \<lparr>client_handle = h, reservation = Some c\<rparr> (uid_lookup m)\<rparr>"
proof -
  note search = next_free_id_inv [OF assms(2), of "manu u"]
  show thesis
    using assms(1,3) search fail reserved new
    by (auto simp: AddDynamicUid_def is_dynamic_def Let_def simp del: map_of_eq_Some_iff
        split: if_splits option.splits)
qed

lemma reserved_unregistered:
  assumes "uid_inv m" and "map_of (reservations m) c = Some r" and "\<not> currently_connected r"
  shows "map_of (uid_lookup m) (assigned_uid r) = None"
  using assms tables_agreeD(3) unfolding uid_inv_def by blast

lemma reserved_others:
  assumes "uid_inv m" and "map_of (reservations m) c = Some r"
    and "map_of (reservations m) c' = Some r'" and "c' \<noteq> c"
  shows "assigned_uid r' \<noteq> assigned_uid r"
  using assms unfolding uid_inv_def assigned_below_def by blast

lemma reserved_below_counter:
  assumes "uid_inv m" and "map_of (reservations m) c = Some r"
  shows "dev_id (assigned_uid r) \<noteq> next_device_id m" and "is_dynamic (assigned_uid r)"
  using assms unfolding uid_inv_def assigned_below_def by force+

definition room :: "uid_manager \<Rightarrow> bool" where
  "room m \<longleftrightarrow> Suc (unat (next_device_id m)) < 2 ^ 32"

lemma room_Suc: "room m \<Longrightarrow> unat (next_device_id m + 1) = Suc (unat (next_device_id m))"
  by (simp add: room_def unat_word_ariths)

lemma AddDynamicUid_inv:
  assumes inv: "uid_inv m" and room: "room m" and dyn: "is_dynamic u"
    and add: "AddDynamicUid m h c u = Some (res, u', m')"
  shows "uid_inv m'"
  using add inv dyn
proof (cases rule: AddDynamicUid_cases)
  case fail
  with inv show ?thesis by simp
next
  case (reserved r)
  note free = reserved_unregistered [OF inv reserved(3,4)]
  have "tables_agree ((map_of (uid_lookup m))(u' \<mapsto> \<lparr>client_handle = h, reservation = Some c\<rparr>))
      ((map_of (reservations m))(c \<mapsto> r\<lparr>currently_connected := True\<rparr>))"
    using inv reserved free reserved_others [OF inv reserved(3)]
    by (intro tables_agree_dynamic) (auto simp: uid_inv_def simp del: map_of_eq_Some_iff)
  then show ?thesis
    using inv reserved(1-4) free unfolding reserved(5,6)
    by (simp add: uid_inv_def map_of_alist_insert length_alist_insert has_key_def update_conv'
        distinct_update statics_static_update assigned_below_update)
next
  case new
  have dyn': "is_dynamic u'" using dyn new by (simp add: is_dynamic_def)
  have free: "map_of (uid_lookup m) u' = None"
    using inv dyn' new by (intro counter_free) simp_all
  have "assigned_uid r \<noteq> u'" if "map_of (reservations m) c' = Some r" for c' r
    using reserved_below_counter(1) [OF inv that] new by auto
  then have "tables_agree ((map_of (uid_lookup m))(u' \<mapsto> \<lparr>client_handle = h, reservation = Some c\<rparr>))
      ((map_of (reservations m))(c \<mapsto> \<lparr>assigned_uid = u', currently_connected = True\<rparr>))"
    using inv new free
    by (intro tables_agree_dynamic) (auto simp: uid_inv_def simp del: map_of_eq_Some_iff)
  then show ?thesis
    using inv new free dyn' room_Suc [OF room]
    by (simp add: uid_inv_def map_of_alist_insert length_alist_insert has_key_def
        statics_static_update assigned_below_new [of _ "next_device_id m"])
qed

lemma length_delete_le: "length (AList.delete k m) \<le> length m"
  by (simp add: AList.delete_eq)

lemma RemoveUid_inv:
  assumes inv: "uid_inv m"
  shows "uid_inv (RemoveUid m u)"
proof (cases "map_of (uid_lookup m) u")
  case None
  with inv show ?thesis by (simp add: RemoveUid_def)
next
  case (Some d)
  show ?thesis
  proof (cases "reservation d")
    case None
    with inv Some tables_agree_remove_static [of "map_of (uid_lookup m)" _ u d] show ?thesis
      by (auto simp: RemoveUid_def uid_inv_def AList.delete_conv' distinct_delete statics_static_update
          intro: order_trans [OF length_delete_le] simp del: map_of_eq_Some_iff)
  next
    case res: (Some c)
    then obtain r where r: "map_of (reservations m) c = Some r"
      using inv Some tables_agreeD(1) unfolding uid_inv_def by blast
    with inv Some res tables_agree_remove_dynamic [of "map_of (uid_lookup m)" "map_of (reservations m)" u d c r] show ?thesis
      by (auto simp: RemoveUid_def uid_inv_def AList.delete_conv' AList.update_conv' distinct_delete
          distinct_update statics_static_update assigned_below_update
          intro: order_trans [OF length_delete_le] simp del: map_of_eq_Some_iff)
  qed
qed

section \<open>The registry as an interface\<close>

text \<open>
  What the broker relies on: a registry maps identifiers to client handles. Acquiring an identifier
  adds one new route and leaves every other one alone, releasing it removes that route only. The
  client lemmas say that handing out each handle once keeps the routing injective, so that an
  identifier always leads to the one client that acquired it.
\<close>

locale uid_registry =
  fixes inv :: "'s \<Rightarrow> bool" and fresh :: "'s \<Rightarrow> bool" and route :: "'s \<Rightarrow> 'u \<Rightarrow> 'h option"
    and legal :: "'q \<Rightarrow> bool" and acquire :: "'s \<Rightarrow> 'h \<Rightarrow> 'q \<Rightarrow> ('u \<times> 's) option"
    and release :: "'s \<Rightarrow> 'u \<Rightarrow> 's"
  assumes acquire_inv: "inv s \<Longrightarrow> fresh s \<Longrightarrow> legal q \<Longrightarrow> acquire s h q = Some (u, s') \<Longrightarrow> inv s'"
    and acquire_route: "inv s \<Longrightarrow> legal q \<Longrightarrow> acquire s h q = Some (u, s') \<Longrightarrow>
      route s u = None \<and> route s' = (route s)(u \<mapsto> h)"
    and release_inv: "inv s \<Longrightarrow> inv (release s u)"
    and release_route: "inv s \<Longrightarrow> route (release s u) = (route s)(u := None)"
begin

lemma acquire_inj:
  assumes "inv s" and "legal q" and "acquire s h q = Some (u, s')"
    and "inj_on (route s) (dom (route s))" and "h \<notin> ran (route s)"
  shows "inj_on (route s') (dom (route s'))"
  using acquire_route [OF assms(1-3)] assms(4,5)
  by (auto simp: inj_on_def dom_def ran_def split: if_splits)

lemma release_inj:
  assumes "inv s" and "inj_on (route s) (dom (route s))"
  shows "inj_on (route (release s u)) (dom (route (release s u)))"
  using assms by (auto simp: release_route inj_on_def dom_def)

lemma acquire_release:
  assumes "inv s" and "fresh s" and "legal q" and "acquire s h q = Some (u, s')"
  shows "route (release s' u) = route s"
  using acquire_route [OF assms(1,3,4)] release_route [OF acquire_inv [OF assms]]
  by (auto simp: fun_eq_iff)

end

text \<open>A request for a UID, as \<^verbatim>\<open>BrokerCore::ResolveNewClientUid\<close> dispatches it.\<close>

datatype uid_request = StaticRequest RdmUid | DynamicRequest EtcPalUuid RdmUid

fun legal_request :: "uid_request \<Rightarrow> bool" where
  "legal_request (StaticRequest u) \<longleftrightarrow> \<not> is_dynamic u"
| "legal_request (DynamicRequest c u) \<longleftrightarrow> is_dynamic u"

fun acquire_uid :: "uid_manager \<Rightarrow> int \<Rightarrow> uid_request \<Rightarrow> (RdmUid \<times> uid_manager) option" where
  "acquire_uid m h (StaticRequest u) =
     (case AddStaticUid m h u of (res, m') \<Rightarrow> if res = kOk then Some (u, m') else None)"
| "acquire_uid m h (DynamicRequest c u) =
     (case AddDynamicUid m h c u of
        Some (res, u', m') \<Rightarrow> if res = kOk then Some (u', m') else None
      | None \<Rightarrow> None)"

lemma AddStaticUid_route:
  assumes "AddStaticUid m h u = (kOk, m')"
  shows "UidToHandle m u = None" and "UidToHandle m' = (UidToHandle m)(u \<mapsto> h)"
  using AddStaticUid_Ok [OF assms] by (auto simp: UidToHandle_def fun_eq_iff map_of_alist_insert has_key_def)

lemma AddDynamicUid_route:
  assumes "uid_inv m" and "is_dynamic u" and "AddDynamicUid m h c u = Some (kOk, u', m')"
  shows "UidToHandle m u' = None \<and> UidToHandle m' = (UidToHandle m)(u' \<mapsto> h)"
  using assms(3,1,2)
proof (cases rule: AddDynamicUid_cases)
  case (reserved r)
  with reserved_unregistered [OF assms(1) reserved(3,4)] show ?thesis
    by (auto simp: UidToHandle_def fun_eq_iff map_of_alist_insert has_key_def simp del: map_of_eq_Some_iff)
next
  case new
  moreover have "map_of (uid_lookup m) u' = None"
    using assms(1,2) new by (intro counter_free) (simp_all add: is_dynamic_def)
  ultimately show ?thesis
    by (auto simp: UidToHandle_def fun_eq_iff map_of_alist_insert has_key_def simp del: map_of_eq_Some_iff)
qed simp

lemma RemoveUid_route: "UidToHandle (RemoveUid m u) = (UidToHandle m)(u := None)"
  by (auto simp: UidToHandle_def RemoveUid_def fun_eq_iff AList.delete_conv' split: option.splits)

interpretation registry: uid_registry uid_inv room UidToHandle legal_request acquire_uid RemoveUid
proof
  fix m m' :: uid_manager and q h u
  assume inv: "uid_inv m" and legal: "legal_request q" and acq: "acquire_uid m h q = Some (u, m')"
  show "UidToHandle m u = None \<and> UidToHandle m' = (UidToHandle m)(u \<mapsto> h)"
    using inv legal acq
    by (cases q) (auto simp: AddStaticUid_route dest: AddDynamicUid_route split: prod.splits option.splits if_splits)
  show "uid_inv m'" if "room m"
    using that inv legal acq
    by (cases q) (auto intro: AddStaticUid_inv AddDynamicUid_inv split: prod.splits option.splits if_splits)
qed (simp_all add: RemoveUid_inv RemoveUid_route)

section \<open>Runs of the registry\<close>

text \<open>
  A step is one call of the broker: a static UID is registered, a dynamic UID is requested, a UID is
  removed. The failing calls are steps too.
\<close>

inductive uid_step :: "uid_manager \<Rightarrow> uid_manager \<Rightarrow> bool" where
  add_static: "\<not> is_dynamic u \<Longrightarrow> AddStaticUid m h u = (res, m') \<Longrightarrow> uid_step m m'"
| add_dynamic: "is_dynamic u \<Longrightarrow> AddDynamicUid m h c u = Some (res, u', m') \<Longrightarrow> uid_step m m'"
| remove: "uid_step m (RemoveUid m u)"

inductive_cases uid_stepE: "uid_step m m'"

lemma RemoveUid_counter [simp]: "next_device_id (RemoveUid m u) = next_device_id m"
  by (simp add: RemoveUid_def split: option.splits)

lemma AddStaticUid_counter:
  "AddStaticUid m h u = (res, m') \<Longrightarrow> next_device_id m' = next_device_id m \<and> reservations m' = reservations m"
  by (auto simp: AddStaticUid_def split: if_splits)

lemma uid_step_inv:
  assumes "uid_step m m'" and "uid_inv m" and "room m"
  shows "uid_inv m'" and "unat (next_device_id m') \<le> Suc (unat (next_device_id m))"
proof -
  show "uid_inv m'"
    using assms by (cases rule: uid_step.cases) (auto intro: AddStaticUid_inv AddDynamicUid_inv RemoveUid_inv)
  show "unat (next_device_id m') \<le> Suc (unat (next_device_id m))"
    using assms(1)
  proof (cases rule: uid_step.cases)
    case (add_dynamic u h c res u')
    from add_dynamic(2) assms(2) add_dynamic(1) show ?thesis
      by (cases rule: AddDynamicUid_cases) (simp_all add: room_Suc [OF assms(3)])
  qed (simp_all add: AddStaticUid_counter)
qed

text \<open>
  The registry that a broker starts with: a new one, or, when the broker has taken the first dynamic UID for itself, one that
  goes on from the second.
\<close>

definition uid_start :: "nat \<Rightarrow> uid_manager \<Rightarrow> bool" where
  "uid_start cap m \<longleftrightarrow> m = BrokerUidManager cap \<or> m = SetNextDeviceId 2 (BrokerUidManager cap)"

lemma uid_start_inv: "uid_start cap m \<Longrightarrow> uid_inv m"
  by (auto simp: uid_start_def SetNextDeviceId_def uid_inv_def tables_agree_def assigned_below_def statics_static_def BrokerUidManager_def)

lemma uid_run_inv:
  assumes "(uid_step ^^ k) m0 m" and "uid_inv m0" and "k + unat (next_device_id m0) + 1 < 2 ^ 32"
  shows "uid_inv m \<and> unat (next_device_id m) \<le> k + unat (next_device_id m0)"
  using assms(1,3)
proof (induction k arbitrary: m)
  case 0
  then show ?case using assms(2) by auto
next
  case (Suc k)
  from Suc.prems(1) obtain m1 where m1: "(uid_step ^^ k) m0 m1" "uid_step m1 m"
    by auto
  have IH: "uid_inv m1" "unat (next_device_id m1) \<le> k + unat (next_device_id m0)" using Suc.IH [OF m1(1)] Suc.prems(2) by auto
  then have "room m1" using Suc.prems(2) by (simp add: room_def)
  with uid_step_inv [OF m1(2) IH(1)] IH(2) show ?case by simp
qed

lemma uid_step_reservation:
  assumes "uid_step m m'" and "map_of (reservations m) c = Some r"
  shows "\<exists>r'. map_of (reservations m') c = Some r' \<and> assigned_uid r' = assigned_uid r"
  using assms
  by (cases rule: uid_step.cases)
    (auto simp: AddStaticUid_counter AddDynamicUid_def RemoveUid_def AList.update_conv'
      map_of_alist_insert has_key_def Let_def bind_eq_Some_conv
      split: if_splits option.splits)

lemma uid_run_reservation:
  assumes "uid_step\<^sup>*\<^sup>* m m'" and "map_of (reservations m) c = Some r"
  shows "\<exists>r'. map_of (reservations m') c = Some r' \<and> assigned_uid r' = assigned_uid r"
  using assms by (induction rule: rtranclp_induct) (auto dest: uid_step_reservation)

section \<open>Properties\<close>

text \<open>
  A small registry for the instances below: client 7 has come with CID \<open>[1]\<close> and was given the
  dynamic UID 1; in the second state it has left again.
\<close>

definition ex_uid :: RdmUid where
  "ex_uid = \<lparr>manu = 0x8001, dev_id = 0\<rparr>"

definition ex_one :: uid_manager where
  "ex_one = \<lparr>uid_lookup = [(ex_uid\<lparr>dev_id := 1\<rparr>, \<lparr>client_handle = 7, reservation = Some [1]\<rparr>)],
     reservations = [([1], \<lparr>assigned_uid = ex_uid\<lparr>dev_id := 1\<rparr>, currently_connected = True\<rparr>)],
     next_device_id = 2, max_uid_capacity = 5\<rparr>"

definition ex_gone :: uid_manager where
  "ex_gone = RemoveUid ex_one (ex_uid\<lparr>dev_id := 1\<rparr>)"

lemma ex_one_eq: "AddDynamicUid (BrokerUidManager 5) 7 [1] ex_uid = Some (kOk, ex_uid\<lparr>dev_id := 1\<rparr>, ex_one)"
  by (simp add: AddDynamicUid_def BrokerUidManager_def next_free_id_stop has_key_def Let_def ex_one_def
      alist_insert_def ex_uid_def)

lemma ex_gone_eq: "ex_gone = \<lparr>uid_lookup = [],
     reservations = [([1], \<lparr>assigned_uid = ex_uid\<lparr>dev_id := 1\<rparr>, currently_connected = False\<rparr>)],
     next_device_id = 2, max_uid_capacity = 5\<rparr>"
  by (simp add: ex_gone_def ex_one_def RemoveUid_def)

lemma ex_uid_dynamic [simp]: "is_dynamic ex_uid" "manu ex_uid = 0x8001"
  by (simp_all add: is_dynamic_def ex_uid_def)

text \<open>
  C20. The search loop of \<^verbatim>\<open>AddDynamicUid\<close> ends in every state with fewer than \<open>2 ^ 32 - 1\<close>
  registered UIDs, whatever the tables and the wrapping counter hold, so the call always returns.
\<close>

theorem AddDynamicUid_returns:
  assumes "Suc (length (uid_lookup m)) < 2 ^ 32"
  shows "\<exists>res u' m'. AddDynamicUid m h c u = Some (res, u', m')"
proof -
  obtain i where "next_free_id (uid_lookup m) (manu u) (next_device_id m) = Some (i, i + 1)"
    using next_free_id_returns [OF assms] by metis
  then show ?thesis by (auto simp: AddDynamicUid_def Let_def split: option.splits)
qed

theorem AddDynamicUid_returns_witness:
  "\<exists>res u' m'. AddDynamicUid (SetNextDeviceId 0 (BrokerUidManager 5)) 7 [1] \<lparr>manu = 0x8001, dev_id = 0\<rparr>
     = Some (res, u', m')"
  by (rule AddDynamicUid_returns) (simp add: SetNextDeviceId_def BrokerUidManager_def)

text \<open>
  C21. In every run of the registry from its start, with the first dynamic UID taken by the broker or not, the invariant holds:
  no duplicate keys, the capacity respected, the two tables in agreement, all assigned dynamic UIDs
  different. The number of calls and the first device id together are below \<open>2 ^ 32 - 1\<close>.
\<close>

theorem uid_manager_reachable_inv:
  assumes "uid_start cap m0" and "(uid_step ^^ k) m0 m" and "k + unat (next_device_id m0) + 1 < 2 ^ 32"
  shows "uid_inv m"
  using uid_run_inv [OF assms(2) uid_start_inv [OF assms(1)] assms(3)] by simp

theorem uid_manager_reachable_inv_witness:
  "uid_inv (snd (AddStaticUid (SetNextDeviceId 2 (BrokerUidManager 5)) 7 \<lparr>manu = 1, dev_id = 2\<rparr>))"
proof (rule uid_manager_reachable_inv)
  let ?m = "SetNextDeviceId 2 (BrokerUidManager 5)"
  show "uid_start 5 ?m" by (simp add: uid_start_def)
  have "uid_step ?m (snd (AddStaticUid ?m 7 \<lparr>manu = 1, dev_id = 2\<rparr>))"
    by (rule uid_step.add_static [where u = "\<lparr>manu = 1, dev_id = 2\<rparr>" and h = 7]) (auto simp: is_dynamic_def prod_eq_iff)
  then show "(uid_step ^^ 1) ?m (snd (AddStaticUid ?m 7 \<lparr>manu = 1, dev_id = 2\<rparr>))"
    by auto
qed (simp add: SetNextDeviceId_def)

text \<open>
  C22. In a state in which the invariant of the registry holds, as it does in every run up to the wrap-around of the counter of
  device ids, a dynamic UID handed out to a client was not routed before, and afterwards it, and nothing
  else that was not, is routed to that client.
\<close>

theorem AddDynamicUid_routes:
  assumes "uid_inv m" and "is_dynamic u" and "AddDynamicUid m h c u = Some (kOk, u', m')"
  shows "UidToHandle m u' = None \<and> UidToHandle m' = (UidToHandle m)(u' \<mapsto> h)"
  using registry.acquire_route [OF assms(1), of "DynamicRequest c u" h u' m'] assms(2,3) by simp

theorem AddDynamicUid_routes_witness:
  "UidToHandle ex_one (ex_uid\<lparr>dev_id := 1\<rparr>) = Some 7"
  using AddDynamicUid_routes [OF uid_inv_init ex_uid_dynamic(1) ex_one_eq] by simp

text \<open>
  C24. A client identifier keeps the dynamic UID it was first given: however many calls come in
  between, disconnection included, a later successful request of the same CID or RID gives the
  reserved UID again.
\<close>

theorem dynamic_uid_stable:
  assumes "uid_step\<^sup>*\<^sup>* m m'" and "map_of (reservations m) c = Some r"
    and "AddDynamicUid m' h c u = Some (kOk, u', m'')"
  shows "u' = assigned_uid r"
  using uid_run_reservation [OF assms(1,2)] assms(3)
  by (auto simp: AddDynamicUid_def simp del: map_of_eq_Some_iff split: if_splits)

theorem dynamic_uid_stable_witness:
  "\<exists>m. AddDynamicUid ex_gone 9 [1] ex_uid = Some (kOk, ex_uid\<lparr>dev_id := 1\<rparr>, m)"
proof -
  have "uid_step\<^sup>*\<^sup>* ex_one ex_gone" unfolding ex_gone_def by (intro r_into_rtranclp uid_step.remove)
  moreover have "map_of (reservations ex_one) [1] = Some \<lparr>assigned_uid = ex_uid\<lparr>dev_id := 1\<rparr>, currently_connected = True\<rparr>"
    by (simp add: ex_one_def)
  moreover obtain u m where "AddDynamicUid ex_gone 9 [1] ex_uid = Some (kOk, u, m)"
    by (simp add: AddDynamicUid_def ex_gone_eq)
  ultimately show ?thesis using dynamic_uid_stable by fastforce
qed

text \<open>
  C40. The reservations are not consulted when a new device id is chosen. Once the counter comes
  back to the id of a reservation whose client is away, a new client is given the reserved UID;
  when the owner reconnects, it is told \<^verbatim>\<open>kOk\<close> with the same UID, which stays routed to the other
  client.
\<close>

theorem reserved_uid_given_away:
  assumes "map_of (reservations m) c = Some r" and "\<not> currently_connected r"
    and "assigned_uid r = u\<lparr>dev_id := next_device_id m\<rparr>" and "next_device_id m \<noteq> 0"
    and "map_of (uid_lookup m) (assigned_uid r) = None" and "map_of (reservations m) c' = None"
    and "Suc (length (uid_lookup m)) < max_uid_capacity m"
  shows "\<exists>m1 m2. AddDynamicUid m h' c' u = Some (kOk, assigned_uid r, m1) \<and>
     AddDynamicUid m1 h c u = Some (kOk, assigned_uid r, m2) \<and>
     UidToHandle m2 (assigned_uid r) = Some h'"
proof -
  have u: "u\<lparr>dev_id := next_device_id m\<rparr> = \<lparr>manu = manu u, dev_id = next_device_id m\<rparr>" by simp
  have search: "next_free_id (uid_lookup m) (manu u) (next_device_id m) = Some (next_device_id m, next_device_id m + 1)"
    using assms(3,4,5) unfolding u by (intro next_free_id_stop) (simp_all add: has_key_def)
  have "c \<noteq> c'" using assms(1,6) by auto
  with assms search show ?thesis
    by (simp add: AddDynamicUid_def Let_def map_of_alist_insert length_alist_insert has_key_def
        UidToHandle_def alist_insert_def)
qed

theorem reserved_uid_given_away_witness:
  "\<exists>m1 m2. AddDynamicUid (SetNextDeviceId 1 ex_gone) 9 [2] ex_uid = Some (kOk, ex_uid\<lparr>dev_id := 1\<rparr>, m1) \<and>
     AddDynamicUid m1 7 [1] ex_uid = Some (kOk, ex_uid\<lparr>dev_id := 1\<rparr>, m2) \<and>
     UidToHandle m2 (ex_uid\<lparr>dev_id := 1\<rparr>) = Some 9"
  using reserved_uid_given_away [of "SetNextDeviceId 1 ex_gone" "[1]"
      "\<lparr>assigned_uid = ex_uid\<lparr>dev_id := 1\<rparr>, currently_connected = False\<rparr>" ex_uid "[2]" 9 7]
  by (simp add: SetNextDeviceId_def ex_gone_eq)

end
