(* ===== verification/Etcpal.thy ===== *)
theory Etcpal
  imports Rdmnet_Prelude
begin

text \<open>
  The EtcPal and RDM libraries, which the sources call and which are not part of the repository.
  They are a parameter of the model: a record \<open>E\<close> with one field per function or constant used, which
  every definition that needs it takes as its first argument. \<open>etcpal_ok\<close> collects the documented
  behaviour the theorems rely on: the packing functions write big-endian fields of fixed size that
  the unpacking functions read back, an unpacking function looks at its own field only, and the sizes and vectors are those of ANSI E1.17 and E1.33.
  \<open>etcpal_be\<close> is a concrete library with that behaviour; it is used where a theorem is applied to a
  concrete message.
\<close>

section \<open>The parameter\<close>

record AcnRootLayerPdu =
  rlp_sender_cid :: EtcPalUuid
  rlp_vector :: u32
  rlp_data_len :: nat

text \<open>
  An unpacking function takes the bytes from its pointer on. A packing function gives the bytes it
  writes; \<open>ACN_PDU_PACK_EXT_LEN\<close> also takes the flags byte that the callers store first.
\<close>

record etcpal =
  unpack_u16b :: "bytes \<Rightarrow> u16"
  unpack_u32b :: "bytes \<Rightarrow> u32"
  pack_u16b :: "u16 \<Rightarrow> bytes"
  pack_u32b :: "u32 \<Rightarrow> bytes"
  ACN_PDU_LENGTH :: "bytes \<Rightarrow> nat"
  ACN_PDU_PACK_EXT_LEN :: "byte \<Rightarrow> nat \<Rightarrow> bytes"
  acn_parse_root_layer_header :: "bytes \<Rightarrow> AcnRootLayerPdu option"
  acn_pack_root_layer_header :: "AcnRootLayerPdu \<Rightarrow> bytes"
  acn_root_layer_buf_size :: "AcnRootLayerPdu \<Rightarrow> nat"
  acn_parse_tcp_preamble :: "bytes \<Rightarrow> nat option"
  acn_pack_tcp_preamble :: "nat \<Rightarrow> bytes"
  ACN_TCP_PREAMBLE_SIZE :: nat
  ACN_RLP_HEADER_SIZE_EXT_LEN :: nat
  ACN_VECTOR_ROOT_RPT :: u32
  ACN_VECTOR_ROOT_BROKER :: u32
  ETCPAL_UUID_BYTES :: nat
  RDM_MIN_BYTES :: nat
  RDM_MAX_BYTES :: nat

text \<open>The error codes of EtcPal that the modelled code returns or inspects.\<close>

datatype etcpal_error_t =
    kEtcPalErrOk | kEtcPalErrNotFound | kEtcPalErrNoMem | kEtcPalErrSys | kEtcPalErrInvalid
  | kEtcPalErrNotInit | kEtcPalErrNotConn | kEtcPalErrIsConn | kEtcPalErrConnClosed
  | kEtcPalErrConnReset | kEtcPalErrWouldBlock | kEtcPalErrInProgress | kEtcPalErrProtocol
  | kEtcPalErrMsgSize | kEtcPalErrNoData | kEtcPalErrTimedOut | kEtcPalErrNoNetints
  | kEtcPalErrHostUnreach | kEtcPalErrAlready | kEtcPalErrNoSockets
  | kEtcPalErrOther int

text \<open>A timer; the sources read its interval.\<close>

record EtcPalTimer =
  timer_interval :: u32
  timer_reset_time :: u32

section \<open>What is assumed of it\<close>

definition etcpal_ok :: "etcpal \<Rightarrow> bool" where
  "etcpal_ok E \<longleftrightarrow>
     (\<forall>x r. unpack_u16b E (pack_u16b E x @ r) = x) \<and> (\<forall>x. length (pack_u16b E x) = 2) \<and>
     (\<forall>x r. unpack_u32b E (pack_u32b E x @ r) = x) \<and> (\<forall>x. length (pack_u32b E x) = 4) \<and>
     (\<forall>d. ACN_PDU_LENGTH E d < 2 ^ 20) \<and>
     (\<forall>n r. n < 2 ^ 20 \<longrightarrow> ACN_PDU_LENGTH E (ACN_PDU_PACK_EXT_LEN E 0xf0 n @ r) = n) \<and>
     (\<forall>f n. length (ACN_PDU_PACK_EXT_LEN E f n) = 3) \<and>
     (\<forall>p r. length (rlp_sender_cid p) = 16 \<and> rlp_data_len p + 23 < 2 ^ 20 \<longrightarrow>
        acn_parse_root_layer_header E (acn_pack_root_layer_header E p @ r) = Some p \<and>
        length (acn_pack_root_layer_header E p) = 23) \<and>
     (\<forall>p. acn_root_layer_buf_size E p = 23 + rlp_data_len p) \<and>
     (\<forall>n r. n < 2 ^ 32 \<longrightarrow> acn_parse_tcp_preamble E (acn_pack_tcp_preamble E n @ r) = Some n) \<and>
     (\<forall>n. length (acn_pack_tcp_preamble E n) = 16) \<and>
     (\<forall>d r. 2 \<le> length d \<longrightarrow> unpack_u16b E (d @ r) = unpack_u16b E d) \<and>
     (\<forall>d r. 4 \<le> length d \<longrightarrow> unpack_u32b E (d @ r) = unpack_u32b E d) \<and>
     (\<forall>d r. 3 \<le> length d \<longrightarrow> ACN_PDU_LENGTH E (d @ r) = ACN_PDU_LENGTH E d) \<and>
     ACN_TCP_PREAMBLE_SIZE E = 16 \<and> ACN_RLP_HEADER_SIZE_EXT_LEN E = 23 \<and>
     ACN_VECTOR_ROOT_RPT E = 5 \<and> ACN_VECTOR_ROOT_BROKER E = 9 \<and>
     ETCPAL_UUID_BYTES E = 16 \<and> RDM_MIN_BYTES E = 26 \<and> RDM_MAX_BYTES E = 257"

named_theorems etcpal_simps \<open>what etcpal_ok gives, as rewrite rules\<close>

lemma etcpal_ok_fields [etcpal_simps]:
  assumes "etcpal_ok E"
  shows "unpack_u16b E (pack_u16b E x @ r) = x" "unpack_u16b E (pack_u16b E x) = x"
    "length (pack_u16b E x) = 2"
    "unpack_u32b E (pack_u32b E y @ r) = y" "unpack_u32b E (pack_u32b E y) = y"
    "length (pack_u32b E y) = 4"
    "length (ACN_PDU_PACK_EXT_LEN E f n) = 3"
    "n < 2 ^ 20 \<Longrightarrow> ACN_PDU_LENGTH E (ACN_PDU_PACK_EXT_LEN E 0xf0 n @ r) = n"
    "length (acn_pack_tcp_preamble E n) = 16"
    "n < 2 ^ 32 \<Longrightarrow> acn_parse_tcp_preamble E (acn_pack_tcp_preamble E n @ r) = Some n"
    "acn_root_layer_buf_size E p = 23 + rlp_data_len p"
  using assms by (simp_all add: etcpal_ok_def) (metis append_Nil2)+

lemma etcpal_ok_consts [etcpal_simps]:
  assumes "etcpal_ok E"
  shows "ACN_TCP_PREAMBLE_SIZE E = 16" "ACN_RLP_HEADER_SIZE_EXT_LEN E = 23"
    "ACN_VECTOR_ROOT_RPT E = 5" "ACN_VECTOR_ROOT_BROKER E = 9"
    "ETCPAL_UUID_BYTES E = 16" "RDM_MIN_BYTES E = 26" "RDM_MAX_BYTES E = 257"
  using assms by (simp_all add: etcpal_ok_def)

lemma etcpal_ok_local:
  assumes "etcpal_ok E"
  shows "2 \<le> length d \<Longrightarrow> unpack_u16b E (d @ r) = unpack_u16b E d"
    "4 \<le> length d \<Longrightarrow> unpack_u32b E (d @ r) = unpack_u32b E d"
    "3 \<le> length d \<Longrightarrow> ACN_PDU_LENGTH E (d @ r) = ACN_PDU_LENGTH E d"
  using assms by (simp_all add: etcpal_ok_def)

lemma ACN_PDU_LENGTH_less: "etcpal_ok E \<Longrightarrow> ACN_PDU_LENGTH E d < 2 ^ 20"
  by (simp add: etcpal_ok_def)

lemma etcpal_ok_root [etcpal_simps]:
  assumes "etcpal_ok E" and "length (rlp_sender_cid p) = 16" and "rlp_data_len p + 23 < 2 ^ 20"
  shows "acn_parse_root_layer_header E (acn_pack_root_layer_header E p @ r) = Some p"
    "length (acn_pack_root_layer_header E p) = 23"
  using assms by (simp_all add: etcpal_ok_def)

section \<open>A concrete library\<close>

definition be_pack :: "nat \<Rightarrow> nat \<Rightarrow> bytes" where
  "be_pack k n = rev (map (\<lambda>i. of_nat (n div 256 ^ i)) [0..<k])"

definition be_unpack :: "nat \<Rightarrow> bytes \<Rightarrow> nat" where
  "be_unpack k d = foldl (\<lambda>a b. 256 * a + unat b) 0 (take k d)"

definition be_root_parse :: "bytes \<Rightarrow> AcnRootLayerPdu option" where
  "be_root_parse d =
     (let n = be_unpack 3 d mod 2 ^ 20 in
      if length d < 23 \<or> n < 23 then None
      else Some \<lparr>rlp_sender_cid = take 16 (drop 7 d), rlp_vector = of_nat (be_unpack 4 (drop 3 d)),
                 rlp_data_len = n - 23\<rparr>)"

definition be_root_pack :: "AcnRootLayerPdu \<Rightarrow> bytes" where
  "be_root_pack p = be_pack 3 (15 * 2 ^ 20 + (rlp_data_len p + 23)) @ be_pack 4 (unat (rlp_vector p)) @
     rlp_sender_cid p"

definition ACN_PACKET_IDENT :: bytes where
  "ACN_PACKET_IDENT = [0x41, 0x53, 0x43, 0x2d, 0x45, 0x31, 0x2e, 0x31, 0x37, 0, 0, 0]"

definition be_preamble_parse :: "bytes \<Rightarrow> nat option" where
  "be_preamble_parse d =
     (if 16 \<le> length d \<and> take 12 d = ACN_PACKET_IDENT then Some (be_unpack 4 (drop 12 d)) else None)"

definition etcpal_be :: etcpal where
  "etcpal_be = \<lparr>
     unpack_u16b = (\<lambda>d. of_nat (be_unpack 2 d)), unpack_u32b = (\<lambda>d. of_nat (be_unpack 4 d)),
     pack_u16b = (\<lambda>x. be_pack 2 (unat x)), pack_u32b = (\<lambda>x. be_pack 4 (unat x)),
     ACN_PDU_LENGTH = (\<lambda>d. be_unpack 3 d mod 2 ^ 20),
     ACN_PDU_PACK_EXT_LEN = (\<lambda>f n. be_pack 3 (unat f * 2 ^ 16 + n)),
     acn_parse_root_layer_header = be_root_parse, acn_pack_root_layer_header = be_root_pack,
     acn_root_layer_buf_size = (\<lambda>p. 23 + rlp_data_len p), acn_parse_tcp_preamble = be_preamble_parse,
     acn_pack_tcp_preamble = (\<lambda>n. ACN_PACKET_IDENT @ be_pack 4 n),
     ACN_TCP_PREAMBLE_SIZE = 16, ACN_RLP_HEADER_SIZE_EXT_LEN = 23,
     ACN_VECTOR_ROOT_RPT = 5, ACN_VECTOR_ROOT_BROKER = 9, ETCPAL_UUID_BYTES = 16,
     RDM_MIN_BYTES = 26, RDM_MAX_BYTES = 257\<rparr>"

lemma length_be_pack [simp]: "length (be_pack k n) = k"
  by (simp add: be_pack_def)

lemma be_pack_Suc: "be_pack (Suc k) n = of_nat (n div 256 ^ k) # be_pack k n"
  by (simp add: be_pack_def)

lemma unat_byte: "unat (of_nat n :: byte) = n mod 256"
  by (simp add: unsigned_of_nat take_bit_eq_mod)

lemma be_unpack_append [simp]: "length d = k \<Longrightarrow> be_unpack k (d @ r) = be_unpack k d"
  by (simp add: be_unpack_def)

lemma be_unpack_local: "k \<le> length d \<Longrightarrow> be_unpack k (d @ r) = be_unpack k d"
  by (simp add: be_unpack_def)

lemma foldl_be:
  "foldl (\<lambda>a b. 256 * a + unat b) a (be_pack k n) = 256 ^ k * a + n mod 256 ^ k"
proof (induction k arbitrary: a)
  case 0
  then show ?case by (simp add: be_pack_def)
next
  case (Suc k)
  have "n mod 256 ^ Suc k = 256 ^ k * (n div 256 ^ k mod 256) + n mod 256 ^ k"
    by (simp add: mod_mult2_eq mult.commute [of 256])
  with Suc show ?case by (simp add: be_pack_Suc unat_byte algebra_simps)
qed

lemma be_roundtrip [simp]: "be_unpack k (be_pack k n) = n mod 256 ^ k"
  by (simp add: be_unpack_def foldl_be)

lemma etcpal_be_ok [simp]: "etcpal_ok etcpal_be"
proof -
  have u16: "(of_nat (unat x mod 65536) :: u16) = x" for x :: u16
    using unsigned_less [where 'a = nat, of x] by simp
  have u32: "(of_nat (unat x mod 4294967296) :: u32) = x" for x :: u32
    using unsigned_less [where 'a = nat, of x] by simp
  have len: "(15728640 + n) mod 1048576 = n" if "n < 1048576" for n :: nat
    using that mod_mult_self3 [of 15 1048576 n] by simp
  have root: "(15728663 + n) mod 1048576 = n + 23" if "n < 1048553" for n :: nat
    using that len [of "n + 23"] by simp
  show ?thesis
    unfolding etcpal_ok_def etcpal_be_def
    by (auto simp: u16 u32 len root be_unpack_local be_root_parse_def be_root_pack_def be_preamble_parse_def ACN_PACKET_IDENT_def Let_def)
qed

end
