(* ===== verification/Messages.thy ===== *)
theory Messages
  imports Etcpal
begin

text \<open>
  The message structures of \<^verbatim>\<open>src/rdmnet/core/message.h\<close>, \<^verbatim>\<open>broker_message.h\<close>, \<^verbatim>\<open>rpt_message.h\<close>,
  \<^verbatim>\<open>client_entry.h\<close> and \<^verbatim>\<open>include/rdmnet/message.h\<close>, and the protocol constants of
  \<^verbatim>\<open>include/rdmnet/defs.h\<close>, \<^verbatim>\<open>broker_prot.h\<close> and \<^verbatim>\<open>rpt_prot.h\<close>.

  A C union is a record with one field per member: the code reads a member only after the vector
  has selected it and its initialiser has written it. An array and its element count are one list,
  the null pointer being the empty list: the code allocates an array together with its first
  element. An enumeration read from the wire is the word it is cast from.
\<close>

section \<open>Protocol constants\<close>

abbreviation (input) VECTOR_BROKER_CONNECT :: u16 where "VECTOR_BROKER_CONNECT \<equiv> 0x0001"
abbreviation (input) VECTOR_BROKER_CONNECT_REPLY :: u16 where "VECTOR_BROKER_CONNECT_REPLY \<equiv> 0x0002"
abbreviation (input) VECTOR_BROKER_CLIENT_ENTRY_UPDATE :: u16 where "VECTOR_BROKER_CLIENT_ENTRY_UPDATE \<equiv> 0x0003"
abbreviation (input) VECTOR_BROKER_REDIRECT_V4 :: u16 where "VECTOR_BROKER_REDIRECT_V4 \<equiv> 0x0004"
abbreviation (input) VECTOR_BROKER_REDIRECT_V6 :: u16 where "VECTOR_BROKER_REDIRECT_V6 \<equiv> 0x0005"
abbreviation (input) VECTOR_BROKER_FETCH_CLIENT_LIST :: u16 where "VECTOR_BROKER_FETCH_CLIENT_LIST \<equiv> 0x0006"
abbreviation (input) VECTOR_BROKER_CONNECTED_CLIENT_LIST :: u16 where "VECTOR_BROKER_CONNECTED_CLIENT_LIST \<equiv> 0x0007"
abbreviation (input) VECTOR_BROKER_CLIENT_ADD :: u16 where "VECTOR_BROKER_CLIENT_ADD \<equiv> 0x0008"
abbreviation (input) VECTOR_BROKER_CLIENT_REMOVE :: u16 where "VECTOR_BROKER_CLIENT_REMOVE \<equiv> 0x0009"
abbreviation (input) VECTOR_BROKER_CLIENT_ENTRY_CHANGE :: u16 where "VECTOR_BROKER_CLIENT_ENTRY_CHANGE \<equiv> 0x000A"
abbreviation (input) VECTOR_BROKER_REQUEST_DYNAMIC_UIDS :: u16 where "VECTOR_BROKER_REQUEST_DYNAMIC_UIDS \<equiv> 0x000B"
abbreviation (input) VECTOR_BROKER_ASSIGNED_DYNAMIC_UIDS :: u16 where "VECTOR_BROKER_ASSIGNED_DYNAMIC_UIDS \<equiv> 0x000C"
abbreviation (input) VECTOR_BROKER_FETCH_DYNAMIC_UID_LIST :: u16 where "VECTOR_BROKER_FETCH_DYNAMIC_UID_LIST \<equiv> 0x000D"
abbreviation (input) VECTOR_BROKER_DISCONNECT :: u16 where "VECTOR_BROKER_DISCONNECT \<equiv> 0x000E"
abbreviation (input) VECTOR_BROKER_NULL :: u16 where "VECTOR_BROKER_NULL \<equiv> 0x000F"

abbreviation (input) VECTOR_RPT_REQUEST :: u32 where "VECTOR_RPT_REQUEST \<equiv> 1"
abbreviation (input) VECTOR_RPT_STATUS :: u32 where "VECTOR_RPT_STATUS \<equiv> 2"
abbreviation (input) VECTOR_RPT_NOTIFICATION :: u32 where "VECTOR_RPT_NOTIFICATION \<equiv> 3"
abbreviation (input) VECTOR_REQUEST_RDM_CMD :: u32 where "VECTOR_REQUEST_RDM_CMD \<equiv> 1"
abbreviation (input) VECTOR_NOTIFICATION_RDM_CMD :: u32 where "VECTOR_NOTIFICATION_RDM_CMD \<equiv> 1"
abbreviation (input) VECTOR_RDM_CMD_RDM_DATA :: u8 where "VECTOR_RDM_CMD_RDM_DATA \<equiv> 0xCC"

abbreviation (input) VECTOR_RPT_STATUS_UNKNOWN_RPT_UID :: u16 where "VECTOR_RPT_STATUS_UNKNOWN_RPT_UID \<equiv> 1"
abbreviation (input) VECTOR_RPT_STATUS_RDM_TIMEOUT :: u16 where "VECTOR_RPT_STATUS_RDM_TIMEOUT \<equiv> 2"
abbreviation (input) VECTOR_RPT_STATUS_RDM_INVALID_RESPONSE :: u16 where "VECTOR_RPT_STATUS_RDM_INVALID_RESPONSE \<equiv> 3"
abbreviation (input) VECTOR_RPT_STATUS_UNKNOWN_RDM_UID :: u16 where "VECTOR_RPT_STATUS_UNKNOWN_RDM_UID \<equiv> 4"
abbreviation (input) VECTOR_RPT_STATUS_UNKNOWN_ENDPOINT :: u16 where "VECTOR_RPT_STATUS_UNKNOWN_ENDPOINT \<equiv> 5"
abbreviation (input) VECTOR_RPT_STATUS_BROADCAST_COMPLETE :: u16 where "VECTOR_RPT_STATUS_BROADCAST_COMPLETE \<equiv> 6"
abbreviation (input) VECTOR_RPT_STATUS_UNKNOWN_VECTOR :: u16 where "VECTOR_RPT_STATUS_UNKNOWN_VECTOR \<equiv> 7"
abbreviation (input) VECTOR_RPT_STATUS_INVALID_MESSAGE :: u16 where "VECTOR_RPT_STATUS_INVALID_MESSAGE \<equiv> 8"
abbreviation (input) VECTOR_RPT_STATUS_INVALID_COMMAND_CLASS :: u16 where "VECTOR_RPT_STATUS_INVALID_COMMAND_CLASS \<equiv> 9"

abbreviation (input) kClientProtocolRPT :: u32 where "kClientProtocolRPT \<equiv> 5"
abbreviation (input) kClientProtocolEPT :: u32 where "kClientProtocolEPT \<equiv> 0xB"
abbreviation (input) kClientProtocolUnknown :: u32 where "kClientProtocolUnknown \<equiv> 0xffffffff"

abbreviation (input) kRdmnetConnectOk :: u16 where "kRdmnetConnectOk \<equiv> 0"
abbreviation (input) kRdmnetConnectScopeMismatch :: u16 where "kRdmnetConnectScopeMismatch \<equiv> 1"
abbreviation (input) kRdmnetConnectCapacityExceeded :: u16 where "kRdmnetConnectCapacityExceeded \<equiv> 2"
abbreviation (input) kRdmnetConnectDuplicateUid :: u16 where "kRdmnetConnectDuplicateUid \<equiv> 3"
abbreviation (input) kRdmnetConnectInvalidClientEntry :: u16 where "kRdmnetConnectInvalidClientEntry \<equiv> 4"
abbreviation (input) kRdmnetConnectInvalidUid :: u16 where "kRdmnetConnectInvalidUid \<equiv> 5"

abbreviation (input) E133_SCOPE_STRING_PADDED_LENGTH :: nat where "E133_SCOPE_STRING_PADDED_LENGTH \<equiv> 63"
abbreviation (input) E133_DOMAIN_STRING_PADDED_LENGTH :: nat where "E133_DOMAIN_STRING_PADDED_LENGTH \<equiv> 231"
abbreviation (input) RPT_STATUS_STRING_MAXLEN :: nat where "RPT_STATUS_STRING_MAXLEN \<equiv> 1024"

abbreviation (input) BROKER_PDU_HEADER_SIZE :: nat where "BROKER_PDU_HEADER_SIZE \<equiv> 5"
abbreviation (input) CLIENT_ENTRY_HEADER_SIZE :: nat where "CLIENT_ENTRY_HEADER_SIZE \<equiv> 23"
abbreviation (input) RPT_CLIENT_ENTRY_DATA_SIZE :: nat where "RPT_CLIENT_ENTRY_DATA_SIZE \<equiv> 23"
abbreviation (input) EPT_PROTOCOL_ENTRY_SIZE :: nat where "EPT_PROTOCOL_ENTRY_SIZE \<equiv> 36"
abbreviation (input) EPT_PROTOCOL_STRING_PADDED_LENGTH :: nat where "EPT_PROTOCOL_STRING_PADDED_LENGTH \<equiv> 32"
abbreviation (input) RPT_CLIENT_ENTRY_SIZE :: nat where
  "RPT_CLIENT_ENTRY_SIZE \<equiv> CLIENT_ENTRY_HEADER_SIZE + RPT_CLIENT_ENTRY_DATA_SIZE"
abbreviation (input) CLIENT_CONNECT_COMMON_FIELD_SIZE :: nat where
  "CLIENT_CONNECT_COMMON_FIELD_SIZE \<equiv> 3 + E133_SCOPE_STRING_PADDED_LENGTH + E133_DOMAIN_STRING_PADDED_LENGTH"
abbreviation (input) CLIENT_CONNECT_DATA_MIN_SIZE :: nat where
  "CLIENT_CONNECT_DATA_MIN_SIZE \<equiv> CLIENT_CONNECT_COMMON_FIELD_SIZE + CLIENT_ENTRY_HEADER_SIZE"
abbreviation (input) BROKER_CONNECT_REPLY_DATA_SIZE :: nat where "BROKER_CONNECT_REPLY_DATA_SIZE \<equiv> 16"
abbreviation (input) CLIENT_ENTRY_UPDATE_COMMON_FIELD_SIZE :: nat where "CLIENT_ENTRY_UPDATE_COMMON_FIELD_SIZE \<equiv> 1"
abbreviation (input) CLIENT_ENTRY_UPDATE_DATA_MIN_SIZE :: nat where
  "CLIENT_ENTRY_UPDATE_DATA_MIN_SIZE \<equiv> CLIENT_ENTRY_UPDATE_COMMON_FIELD_SIZE + CLIENT_ENTRY_HEADER_SIZE"
abbreviation (input) REDIRECT_V4_DATA_SIZE :: nat where "REDIRECT_V4_DATA_SIZE \<equiv> 6"
abbreviation (input) REDIRECT_V6_DATA_SIZE :: nat where "REDIRECT_V6_DATA_SIZE \<equiv> 18"
abbreviation (input) DYNAMIC_UID_REQUEST_PAIR_SIZE :: nat where "DYNAMIC_UID_REQUEST_PAIR_SIZE \<equiv> 22"
abbreviation (input) DYNAMIC_UID_MAPPING_SIZE :: nat where "DYNAMIC_UID_MAPPING_SIZE \<equiv> 24"
abbreviation (input) DISCONNECT_DATA_SIZE :: nat where "DISCONNECT_DATA_SIZE \<equiv> 2"
abbreviation (input) RPT_PDU_HEADER_SIZE :: nat where "RPT_PDU_HEADER_SIZE \<equiv> 28"
abbreviation (input) RPT_STATUS_HEADER_SIZE :: nat where "RPT_STATUS_HEADER_SIZE \<equiv> 5"
abbreviation (input) REQUEST_NOTIF_PDU_HEADER_SIZE :: nat where "REQUEST_NOTIF_PDU_HEADER_SIZE \<equiv> 7"

definition RDM_CMD_PDU_MIN_SIZE :: "etcpal \<Rightarrow> nat" where
  "RDM_CMD_PDU_MIN_SIZE E = 3 + RDM_MIN_BYTES E"

definition RDM_CMD_PDU_MAX_SIZE :: "etcpal \<Rightarrow> nat" where
  "RDM_CMD_PDU_MAX_SIZE E = 3 + RDM_MAX_BYTES E"

section \<open>Client entries\<close>

record RdmnetRptClientEntry =
  ce_cid :: EtcPalUuid
  ce_uid :: RdmUid
  ce_type :: u32
  ce_binding_cid :: EtcPalUuid

record RdmnetEptSubProtocol =
  sp_manufacturer_id :: u16
  sp_protocol_id :: u16
  sp_protocol_string :: bytes

record RdmnetEptClientEntry =
  ept_cid :: EtcPalUuid
  ept_protocols :: "RdmnetEptSubProtocol list"

text \<open>
  Unions are products here: a member is only read while the protocol or the vector beside the union
  names it, and naming another one comes with initialising it.
\<close>

record ClientEntryUnion =
  entry_rpt :: RdmnetRptClientEntry
  entry_ept :: RdmnetEptClientEntry

record ClientEntry =
  ce_client_protocol :: u32
  ce_data :: ClientEntryUnion

text \<open>
  A list message: the elements and whether the rest of the list is still to come.
\<close>

record 'a msg_list =
  entries :: "'a list"
  more_coming :: bool

type_synonym RdmnetRptClientList = "RdmnetRptClientEntry msg_list"

section \<open>Broker messages\<close>

record BrokerClientConnectMsg =
  cc_scope :: bytes
  cc_e133_version :: u16
  cc_search_domain :: bytes
  cc_connect_flags :: u8
  cc_client_entry :: ClientEntry

record BrokerConnectReplyMsg =
  cr_connect_status :: u16
  cr_e133_version :: u16
  cr_broker_uid :: RdmUid
  cr_client_uid :: RdmUid

record BrokerClientEntryUpdateMsg =
  ceu_connect_flags :: u8
  ceu_client_entry :: ClientEntry

datatype EtcPalIpAddr = IpV4 u32 | IpV6 bytes

record BrokerClientRedirectMsg =
  redirect_ip :: EtcPalIpAddr
  redirect_port :: u16

record BrokerClientList =
  cl_client_protocol :: u32
  cl_rpt :: RdmnetRptClientList

record BrokerDynamicUidRequest =
  req_manu_id :: u16
  req_rid :: EtcPalUuid

record RdmnetDynamicUidMapping =
  map_status_code :: u16
  map_uid :: RdmUid
  map_rid :: EtcPalUuid

type_synonym BrokerDynamicUidRequestList = "BrokerDynamicUidRequest msg_list"
type_synonym RdmnetDynamicUidAssignmentList = "RdmnetDynamicUidMapping msg_list"
type_synonym BrokerFetchUidAssignmentList = "RdmUid msg_list"

record BrokerMessage =
  bm_vector :: u16
  client_connect :: BrokerClientConnectMsg
  connect_reply :: BrokerConnectReplyMsg
  client_entry_update :: BrokerClientEntryUpdateMsg
  client_redirect :: BrokerClientRedirectMsg
  client_list :: BrokerClientList
  dynamic_uid_request_list :: BrokerDynamicUidRequestList
  dynamic_uid_assignment_list :: RdmnetDynamicUidAssignmentList
  fetch_uid_assignment_list :: BrokerFetchUidAssignmentList
  disconnect_reason :: u16

section \<open>RPT messages\<close>

record RptHeader =
  source_uid :: RdmUid
  source_endpoint_id :: u16
  dest_uid :: RdmUid
  dest_endpoint_id :: u16
  seqnum :: u32

text \<open>The status string is \<^const>\<open>None\<close> for the null pointer, without its terminating zero otherwise.\<close>

record RptStatusMsg =
  status_code :: u16
  status_string :: "bytes option"

type_synonym RdmBuffer = bytes
type_synonym RptRdmBufList = "RdmBuffer msg_list"

record RptMessage =
  rm_vector :: u32
  rm_header :: RptHeader
  rm_status :: RptStatusMsg
  rm_rdm :: RptRdmBufList

record RdmnetMessage =
  msg_vector :: u32
  sender_cid :: EtcPalUuid
  msg_broker :: BrokerMessage
  msg_rpt :: RptMessage

section \<open>Strings\<close>

text \<open>
  \<^verbatim>\<open>rdmnet_safe_strncpy\<close>: \<^verbatim>\<open>strncpy\<close> copies up to the terminating zero or \<open>num\<close> bytes and pads with
  zeros; the last byte is then set to zero. The result is the destination array.
\<close>

definition rdmnet_safe_strncpy :: "bytes \<Rightarrow> nat \<Rightarrow> bytes" where
  "rdmnet_safe_strncpy src num =
     (let s = takeWhile (\<lambda>c. c \<noteq> 0) (take num src) in
      (s @ replicate (num - length s) 0) [num - 1 := 0])"

lemma length_safe_strncpy [simp]: "length (rdmnet_safe_strncpy src num) = num"
proof -
  have "length (takeWhile (\<lambda>c. c \<noteq> 0) (take num src)) \<le> num"
    by (rule order_trans [OF length_takeWhile_le]) simp
  then show ?thesis by (simp add: rdmnet_safe_strncpy_def Let_def)
qed

section \<open>Freeing a message\<close>

text \<open>
  \<^verbatim>\<open>rc_free_message_resources\<close> of \<^verbatim>\<open>src/rdmnet/core/message.c\<close>, with dynamic memory. The result says which
  array of the message is handed to \<^verbatim>\<open>free\<close>, and the message afterwards. Only the pointer to the
  status string is cleared: the message keeps the other pointers to memory that is free. The parser
  drops lists of EPT clients before it stores an entry, so their array is the null pointer, at which the
  assertion of the EPT case returns.
\<close>

datatype msg_block = ClientEntries | Requests | Mappings | Uids | RdmBuffers | StatusString

definition block_of :: "msg_block \<Rightarrow> 'a list \<Rightarrow> msg_block list" where
  "block_of b xs = (if xs = [] then [] else [b])"

definition free_broker_message :: "BrokerMessage \<Rightarrow> msg_block list" where
  "free_broker_message bmsg =
     (if bm_vector bmsg = VECTOR_BROKER_CLIENT_ADD \<or> bm_vector bmsg = VECTOR_BROKER_CLIENT_REMOVE \<or>
         bm_vector bmsg = VECTOR_BROKER_CLIENT_ENTRY_CHANGE \<or> bm_vector bmsg = VECTOR_BROKER_CONNECTED_CLIENT_LIST
      then (if cl_client_protocol (client_list bmsg) = kClientProtocolRPT
            then block_of ClientEntries (entries (cl_rpt (client_list bmsg))) else [])
      else if bm_vector bmsg = VECTOR_BROKER_REQUEST_DYNAMIC_UIDS
      then block_of Requests (entries (dynamic_uid_request_list bmsg))
      else if bm_vector bmsg = VECTOR_BROKER_ASSIGNED_DYNAMIC_UIDS
      then block_of Mappings (entries (dynamic_uid_assignment_list bmsg))
      else if bm_vector bmsg = VECTOR_BROKER_FETCH_DYNAMIC_UID_LIST
      then block_of Uids (entries (fetch_uid_assignment_list bmsg))
      else [])"

definition free_rpt_message :: "RptMessage \<Rightarrow> msg_block list \<times> RptMessage" where
  "free_rpt_message rmsg =
     (if rm_vector rmsg = VECTOR_RPT_REQUEST \<or> rm_vector rmsg = VECTOR_RPT_NOTIFICATION
      then (block_of RdmBuffers (entries (rm_rdm rmsg)), rmsg)
      else if rm_vector rmsg = VECTOR_RPT_STATUS
      then (case status_string (rm_status rmsg) of
              None \<Rightarrow> ([], rmsg)
            | Some _ \<Rightarrow> ([StatusString], rmsg\<lparr>rm_status := (rm_status rmsg)\<lparr>status_string := None\<rparr>\<rparr>))
      else ([], rmsg))"

definition rc_free_message_resources :: "etcpal \<Rightarrow> RdmnetMessage \<Rightarrow> msg_block list \<times> RdmnetMessage" where
  "rc_free_message_resources E msg =
     (if msg_vector msg = ACN_VECTOR_ROOT_BROKER E then (free_broker_message (msg_broker msg), msg)
      else if msg_vector msg = ACN_VECTOR_ROOT_RPT E
      then (case free_rpt_message (msg_rpt msg) of (blocks, rmsg) \<Rightarrow> (blocks, msg\<lparr>msg_rpt := rmsg\<rparr>))
      else ([], msg))"

end
