(* ===== verification/Pdu_Block.thy ===== *)
theory Pdu_Block
  imports Messages
begin

text \<open>
  Parser state shared by all protocol layers of \<^verbatim>\<open>src/rdmnet/core/msg_buf.c\<close>: the progress through a
  PDU block, the two helpers \<^verbatim>\<open>consume_bad_block\<close> and \<^verbatim>\<open>check_for_full_parse\<close>, and the three list
  parsers that read fixed-size elements.

  A parser takes its state and the bytes available from its data pointer on; \<^verbatim>\<open>data_len\<close> is the
  length of that list. It gives the number of bytes consumed, the new state and the new value of
  the \<^verbatim>\<open>*result\<close> out-parameter. Where the code returns without writing \<^verbatim>\<open>*result\<close> the caller's value
  is kept, so \<^verbatim>\<open>*result\<close> is also an argument of the parsers that can do this.
\<close>

section \<open>Parse results and block states\<close>

datatype rc_parse_result_t =
    kRCParseResNoData
  | kRCParseResPartialBlockParseOk
  | kRCParseResPartialBlockProtErr
  | kRCParseResFullBlockParseOk
  | kRCParseResFullBlockProtErr

record PduBlockState =
  block_size :: nat
  size_parsed :: nat
  consuming_bad_block :: bool
  parsed_header :: bool

definition INIT_PDU_BLOCK_STATE :: "nat \<Rightarrow> PduBlockState" where
  "INIT_PDU_BLOCK_STATE n =
     \<lparr>block_size = n, size_parsed = 0, consuming_bad_block = False, parsed_header = False\<rparr>"

definition consume_bad_block :: "PduBlockState \<Rightarrow> nat \<Rightarrow> nat \<times> PduBlockState \<times> rc_parse_result_t" where
  "consume_bad_block b data_len =
     (let size_remaining = csub (block_size b) (size_parsed b) in
      if data_len \<ge> size_remaining
      then (size_remaining, b\<lparr>size_parsed := block_size b\<rparr>, kRCParseResFullBlockProtErr)
      else (data_len, b\<lparr>size_parsed := size_parsed b + data_len, consuming_bad_block := True\<rparr>,
            kRCParseResNoData))"

definition check_for_full_parse :: "rc_parse_result_t \<Rightarrow> PduBlockState \<Rightarrow> rc_parse_result_t \<times> PduBlockState" where
  "check_for_full_parse prev_res b =
     (case prev_res of
        kRCParseResFullBlockParseOk \<Rightarrow>
          (if size_parsed b < block_size b then kRCParseResPartialBlockParseOk else prev_res,
           b\<lparr>parsed_header := False\<rparr>)
      | kRCParseResFullBlockProtErr \<Rightarrow>
          (if size_parsed b < block_size b then kRCParseResPartialBlockProtErr else prev_res,
           b\<lparr>parsed_header := False\<rparr>)
      | _ \<Rightarrow> (prev_res, b))"

section \<open>Lists of fixed-size elements\<close>

record GenericListState =
  full_list_size :: nat
  gl_size_parsed :: nat

definition INIT_GENERIC_LIST_STATE :: "nat \<Rightarrow> GenericListState" where
  "INIT_GENERIC_LIST_STATE n = \<lparr>full_list_size = n, gl_size_parsed = 0\<rparr>"

text \<open>
  The loop the three list parsers have in common; they differ in the size \<open>sz\<close> of an element and in
  how an element is unpacked. \<open>alloc n\<close> says whether memory for \<open>n\<close> elements can be had: with static
  memory it is \<open>n \<le> max\<close>. A failure on the first element ends the loop with "no data", a later one
  delivers the partial list. The recursion is on the remaining data; \<open>sz\<close> is never 0.
\<close>

function parse_list_loop ::
  "(nat \<Rightarrow> bool) \<Rightarrow> nat \<Rightarrow> (bytes \<Rightarrow> 'a) \<Rightarrow> GenericListState \<Rightarrow> bytes \<Rightarrow> 'a msg_list
   \<Rightarrow> nat \<times> GenericListState \<times> 'a msg_list \<times> rc_parse_result_t" where
  "parse_list_loop alloc sz unpack ls data l =
     (if sz = 0 \<or> length data < sz then (0, ls, l, kRCParseResNoData)
      else if \<not> alloc (length (entries l) + 1)
      then (if entries l \<noteq> []
            then (0, ls, l\<lparr>more_coming := True\<rparr>, kRCParseResPartialBlockParseOk)
            else (0, ls, l, kRCParseResNoData))
      else
        (let l' = l\<lparr>entries := entries l @ [unpack data]\<rparr>;
             ls' = ls\<lparr>gl_size_parsed := gl_size_parsed ls + sz\<rparr> in
         if gl_size_parsed ls' \<ge> full_list_size ls' then (sz, ls', l', kRCParseResFullBlockParseOk)
         else (case parse_list_loop alloc sz unpack ls' (drop sz data) l' of
                 (n, r) \<Rightarrow> (sz + n, r))))"
  by auto
termination
  by (relation "measure (\<lambda>(alloc, sz, unpack, ls, data, l). length data)") auto

declare parse_list_loop.simps [simp del]

definition unpack_uid :: "etcpal \<Rightarrow> bytes \<Rightarrow> RdmUid" where
  "unpack_uid E d = \<lparr>manu = unpack_u16b E d, dev_id = unpack_u32b E (drop 2 d)\<rparr>"

unbundle bit_operations_syntax

definition unpack_request :: "etcpal \<Rightarrow> bytes \<Rightarrow> BrokerDynamicUidRequest" where
  "unpack_request E d =
     \<lparr>req_manu_id = unpack_u16b E d AND 0x7fff, req_rid = take (ETCPAL_UUID_BYTES E) (drop 6 d)\<rparr>"

definition unpack_mapping :: "etcpal \<Rightarrow> bytes \<Rightarrow> RdmnetDynamicUidMapping" where
  "unpack_mapping E d =
     \<lparr>map_status_code = unpack_u16b E (drop (6 + ETCPAL_UUID_BYTES E) d), map_uid = unpack_uid E d,
       map_rid = take (ETCPAL_UUID_BYTES E) (drop 6 d)\<rparr>"

definition parse_request_dynamic_uid_assignment ::
  "etcpal \<Rightarrow> (nat \<Rightarrow> bool) \<Rightarrow> GenericListState \<Rightarrow> bytes \<Rightarrow> BrokerDynamicUidRequestList
   \<Rightarrow> nat \<times> GenericListState \<times> BrokerDynamicUidRequestList \<times> rc_parse_result_t" where
  "parse_request_dynamic_uid_assignment E alloc =
     parse_list_loop alloc DYNAMIC_UID_REQUEST_PAIR_SIZE (unpack_request E)"

definition parse_dynamic_uid_assignment_list ::
  "etcpal \<Rightarrow> (nat \<Rightarrow> bool) \<Rightarrow> GenericListState \<Rightarrow> bytes \<Rightarrow> RdmnetDynamicUidAssignmentList
   \<Rightarrow> nat \<times> GenericListState \<times> RdmnetDynamicUidAssignmentList \<times> rc_parse_result_t" where
  "parse_dynamic_uid_assignment_list E alloc =
     parse_list_loop alloc DYNAMIC_UID_MAPPING_SIZE (unpack_mapping E)"

definition parse_fetch_dynamic_uid_assignment_list ::
  "etcpal \<Rightarrow> (nat \<Rightarrow> bool) \<Rightarrow> GenericListState \<Rightarrow> bytes \<Rightarrow> BrokerFetchUidAssignmentList
   \<Rightarrow> nat \<times> GenericListState \<times> BrokerFetchUidAssignmentList \<times> rc_parse_result_t" where
  "parse_fetch_dynamic_uid_assignment_list E alloc = parse_list_loop alloc 6 (unpack_uid E)"

lemmas list_parser_defs = parse_request_dynamic_uid_assignment_def
  parse_dynamic_uid_assignment_list_def parse_fetch_dynamic_uid_assignment_list_def

section \<open>Progress through a block\<close>

definition block_ok :: "PduBlockState \<Rightarrow> bool" where
  "block_ok b \<longleftrightarrow> size_parsed b \<le> block_size b"

lemma block_ok_init [simp]: "block_ok (INIT_PDU_BLOCK_STATE n)"
  by (simp add: block_ok_def INIT_PDU_BLOCK_STATE_def)

lemma INIT_PDU_BLOCK_STATE_simps [simp, pdu_simps]:
  "block_size (INIT_PDU_BLOCK_STATE n) = n" "size_parsed (INIT_PDU_BLOCK_STATE n) = 0"
  "\<not> consuming_bad_block (INIT_PDU_BLOCK_STATE n)" "\<not> parsed_header (INIT_PDU_BLOCK_STATE n)"
  by (simp_all add: INIT_PDU_BLOCK_STATE_def)

lemma consume_bad_block_bound: "consume_bad_block b d = (n, b', r) \<Longrightarrow> n \<le> d"
  by (auto simp: consume_bad_block_def Let_def split: if_splits)

lemma consume_bad_block_block:
  assumes "consume_bad_block b d = (n, b', r)" and "block_ok b"
  shows "size_parsed b' = size_parsed b + n" and "block_size b' = block_size b" and "block_ok b'"
    and "n = min d (block_size b - size_parsed b)" and "parsed_header b' = parsed_header b"
    and "r = (if size_parsed b' = block_size b' then kRCParseResFullBlockProtErr else kRCParseResNoData)"
    and "size_parsed b' < block_size b' \<Longrightarrow> consuming_bad_block b'"
  using assms by (auto simp: consume_bad_block_def block_ok_def Let_def split: if_splits)

lemma check_for_full_parse_block:
  assumes "check_for_full_parse r b = (r', b')"
  shows "size_parsed b' = size_parsed b" and "block_size b' = block_size b"
    and "consuming_bad_block b' = consuming_bad_block b"
  using assms by (auto simp: check_for_full_parse_def split: rc_parse_result_t.splits if_splits)

text \<open>
  The tail of every block parser: the bytes of the layer above are added, once the two assertions on
  their number have held. If the layer above did not report a partial protocol error, one can only
  arise by finishing a PDU.
\<close>

lemma check_for_full_parse_progress:
  assumes "check_for_full_parse r b = (kRCParseResPartialBlockProtErr, b')"
    and "r \<noteq> kRCParseResPartialBlockProtErr"
  shows "\<not> parsed_header b'"
  using assms by (auto simp: check_for_full_parse_def split: rc_parse_result_t.splits if_splits)

lemma consume_bad_block_parsed:
  "consume_bad_block b d = (n, b', r) \<Longrightarrow> parsed_header b' = parsed_header b"
  by (auto simp: consume_bad_block_def Let_def split: if_splits)

lemma consume_bad_block_split:
  assumes "block_ok b" and "d1 < block_size b - size_parsed b"
  shows "consume_bad_block b (d1 + d2) =
    (case consume_bad_block b d1 of (n1, b1, _) \<Rightarrow>
     case consume_bad_block b1 d2 of (n2, b2, r) \<Rightarrow>
       (n1 + n2, b2\<lparr>consuming_bad_block := consuming_bad_block b \<or> size_parsed b2 < block_size b2\<rparr>, r))"
  using assms by (cases b) (auto simp: consume_bad_block_def block_ok_def Let_def)

section \<open>What the list loop does\<close>

lemma parse_list_loop_cases:
  assumes "parse_list_loop alloc sz unpack ls data l = (n, ls', l', r)"
  obtains (short) "sz = 0 \<or> length data < sz" "n = 0" "ls' = ls" "l' = l" "r = kRCParseResNoData"
  | (nomem) "0 < sz" "sz \<le> length data" "\<not> alloc (length (entries l) + 1)" "n = 0" "ls' = ls"
      "entries l' = entries l"
      "r = (if entries l = [] then kRCParseResNoData else kRCParseResPartialBlockParseOk)"
  | (last) "0 < sz" "sz \<le> length data" "full_list_size ls \<le> gl_size_parsed ls + sz" "n = sz"
      "ls' = ls\<lparr>gl_size_parsed := gl_size_parsed ls + sz\<rparr>"
      "l' = l\<lparr>entries := entries l @ [unpack data]\<rparr>" "r = kRCParseResFullBlockParseOk"
  | (more) k where "0 < sz" "sz \<le> length data" "gl_size_parsed ls + sz < full_list_size ls" "n = sz + k"
      "parse_list_loop alloc sz unpack (ls\<lparr>gl_size_parsed := gl_size_parsed ls + sz\<rparr>) (drop sz data)
         (l\<lparr>entries := entries l @ [unpack data]\<rparr>) = (k, ls', l', r)"
proof -
  note eq = assms [unfolded parse_list_loop.simps [of alloc sz unpack ls data l]]
  consider "sz = 0 \<or> length data < sz" | "0 < sz" "sz \<le> length data" "\<not> alloc (length (entries l) + 1)"
    | "0 < sz" "sz \<le> length data" "alloc (length (entries l) + 1)"
    by linarith
  then show thesis
  proof cases
    case 1
    with eq show thesis by (intro short) simp_all
  next
    case 2
    with eq show thesis by (intro nomem) (auto split: if_splits)
  next
    case 3
    with eq last more show thesis by (auto simp: Let_def split: if_splits prod.splits)
  qed
qed

text \<open>
  The loop consumes whole elements, no more than there are, and counts them; it consumes more than
  the list has left only if that is not a multiple of the element size.
\<close>

lemma parse_list_loop_consumed:
  assumes "parse_list_loop alloc sz unpack ls data l = (n, ls', l', r)"
  shows "n \<le> length data \<and> gl_size_parsed ls' = gl_size_parsed ls + n \<and>
    full_list_size ls' = full_list_size ls \<and> sz * length (entries l') = sz * length (entries l) + n"
  using assms
proof (induction data arbitrary: ls l n rule: length_induct)
  case (1 data)
  from "1.prems" show ?case
  proof (cases rule: parse_list_loop_cases)
    case (more k)
    then have "length (drop sz data) < length data" by simp
    from "1.IH" [rule_format, OF this more(5)] more(2,4) show ?thesis by (auto simp: algebra_simps)
  qed auto
qed

lemma parse_list_loop_within:
  assumes "parse_list_loop alloc sz unpack ls data l = (n, ls', l', r)"
    and "sz dvd full_list_size ls - gl_size_parsed ls" and "gl_size_parsed ls < full_list_size ls"
  shows "gl_size_parsed ls + n \<le> full_list_size ls \<and>
    (r = kRCParseResFullBlockParseOk \<longleftrightarrow> gl_size_parsed ls + n = full_list_size ls) \<and>
    r \<notin> {kRCParseResFullBlockProtErr, kRCParseResPartialBlockProtErr}"
  using assms
proof (induction data arbitrary: ls l n rule: length_induct)
  case (1 data)
  have le: "sz \<le> full_list_size ls - gl_size_parsed ls"
    using "1.prems"(2,3) by (intro dvd_imp_le) simp_all
  from "1.prems"(1) show ?case
  proof (cases rule: parse_list_loop_cases)
    case (more k)
    have "length (drop sz data) < length data" using more by simp
    moreover have "sz dvd full_list_size ls - (gl_size_parsed ls + sz)"
      using dvd_diff_nat [OF "1.prems"(2) dvd_refl] by simp
    ultimately show ?thesis
      using "1.IH" [rule_format, of "drop sz data", OF _ more(5)] more(3,4) by (simp add: add.assoc)
  qed (use "1.prems"(3) le in \<open>auto split: if_splits\<close>)
qed

section \<open>Encoded lists\<close>

text \<open>
  An element codec: elements are packed into \<open>sz\<close> bytes, unpacking reads them back and looks at
  nothing else. For such a codec the list loop reads a packed list back, however it is cut into
  pieces.
\<close>

locale element_codec =
  fixes valid :: "'a \<Rightarrow> bool" and pack :: "'a \<Rightarrow> bytes" and unpack :: "bytes \<Rightarrow> 'a" and sz :: nat
    and lib_ok :: bool
  assumes size_pos: "0 < sz"
    and pack_size: "lib_ok \<Longrightarrow> valid x \<Longrightarrow> length (pack x) = sz"
    and unpack_pack: "lib_ok \<Longrightarrow> valid x \<Longrightarrow> unpack (pack x @ r) = x"
    and unpack_local: "lib_ok \<Longrightarrow> sz \<le> length d \<Longrightarrow> unpack (d @ r) = unpack d"
begin

lemma list_size: "lib_ok \<Longrightarrow> list_all valid xs \<Longrightarrow> length (concat (map pack xs)) = sz * length xs"
  by (induction xs) (simp_all add: pack_size)

lemma list_roundtrip:
  assumes "lib_ok" and "xs \<noteq> []" and "list_all valid xs"
    and "\<And>n. n \<le> length (entries l) + length xs \<Longrightarrow> alloc n"
    and "full_list_size ls = gl_size_parsed ls + sz * length xs"
  shows "parse_list_loop alloc sz unpack ls (concat (map pack xs) @ rest) l =
    (sz * length xs, ls\<lparr>gl_size_parsed := full_list_size ls\<rparr>, l\<lparr>entries := entries l @ xs\<rparr>,
     kRCParseResFullBlockParseOk)"
  using assms
proof (induction xs arbitrary: ls l)
  case (Cons x xs)
  have x: "length (pack x) = sz" "unpack (pack x @ r) = x" for r
    using Cons.prems by (simp_all add: pack_size unpack_pack)
  show ?case
  proof (cases "xs = []")
    case True
    with Cons.prems x size_pos show ?thesis by (simp add: parse_list_loop.simps)
  next
    case False
    with Cons.prems Cons.IH [of "l\<lparr>entries := entries l @ [x]\<rparr>" "ls\<lparr>gl_size_parsed := gl_size_parsed ls + sz\<rparr>"]
    show ?thesis
      using x size_pos by (subst parse_list_loop.simps) (auto simp: Let_def)
  qed
qed simp

lemma list_streaming:
  assumes "lib_ok" and "\<And>n. alloc n"
    and "parse_list_loop alloc sz unpack ls d1 l = (n, ls1, l1, kRCParseResNoData)"
  shows "parse_list_loop alloc sz unpack ls (d1 @ d2) l =
    (case parse_list_loop alloc sz unpack ls1 (drop n d1 @ d2) l1 of (k, r) \<Rightarrow> (n + k, r))"
  using assms(3)
proof (induction d1 arbitrary: ls l n rule: length_induct)
  case (1 d1)
  from "1.prems" show ?case
  proof (cases rule: parse_list_loop_cases)
    case (more k)
    have IH: "parse_list_loop alloc sz unpack (ls\<lparr>gl_size_parsed := gl_size_parsed ls + sz\<rparr>) (drop sz d1 @ d2)
        (l\<lparr>entries := entries l @ [unpack d1]\<rparr>) =
      (case parse_list_loop alloc sz unpack ls1 (drop k (drop sz d1) @ d2) l1 of (j, r) \<Rightarrow> (k + j, r))"
      using "1.IH" [rule_format, OF _ more(5)] more(1,2) by simp
    with more assms(1,2) show ?thesis
      by (subst parse_list_loop.simps) (simp add: Let_def unpack_local add.commute split: prod.splits)
  qed (use assms(2) in simp_all)
qed

end

section \<open>The contract of a protocol layer\<close>

text \<open>
  What the root layer relies on when it calls the parser of the layer above for one PDU: the parser
  consumes no more than it was given, stays within its block and never counts less than it has
  consumed, so that the bytes it can still ask for do not exceed what the enclosing block has left.
  A partial protocol error has consumed something or finished a PDU: this is what makes the parse
  loop end.
\<close>

definition fits_in :: "PduBlockState \<Rightarrow> PduBlockState \<Rightarrow> bool" where
  "fits_in outer b \<longleftrightarrow> block_ok b \<and> size_parsed outer + (block_size b - size_parsed b) \<le> block_size outer"

lemma fits_in_block_ok: "fits_in outer b \<Longrightarrow> block_ok outer"
  by (simp add: fits_in_def block_ok_def)

lemma fits_in_init:
  "size_parsed outer + n \<le> block_size outer \<Longrightarrow> fits_in outer (INIT_PDU_BLOCK_STATE n)"
  by (simp add: fits_in_def)

locale layer_parser =
  fixes lblock :: "'s \<Rightarrow> PduBlockState"
    and parse :: "'s \<Rightarrow> bytes \<Rightarrow> 'm \<Rightarrow> (nat \<times> 's \<times> 'm \<times> rc_parse_result_t) option"
  assumes parse_block: "parse s data m = Some (n, s', m', r) \<Longrightarrow> block_ok (lblock s) \<Longrightarrow>
      n \<le> length data \<and> block_ok (lblock s') \<and> block_size (lblock s') = block_size (lblock s) \<and>
      size_parsed (lblock s) + n \<le> size_parsed (lblock s')"
    and parse_progress: "parse s data m = Some (n, s', m', kRCParseResPartialBlockProtErr) \<Longrightarrow>
      0 < n \<or> (parsed_header (lblock s) \<and> \<not> parsed_header (lblock s'))"
begin

lemma parse_fits:
  assumes "parse s data m = Some (n, s', m', r)" and "fits_in outer (lblock s)"
  shows "n \<le> length data" and "size_parsed outer + n \<le> block_size outer"
    and "fits_in (outer\<lparr>size_parsed := size_parsed outer + n\<rparr>) (lblock s')"
  using assms parse_block [OF assms(1)] by (auto simp: fits_in_def block_ok_def)

end

text \<open>
  Broker and RPT layer are built alike: a header, a body selected by the header, and the same
  bookkeeping around them. The laws of \<open>layer_parser\<close> follow from what the header parser does to the
  block and from the body leaving the block alone.
\<close>

definition header_result ::
  "PduBlockState \<Rightarrow> nat \<Rightarrow> nat \<Rightarrow> PduBlockState \<Rightarrow> rc_parse_result_t \<Rightarrow> bool" where
  "header_result b data_len n b' res \<longleftrightarrow>
     consume_bad_block b data_len = (n, b', res) \<or>
     (n = 0 \<and> b' = b \<and> res = kRCParseResNoData) \<or>
     (0 < n \<and> n \<le> data_len \<and> size_parsed b + n \<le> block_size b \<and> res = kRCParseResNoData \<and>
      b' = b\<lparr>size_parsed := size_parsed b + n, parsed_header := True\<rparr>)"

lemma header_result_block:
  assumes "header_result b d n b' res" and "block_ok b"
  shows "n \<le> d \<and> block_ok b' \<and> block_size b' = block_size b \<and> size_parsed b' = size_parsed b + n"
  using assms(1) unfolding header_result_def
proof (elim disjE)
  assume c: "consume_bad_block b d = (n, b', res)"
  with assms(2) show ?thesis
    using consume_bad_block_block [OF c assms(2)] consume_bad_block_bound [OF c] by simp
qed (use assms(2) in \<open>auto simp: block_ok_def\<close>)

lemma header_result_res:
  "header_result b d n b' res \<Longrightarrow> res \<noteq> kRCParseResPartialBlockProtErr"
  by (auto simp: header_result_def consume_bad_block_def Let_def split: if_splits)

lemma header_result_progress:
  "header_result b d n b' res \<Longrightarrow> parsed_header b' \<Longrightarrow> 0 < n \<or> parsed_header b"
  by (auto simp: header_result_def consume_bad_block_def Let_def split: if_splits)

locale pdu_layer =
  fixes lblock :: "'s \<Rightarrow> PduBlockState" and set_block :: "PduBlockState \<Rightarrow> 's \<Rightarrow> 's"
    and header :: "'s \<Rightarrow> bytes \<Rightarrow> 'm \<Rightarrow> nat \<times> 's \<times> 'm \<times> rc_parse_result_t"
    and body :: "'s \<Rightarrow> bytes \<Rightarrow> 'm \<Rightarrow> rc_parse_result_t \<Rightarrow> (nat \<times> 's \<times> 'm \<times> rc_parse_result_t) option"
    and parse :: "'s \<Rightarrow> bytes \<Rightarrow> 'm \<Rightarrow> (nat \<times> 's \<times> 'm \<times> rc_parse_result_t) option"
  assumes parse_eq: "parse s data m =
      (case header s data m of
         (n, s1, m1, res) \<Rightarrow>
           if parsed_header (lblock s1) then
             do {
               (k, s2, m2, res2) \<leftarrow> body s1 (drop n data) m1 res;
               let b = lblock s2;
               if \<not> (k \<le> length data - n \<and> size_parsed b + k \<le> block_size b)
               then Some (0, s2, m2, kRCParseResNoData)
               else (case check_for_full_parse res2 (b\<lparr>size_parsed := size_parsed b + k\<rparr>) of
                       (res3, b') \<Rightarrow> Some (n + k, set_block b' s2, m2, res3))
             }
           else Some (n, s1, m1, res))"
    and lblock_set: "lblock (set_block b s) = b"
    and header_ok: "header s data m = (n, s', m', res) \<Longrightarrow> header_result (lblock s) (length data) n (lblock s') res"
    and body_block: "body s data m res = Some (k, s', m', r) \<Longrightarrow> lblock s' = lblock s"
    and body_result: "body s data m res = Some (k, s', m', r) \<Longrightarrow> res \<noteq> kRCParseResPartialBlockProtErr \<Longrightarrow>
      r \<noteq> kRCParseResPartialBlockProtErr"
begin

lemma parse_cases:
  assumes "parse s data m = Some (n, s', m', r)"
  obtains (header_only) "header s data m = (n, s', m', r)" "\<not> parsed_header (lblock s')"
  | (failed) k s1 m1 res where "header s data m = (k, s1, m1, res)" "lblock s' = lblock s1" "n = 0"
      "r = kRCParseResNoData"
  | (body) k s1 m1 res j s2 res2 where "header s data m = (k, s1, m1, res)" "parsed_header (lblock s1)"
      "body s1 (drop k data) m1 res = Some (j, s2, m', res2)" "n = k + j" "j \<le> length data - k"
      "size_parsed (lblock s1) + j \<le> block_size (lblock s1)"
      "check_for_full_parse res2 ((lblock s1)\<lparr>size_parsed := size_parsed (lblock s1) + j\<rparr>) = (r, lblock s')"
proof -
  obtain k s1 m1 res where h: "header s data m = (k, s1, m1, res)" by (metis prod_cases4)
  show thesis
  proof (cases "parsed_header (lblock s1)")
    case False
    with assms h show thesis by (intro header_only) (auto simp: parse_eq)
  next
    case True
    with assms h obtain j s2 m2 res2 where d: "body s1 (drop k data) m1 res = Some (j, s2, m2, res2)"
      by (auto simp: parse_eq bind_eq_Some_conv)
    note b = body_block [OF d]
    show thesis
    proof (cases "j \<le> length data - k \<and> size_parsed (lblock s1) + j \<le> block_size (lblock s1)")
      case False
      with assms h d b True show thesis by (intro failed) (auto simp: parse_eq)
    next
      case ok: True
      obtain r3 b3 where c: "check_for_full_parse res2
          ((lblock s1)\<lparr>size_parsed := size_parsed (lblock s1) + j\<rparr>) = (r3, b3)"
        by (metis prod.exhaust)
      have "Some (k + j, set_block b3 s2, m2, r3) = Some (n, s', m', r)"
        using assms ok True by (simp add: parse_eq h d b c Let_def)
      with d c ok show thesis by (intro body [OF h True, of j s2 res2]) (auto simp: lblock_set)
    qed
  qed
qed

lemma layer_block:
  assumes "parse s data m = Some (n, s', m', r)" and ok: "block_ok (lblock s)"
  shows "n \<le> length data \<and> block_ok (lblock s') \<and> block_size (lblock s') = block_size (lblock s) \<and>
    size_parsed (lblock s) + n \<le> size_parsed (lblock s')"
  using assms(1)
proof (cases rule: parse_cases)
  case header_only
  with header_result_block [OF header_ok ok] show ?thesis by simp
next
  case (failed k s1 m1 res)
  with header_result_block [OF header_ok ok, of data m k s1 m1 res] show ?thesis by simp
next
  case (body k s1 m1 res j s2 res2)
  with header_result_block [OF header_ok [OF body(1)] ok] check_for_full_parse_block [OF body(7)]
  show ?thesis by (auto simp: block_ok_def)
qed

lemma layer_progress:
  assumes "parse s data m = Some (n, s', m', kRCParseResPartialBlockProtErr)"
  shows "0 < n \<or> (parsed_header (lblock s) \<and> \<not> parsed_header (lblock s'))"
  using assms
proof (cases rule: parse_cases)
  case (body k s1 m1 res j s2 res2)
  note h = header_ok [OF body(1)]
  have "\<not> parsed_header (lblock s')"
    using body(7) body_result [OF body(3) header_result_res [OF h]] by (rule check_for_full_parse_progress)
  with header_result_progress [OF h body(2)] body(4) show ?thesis by auto
qed (use header_ok header_result_res in blast)+

end

sublocale pdu_layer \<subseteq> layer_parser lblock parse
  by unfold_locales (rule layer_block, assumption+, rule layer_progress)

text \<open>The layer of a PDU with an unknown vector, whose data is thrown away.\<close>

definition parse_unknown ::
  "PduBlockState \<Rightarrow> bytes \<Rightarrow> unit \<Rightarrow> (nat \<times> PduBlockState \<times> unit \<times> rc_parse_result_t) option" where
  "parse_unknown b data u = (case consume_bad_block b (length data) of (n, b', r) \<Rightarrow> Some (n, b', u, r))"

interpretation unknown_layer: layer_parser "\<lambda>b. b" parse_unknown
proof
  fix b b' :: PduBlockState and data and m m' :: unit and n r
  assume "parse_unknown b data m = Some (n, b', m', r)"
  then have eq: "consume_bad_block b (length data) = (n, b', r)"
    by (auto simp: parse_unknown_def split: prod.splits)
  show "n \<le> length data \<and> block_ok b' \<and> block_size b' = block_size b \<and> size_parsed b + n \<le> size_parsed b'"
    if "block_ok b"
    using consume_bad_block_block [OF eq that] consume_bad_block_bound [OF eq] by simp
qed (auto simp: parse_unknown_def consume_bad_block_def Let_def split: prod.splits if_splits)

lemma consume_bad_block_result:
  "consume_bad_block b d = (n, b', r) \<Longrightarrow> r = kRCParseResNoData \<or> r = kRCParseResFullBlockProtErr"
  by (auto simp: consume_bad_block_def Let_def split: if_splits)

lemma parse_list_loop_result:
  assumes "parse_list_loop alloc sz unpack ls data l = (n, ls', l', r)"
  shows "r \<noteq> kRCParseResPartialBlockProtErr"
  using assms
proof (induction data arbitrary: ls l n rule: length_induct)
  case (1 data)
  from "1.prems" show ?case
  proof (cases rule: parse_list_loop_cases)
    case (more k)
    then show ?thesis using "1.IH" [rule_format, OF _ more(5)] by simp
  qed auto
qed

end
