(* ===== verification/Broker_Parse.thy ===== *)
theory Broker_Parse
  imports Pdu_Block
begin

text \<open>
  The broker protocol layer of \<^verbatim>\<open>src/rdmnet/core/msg_buf.c\<close>: client entries, client lists, the
  broker message bodies and \<^verbatim>\<open>parse_broker_block\<close>. A subtraction of sizes is written \<open>-\<close> where the
  surrounding code keeps it from wrapping and \<open>csub\<close> elsewhere. A result of type \<^typ>\<open>'a option\<close> is
  \<^const>\<open>None\<close> when the loop over a client list does not end.
\<close>

section \<open>Client entries\<close>

record ClientEntryState =
  enclosing_block_size :: nat
  parsed_entry_header :: bool
  ces_client_protocol :: u32
  entry_data :: PduBlockState

definition INIT_CLIENT_ENTRY_STATE :: "nat \<Rightarrow> ClientEntryState \<Rightarrow> ClientEntryState" where
  "INIT_CLIENT_ENTRY_STATE n cs =
     cs\<lparr>enclosing_block_size := n, parsed_entry_header := False, ces_client_protocol := kClientProtocolUnknown\<rparr>"

text \<open>The first half of \<^verbatim>\<open>parse_single_client_entry\<close>: the client entry header.\<close>

definition parse_client_entry_header ::
  "etcpal \<Rightarrow> ClientEntryState \<Rightarrow> bytes \<Rightarrow> ClientEntryUnion
   \<Rightarrow> nat \<times> ClientEntryState \<times> ClientEntryUnion \<times> rc_parse_result_t" where
  "parse_client_entry_header E cs data entry =
     (if ces_client_protocol cs = kClientProtocolUnknown \<and> length data \<ge> CLIENT_ENTRY_HEADER_SIZE then
        (let cli_entry_pdu_len = ACN_PDU_LENGTH E data;
             cs' = cs\<lparr>ces_client_protocol := unpack_u32b E (drop 3 data),
                     entry_data := INIT_PDU_BLOCK_STATE (csub cli_entry_pdu_len CLIENT_ENTRY_HEADER_SIZE)\<rparr>;
             cid = take (ETCPAL_UUID_BYTES E) (drop 7 data) in
         if cli_entry_pdu_len > enclosing_block_size cs' then
           (case consume_bad_block (entry_data cs') (length data - CLIENT_ENTRY_HEADER_SIZE) of
              (n, b, r) \<Rightarrow> (CLIENT_ENTRY_HEADER_SIZE + n, cs'\<lparr>entry_data := b\<rparr>, entry, r))
         else
           (CLIENT_ENTRY_HEADER_SIZE, cs',
            (if ces_client_protocol cs' = kClientProtocolRPT
             then entry\<lparr>entry_rpt := (entry_rpt entry)\<lparr>ce_cid := cid\<rparr>\<rparr>
             else entry\<lparr>entry_ept := (entry_ept entry)\<lparr>ept_cid := cid\<rparr>\<rparr>), kRCParseResNoData))
      else (0, cs, entry, kRCParseResNoData))"

definition unpack_rpt_entry_data :: "etcpal \<Rightarrow> bytes \<Rightarrow> RdmnetRptClientEntry \<Rightarrow> RdmnetRptClientEntry" where
  "unpack_rpt_entry_data E d entry =
     entry\<lparr>ce_uid := unpack_uid E d, ce_type := ucast (hd (drop 6 d)),
       ce_binding_cid := take (ETCPAL_UUID_BYTES E) (drop 7 d)\<rparr>"

text \<open>The second half: the data of the entry, once its protocol is known.\<close>

definition parse_client_entry_data ::
  "etcpal \<Rightarrow> ClientEntryState \<Rightarrow> bytes \<Rightarrow> ClientEntryUnion \<Rightarrow> rc_parse_result_t
   \<Rightarrow> nat \<times> ClientEntryState \<times> ClientEntryUnion \<times> rc_parse_result_t" where
  "parse_client_entry_data E cs data entry res =
     (let b = entry_data cs in
      if \<not> consuming_bad_block b \<and> ces_client_protocol cs = kClientProtocolRPT \<and>
         size_parsed b + RPT_CLIENT_ENTRY_DATA_SIZE = block_size b
      then
        (if length data \<ge> RPT_CLIENT_ENTRY_DATA_SIZE
         then (RPT_CLIENT_ENTRY_DATA_SIZE,
               cs\<lparr>entry_data := b\<lparr>size_parsed := size_parsed b + RPT_CLIENT_ENTRY_DATA_SIZE\<rparr>\<rparr>,
               entry\<lparr>entry_rpt := unpack_rpt_entry_data E data (entry_rpt entry)\<rparr>,
               kRCParseResFullBlockParseOk)
         else (0, cs, entry, res))
      else (case consume_bad_block b (length data) of
              (n, b', r) \<Rightarrow> (n, cs\<lparr>entry_data := b'\<rparr>, entry, r)))"

definition parse_single_client_entry ::
  "etcpal \<Rightarrow> ClientEntryState \<Rightarrow> bytes \<Rightarrow> u32 \<Rightarrow> ClientEntryUnion
   \<Rightarrow> nat \<times> ClientEntryState \<times> u32 \<times> ClientEntryUnion \<times> rc_parse_result_t" where
  "parse_single_client_entry E cs data client_protocol entry =
     (case parse_client_entry_header E cs data entry of
        (n, cs', entry', res) \<Rightarrow>
          if ces_client_protocol cs' \<noteq> kClientProtocolUnknown then
            (case parse_client_entry_data E cs' (drop n data) entry' res of
               (k, cs'', entry'', res') \<Rightarrow> (n + k, cs'', ces_client_protocol cs', entry'', res'))
          else (n, cs', client_protocol, entry', res))"

section \<open>Client connect and client entry update\<close>

record ClientConnectState =
  pdu_data_size :: nat
  common_data_parsed :: bool
  cc_entry :: ClientEntryState

definition INIT_CLIENT_CONNECT_STATE :: "nat \<Rightarrow> ClientConnectState \<Rightarrow> ClientConnectState" where
  "INIT_CLIENT_CONNECT_STATE n s = s\<lparr>pdu_data_size := n, common_data_parsed := False\<rparr>"

definition parse_client_connect_header ::
  "etcpal \<Rightarrow> bytes \<Rightarrow> BrokerClientConnectMsg \<Rightarrow> BrokerClientConnectMsg" where
  "parse_client_connect_header E data ccmsg =
     ccmsg\<lparr>cc_scope := rdmnet_safe_strncpy data E133_SCOPE_STRING_PADDED_LENGTH,
       cc_e133_version := unpack_u16b E (drop E133_SCOPE_STRING_PADDED_LENGTH data),
       cc_search_domain :=
         rdmnet_safe_strncpy (drop (E133_SCOPE_STRING_PADDED_LENGTH + 2) data) E133_DOMAIN_STRING_PADDED_LENGTH,
       cc_connect_flags :=
         hd (drop (E133_SCOPE_STRING_PADDED_LENGTH + 2 + E133_DOMAIN_STRING_PADDED_LENGTH) data)\<rparr>"

text \<open>
  \<^verbatim>\<open>parse_client_connect\<close> and \<^verbatim>\<open>parse_client_entry_update\<close> first wait for their fixed fields and then
  parse one client entry; they share the code below, \<open>common\<close> being the size of those fields.
\<close>

definition parse_entry_after_common ::
  "etcpal \<Rightarrow> nat \<Rightarrow> ClientConnectState \<Rightarrow> bytes \<Rightarrow> ClientEntry \<Rightarrow> rc_parse_result_t
   \<Rightarrow> nat \<times> ClientConnectState \<times> ClientEntry \<times> rc_parse_result_t" where
  "parse_entry_after_common E n s data ce result =
     (case parse_single_client_entry E (cc_entry s) (drop n data) (ce_client_protocol ce) (ce_data ce) of
        (k, es, cp, entry, res) \<Rightarrow>
          if k \<le> length data - n
          then (n + k, s\<lparr>cc_entry := es\<rparr>, \<lparr>ce_client_protocol = cp, ce_data = entry\<rparr>, res)
          else (0, s\<lparr>cc_entry := es\<rparr>, \<lparr>ce_client_protocol = cp, ce_data = entry\<rparr>, result))"

definition parse_client_connect ::
  "etcpal \<Rightarrow> ClientConnectState \<Rightarrow> bytes \<Rightarrow> BrokerClientConnectMsg \<Rightarrow> rc_parse_result_t
   \<Rightarrow> nat \<times> ClientConnectState \<times> BrokerClientConnectMsg \<times> rc_parse_result_t" where
  "parse_client_connect E s data ccmsg result =
     (if \<not> common_data_parsed s \<and> length data < CLIENT_CONNECT_COMMON_FIELD_SIZE
      then (0, s, ccmsg, kRCParseResNoData)
      else
        (let (n, s', ccmsg') =
           (if common_data_parsed s then (0, s, ccmsg)
            else (CLIENT_CONNECT_COMMON_FIELD_SIZE,
                  s\<lparr>common_data_parsed := True,
                    cc_entry := INIT_CLIENT_ENTRY_STATE
                      (csub (pdu_data_size s) CLIENT_CONNECT_COMMON_FIELD_SIZE) (cc_entry s)\<rparr>,
                  parse_client_connect_header E data ccmsg))
         in case parse_entry_after_common E n s' data (cc_client_entry ccmsg') result of
              (k, s'', ce, res) \<Rightarrow> (k, s'', ccmsg'\<lparr>cc_client_entry := ce\<rparr>, res)))"

type_synonym ClientEntryUpdateState = ClientConnectState

definition parse_client_entry_update ::
  "etcpal \<Rightarrow> ClientEntryUpdateState \<Rightarrow> bytes \<Rightarrow> BrokerClientEntryUpdateMsg \<Rightarrow> rc_parse_result_t
   \<Rightarrow> nat \<times> ClientEntryUpdateState \<times> BrokerClientEntryUpdateMsg \<times> rc_parse_result_t" where
  "parse_client_entry_update E s data ceumsg result =
     (if \<not> common_data_parsed s \<and> length data < CLIENT_ENTRY_UPDATE_COMMON_FIELD_SIZE
      then (0, s, ceumsg, kRCParseResNoData)
      else
        (let (n, s', ceumsg') =
           (if common_data_parsed s then (0, s, ceumsg)
            else (CLIENT_ENTRY_UPDATE_COMMON_FIELD_SIZE,
                  s\<lparr>common_data_parsed := True,
                    cc_entry := INIT_CLIENT_ENTRY_STATE
                      (csub (pdu_data_size s) CLIENT_ENTRY_UPDATE_COMMON_FIELD_SIZE) (cc_entry s)\<rparr>,
                  ceumsg\<lparr>ceu_connect_flags := hd data\<rparr>))
         in case parse_entry_after_common E n s' data (ceu_client_entry ceumsg') result of
              (k, s'', ce, res) \<Rightarrow> (k, s'', ceumsg'\<lparr>ceu_client_entry := ce\<rparr>, res)))"

section \<open>Client lists\<close>

record ClientListState =
  cl_block :: PduBlockState
  cl_entry :: ClientEntryState

definition INIT_CLIENT_LIST_STATE :: "nat \<Rightarrow> ClientListState \<Rightarrow> ClientListState" where
  "INIT_CLIENT_LIST_STATE n s = s\<lparr>cl_block := INIT_PDU_BLOCK_STATE n\<rparr>"

text \<open>The contents of a newly allocated entry; every field is written before the entry is complete.\<close>

definition blank_entry :: RdmnetRptClientEntry where
  "blank_entry = \<lparr>ce_cid = [], ce_uid = \<lparr>manu = 0, dev_id = 0\<rparr>, ce_type = 0, ce_binding_cid = []\<rparr>"

text \<open>
  One iteration of the loop of \<^verbatim>\<open>parse_rpt_client_list\<close>, while bytes of the list remain: \<open>Inl\<close> to go
  on, \<open>Inr\<close> to leave the loop. The loop variables are the state, the list built so far, the number
  of bytes parsed and \<^verbatim>\<open>res\<close>. The last component of a final value is \<^const>\<open>None\<close> where the function
  returns 0 after a failed assertion, without writing \<^verbatim>\<open>*result\<close>.
\<close>

type_synonym list_loop_state = "ClientListState \<times> RdmnetRptClientList \<times> nat \<times> rc_parse_result_t"
type_synonym list_loop_result = "nat \<times> ClientListState \<times> RdmnetRptClientList \<times> rc_parse_result_t option"

definition client_list_entry ::
  "etcpal \<Rightarrow> bytes \<Rightarrow> ClientListState \<Rightarrow> RdmnetRptClientList \<Rightarrow> nat \<Rightarrow> list_loop_state + list_loop_result" where
  "client_list_entry E data cls clist bytes_parsed =
     (let remaining_len = length data - bytes_parsed;
          next_entry = \<lparr>entry_rpt = last (entries clist),
            entry_ept = \<lparr>ept_cid = ce_cid (last (entries clist)), ept_protocols = []\<rparr>\<rparr> in
      case parse_single_client_entry E (cl_entry cls) (drop bytes_parsed data) kClientProtocolUnknown next_entry of
        (k, es, _, entry, res) \<Rightarrow>
          (let cls' = cls\<lparr>cl_entry := es\<rparr>;
               clist' = clist\<lparr>entries := butlast (entries clist) @ [entry_rpt entry]\<rparr>;
               b = cl_block cls' in
           if \<not> (k \<le> remaining_len \<and> size_parsed b + k \<le> block_size b) then Inr (0, cls', clist', None)
           else
             (let n = bytes_parsed + k; b' = b\<lparr>size_parsed := size_parsed b + k\<rparr> in
              if res = kRCParseResFullBlockParseOk then
                Inl (cls'\<lparr>cl_block := b'\<lparr>parsed_header := False\<rparr>\<rparr>, clist', n,
                     if size_parsed b' \<noteq> block_size b' then kRCParseResNoData else res)
              else if res = kRCParseResFullBlockProtErr then
                (case consume_bad_block (b'\<lparr>parsed_header := False\<rparr>) (remaining_len - k) of
                   (j, b'', r) \<Rightarrow> Inr (n + j, cls'\<lparr>cl_block := b''\<rparr>, clist', Some r))
              else Inr (n, cls'\<lparr>cl_block := b'\<rparr>, clist', Some res))))"

definition client_list_step ::
  "etcpal \<Rightarrow> (nat \<Rightarrow> bool) \<Rightarrow> bytes \<Rightarrow> list_loop_state \<Rightarrow> list_loop_state + list_loop_result" where
  "client_list_step E alloc data = (\<lambda>(cls, clist, bytes_parsed, res).
     (let cur = drop bytes_parsed data; b = cl_block cls in
      if \<not> parsed_header b then
        (if length data - bytes_parsed \<ge> CLIENT_ENTRY_HEADER_SIZE then
           (if unpack_u32b E (drop 3 cur) \<noteq> kClientProtocolRPT then
              (case consume_bad_block b (length data) of
                 (k, b', r) \<Rightarrow> Inr (bytes_parsed + k, cls\<lparr>cl_block := b'\<rparr>, clist, Some r))
            else if alloc (length (entries clist) + 1) then
              client_list_entry E data
                (cls\<lparr>cl_block := b\<lparr>parsed_header := True\<rparr>,
                     cl_entry := INIT_CLIENT_ENTRY_STATE (block_size b) (cl_entry cls)\<rparr>)
                (clist\<lparr>entries := entries clist @ [blank_entry]\<rparr>) bytes_parsed
            else Inl (cls, clist\<lparr>more_coming := True\<rparr>, bytes_parsed, kRCParseResPartialBlockParseOk))
         else Inr (bytes_parsed, cls, clist, Some res))
      else if entries clist = [] then Inr (0, cls, clist, None)
      else client_list_entry E data cls clist bytes_parsed))"

partial_function (option) client_list_loop ::
  "etcpal \<Rightarrow> (nat \<Rightarrow> bool) \<Rightarrow> bytes \<Rightarrow> list_loop_state \<Rightarrow> list_loop_result option" where
  "client_list_loop E alloc data s =
     (if size_parsed (cl_block (fst s)) < block_size (cl_block (fst s)) then
        (case client_list_step E alloc data s of
           Inl s' \<Rightarrow> client_list_loop E alloc data s'
         | Inr r \<Rightarrow> Some r)
      else (case s of (cls, clist, n, res) \<Rightarrow> Some (n, cls, clist, Some res)))"

definition parse_rpt_client_list ::
  "etcpal \<Rightarrow> (nat \<Rightarrow> bool) \<Rightarrow> ClientListState \<Rightarrow> bytes \<Rightarrow> RdmnetRptClientList \<Rightarrow> rc_parse_result_t
   \<Rightarrow> (nat \<times> ClientListState \<times> RdmnetRptClientList \<times> rc_parse_result_t) option" where
  "parse_rpt_client_list E alloc cls data clist result =
     do {
       (n, cls', clist', r) \<leftarrow> client_list_loop E alloc data (cls, clist, 0, kRCParseResNoData);
       Some (n, cls', clist', case r of None \<Rightarrow> result | Some res \<Rightarrow> res)
     }"

definition parse_client_list ::
  "etcpal \<Rightarrow> (nat \<Rightarrow> bool) \<Rightarrow> ClientListState \<Rightarrow> bytes \<Rightarrow> BrokerClientList
   \<Rightarrow> (nat \<times> ClientListState \<times> BrokerClientList \<times> rc_parse_result_t) option" where
  "parse_client_list E alloc cls data clist =
     (if consuming_bad_block (cl_block cls) then
        (case consume_bad_block (cl_block cls) (length data) of
           (n, b, r) \<Rightarrow> Some (n, cls\<lparr>cl_block := b\<rparr>, clist, r))
      else
        (let clist' =
           (if cl_client_protocol clist = kClientProtocolUnknown \<and> length data \<ge> CLIENT_ENTRY_HEADER_SIZE
            then clist\<lparr>cl_client_protocol := unpack_u32b E (drop 3 data)\<rparr> else clist) in
         if cl_client_protocol clist' = kClientProtocolRPT then
           do {
             (n, cls', rcl, r) \<leftarrow> parse_rpt_client_list E alloc cls data (cl_rpt clist') kRCParseResNoData;
             Some (n, cls', clist'\<lparr>cl_rpt := rcl\<rparr>, r)
           }
         else if cl_client_protocol clist' \<noteq> kClientProtocolUnknown then
           (case consume_bad_block (cl_block cls) (length data) of
              (n, b, r) \<Rightarrow> Some (n, cls\<lparr>cl_block := b\<rparr>, clist', r))
         else Some (0, cls, clist', kRCParseResNoData)))"

section \<open>Broker PDUs\<close>

record BrokerState =
  bs_block :: PduBlockState
  bs_data_list :: GenericListState
  bs_client_list :: ClientListState
  bs_client_connect :: ClientConnectState
  bs_update :: ClientEntryUpdateState
  bs_unknown :: PduBlockState

definition INIT_BROKER_STATE :: "nat \<Rightarrow> BrokerState \<Rightarrow> BrokerState" where
  "INIT_BROKER_STATE n bs = bs\<lparr>bs_block := INIT_PDU_BLOCK_STATE n\<rparr>"

definition empty_list :: "'a msg_list" where
  "empty_list = \<lparr>entries = [], more_coming = False\<rparr>"

abbreviation is_client_list_vector :: "u16 \<Rightarrow> bool" where
  "is_client_list_vector v \<equiv> v = VECTOR_BROKER_CONNECTED_CLIENT_LIST \<or> v = VECTOR_BROKER_CLIENT_ADD \<or>
     v = VECTOR_BROKER_CLIENT_REMOVE \<or> v = VECTOR_BROKER_CLIENT_ENTRY_CHANGE"

definition initialize_broker_message ::
  "BrokerState \<Rightarrow> BrokerMessage \<Rightarrow> nat \<Rightarrow> BrokerState \<times> BrokerMessage" where
  "initialize_broker_message bs bmsg len =
     (let v = bm_vector bmsg;
          bad_length = (bs\<lparr>bs_unknown := INIT_PDU_BLOCK_STATE len\<rparr>, bmsg\<lparr>bm_vector := 0xffff\<rparr>) in
      if v = VECTOR_BROKER_CONNECT then
        (if len \<ge> CLIENT_CONNECT_DATA_MIN_SIZE
         then (bs\<lparr>bs_client_connect := INIT_CLIENT_CONNECT_STATE len (bs_client_connect bs)\<rparr>, bmsg)
         else bad_length)
      else if v = VECTOR_BROKER_CONNECT_REPLY then
        (if len \<noteq> BROKER_CONNECT_REPLY_DATA_SIZE then bad_length else (bs, bmsg))
      else if v = VECTOR_BROKER_CLIENT_ENTRY_UPDATE then
        (if len \<ge> CLIENT_ENTRY_UPDATE_DATA_MIN_SIZE
         then (bs\<lparr>bs_update := INIT_CLIENT_CONNECT_STATE len (bs_update bs)\<rparr>, bmsg)
         else bad_length)
      else if v = VECTOR_BROKER_REDIRECT_V4 then
        (if len \<noteq> REDIRECT_V4_DATA_SIZE then bad_length else (bs, bmsg))
      else if v = VECTOR_BROKER_REDIRECT_V6 then
        (if len \<noteq> REDIRECT_V6_DATA_SIZE then bad_length else (bs, bmsg))
      else if is_client_list_vector v then
        (bs\<lparr>bs_client_list := INIT_CLIENT_LIST_STATE len (bs_client_list bs)\<rparr>,
         bmsg\<lparr>client_list := \<lparr>cl_client_protocol = kClientProtocolUnknown, cl_rpt = empty_list\<rparr>\<rparr>)
      else if v = VECTOR_BROKER_REQUEST_DYNAMIC_UIDS then
        (if len > 0 \<and> len mod DYNAMIC_UID_REQUEST_PAIR_SIZE = 0
         then (bs\<lparr>bs_data_list := INIT_GENERIC_LIST_STATE len\<rparr>, bmsg\<lparr>dynamic_uid_request_list := empty_list\<rparr>)
         else bad_length)
      else if v = VECTOR_BROKER_ASSIGNED_DYNAMIC_UIDS then
        (if len > 0 \<and> len mod DYNAMIC_UID_MAPPING_SIZE = 0
         then (bs\<lparr>bs_data_list := INIT_GENERIC_LIST_STATE len\<rparr>, bmsg\<lparr>dynamic_uid_assignment_list := empty_list\<rparr>)
         else bad_length)
      else if v = VECTOR_BROKER_FETCH_DYNAMIC_UID_LIST then
        (if len > 0 \<and> len mod 6 = 0
         then (bs\<lparr>bs_data_list := INIT_GENERIC_LIST_STATE len\<rparr>, bmsg\<lparr>fetch_uid_assignment_list := empty_list\<rparr>)
         else bad_length)
      else if v = VECTOR_BROKER_NULL \<or> v = VECTOR_BROKER_FETCH_CLIENT_LIST then
        (if len \<noteq> 0 then bad_length else (bs, bmsg))
      else if v = VECTOR_BROKER_DISCONNECT then
        (if len \<noteq> DISCONNECT_DATA_SIZE then bad_length else (bs, bmsg))
      else (bs\<lparr>bs_unknown := INIT_PDU_BLOCK_STATE len\<rparr>, bmsg))"

text \<open>The first part of \<^verbatim>\<open>parse_broker_block\<close>: a bad block or a PDU header.\<close>

definition parse_broker_header ::
  "etcpal \<Rightarrow> BrokerState \<Rightarrow> bytes \<Rightarrow> BrokerMessage \<Rightarrow> nat \<times> BrokerState \<times> BrokerMessage \<times> rc_parse_result_t" where
  "parse_broker_header E bs data bmsg =
     (let b = bs_block bs; pdu_len = ACN_PDU_LENGTH E data;
          bad = (case consume_bad_block b (length data) of (n, b', r) \<Rightarrow> (n, bs\<lparr>bs_block := b'\<rparr>, bmsg, r)) in
      if consuming_bad_block b then bad
      else if parsed_header b then (0, bs, bmsg, kRCParseResNoData)
      else if csub (block_size b) (size_parsed b) < BROKER_PDU_HEADER_SIZE then bad
      else if length data < BROKER_PDU_HEADER_SIZE then (0, bs, bmsg, kRCParseResNoData)
      else if pdu_len \<ge> BROKER_PDU_HEADER_SIZE \<and> size_parsed b + pdu_len \<le> block_size b then
        (case initialize_broker_message
                (bs\<lparr>bs_block := b\<lparr>size_parsed := size_parsed b + BROKER_PDU_HEADER_SIZE, parsed_header := True\<rparr>\<rparr>)
                (bmsg\<lparr>bm_vector := unpack_u16b E (drop 3 data)\<rparr>)
                (pdu_len - BROKER_PDU_HEADER_SIZE) of
           (bs', bmsg') \<Rightarrow> (BROKER_PDU_HEADER_SIZE, bs', bmsg', kRCParseResNoData))
      else bad)"

definition unpack_connect_reply :: "etcpal \<Rightarrow> bytes \<Rightarrow> BrokerConnectReplyMsg" where
  "unpack_connect_reply E d =
     \<lparr>cr_connect_status = unpack_u16b E d, cr_e133_version = unpack_u16b E (drop 2 d),
       cr_broker_uid = unpack_uid E (drop 4 d), cr_client_uid = unpack_uid E (drop 10 d)\<rparr>"

definition unpack_redirect_v4 :: "etcpal \<Rightarrow> bytes \<Rightarrow> BrokerClientRedirectMsg" where
  "unpack_redirect_v4 E d = \<lparr>redirect_ip = IpV4 (unpack_u32b E d), redirect_port = unpack_u16b E (drop 4 d)\<rparr>"

definition unpack_redirect_v6 :: "etcpal \<Rightarrow> bytes \<Rightarrow> BrokerClientRedirectMsg" where
  "unpack_redirect_v6 E d = \<lparr>redirect_ip = IpV6 (take 16 d), redirect_port = unpack_u16b E (drop 16 d)\<rparr>"

text \<open>
  The second part: the message body, selected by the vector. The last component is the new value of
  \<^verbatim>\<open>res\<close>.
\<close>

definition parse_broker_data ::
  "etcpal \<Rightarrow> (nat \<Rightarrow> bool) \<Rightarrow> BrokerState \<Rightarrow> bytes \<Rightarrow> BrokerMessage \<Rightarrow> rc_parse_result_t
   \<Rightarrow> (nat \<times> BrokerState \<times> BrokerMessage \<times> rc_parse_result_t) option" where
  "parse_broker_data E alloc bs data bmsg res =
     (let v = bm_vector bmsg in
      if v = VECTOR_BROKER_CONNECT then
        (case parse_client_connect E (bs_client_connect bs) data (client_connect bmsg) res of
           (n, s, m, r) \<Rightarrow> Some (n, bs\<lparr>bs_client_connect := s\<rparr>, bmsg\<lparr>client_connect := m\<rparr>, r))
      else if v = VECTOR_BROKER_CONNECT_REPLY then
        Some (if length data \<ge> BROKER_CONNECT_REPLY_DATA_SIZE
              then (BROKER_CONNECT_REPLY_DATA_SIZE, bs, bmsg\<lparr>connect_reply := unpack_connect_reply E data\<rparr>,
                    kRCParseResFullBlockParseOk)
              else (0, bs, bmsg, res))
      else if v = VECTOR_BROKER_CLIENT_ENTRY_UPDATE then
        (case parse_client_entry_update E (bs_update bs) data (client_entry_update bmsg) res of
           (n, s, m, r) \<Rightarrow> Some (n, bs\<lparr>bs_update := s\<rparr>, bmsg\<lparr>client_entry_update := m\<rparr>, r))
      else if v = VECTOR_BROKER_REDIRECT_V4 then
        Some (if length data \<ge> REDIRECT_V4_DATA_SIZE
              then (REDIRECT_V4_DATA_SIZE, bs, bmsg\<lparr>client_redirect := unpack_redirect_v4 E data\<rparr>,
                    kRCParseResFullBlockParseOk)
              else (0, bs, bmsg, res))
      else if v = VECTOR_BROKER_REDIRECT_V6 then
        Some (if length data \<ge> REDIRECT_V6_DATA_SIZE
              then (REDIRECT_V6_DATA_SIZE, bs, bmsg\<lparr>client_redirect := unpack_redirect_v6 E data\<rparr>,
                    kRCParseResFullBlockParseOk)
              else (0, bs, bmsg, res))
      else if is_client_list_vector v then
        do {
          (n, s, m, r) \<leftarrow> parse_client_list E alloc (bs_client_list bs) data (client_list bmsg);
          Some (n, bs\<lparr>bs_client_list := s\<rparr>, bmsg\<lparr>client_list := m\<rparr>, r)
        }
      else if v = VECTOR_BROKER_REQUEST_DYNAMIC_UIDS then
        (case parse_request_dynamic_uid_assignment E alloc (bs_data_list bs) data (dynamic_uid_request_list bmsg) of
           (n, s, m, r) \<Rightarrow> Some (n, bs\<lparr>bs_data_list := s\<rparr>, bmsg\<lparr>dynamic_uid_request_list := m\<rparr>, r))
      else if v = VECTOR_BROKER_ASSIGNED_DYNAMIC_UIDS then
        (case parse_dynamic_uid_assignment_list E alloc (bs_data_list bs) data (dynamic_uid_assignment_list bmsg) of
           (n, s, m, r) \<Rightarrow> Some (n, bs\<lparr>bs_data_list := s\<rparr>, bmsg\<lparr>dynamic_uid_assignment_list := m\<rparr>, r))
      else if v = VECTOR_BROKER_FETCH_DYNAMIC_UID_LIST then
        (case parse_fetch_dynamic_uid_assignment_list E alloc (bs_data_list bs) data (fetch_uid_assignment_list bmsg) of
           (n, s, m, r) \<Rightarrow> Some (n, bs\<lparr>bs_data_list := s\<rparr>, bmsg\<lparr>fetch_uid_assignment_list := m\<rparr>, r))
      else if v = VECTOR_BROKER_NULL \<or> v = VECTOR_BROKER_FETCH_CLIENT_LIST then
        Some (0, bs, bmsg, kRCParseResFullBlockParseOk)
      else if v = VECTOR_BROKER_DISCONNECT then
        Some (if length data \<ge> DISCONNECT_DATA_SIZE
              then (DISCONNECT_DATA_SIZE, bs, bmsg\<lparr>disconnect_reason := unpack_u16b E data\<rparr>,
                    kRCParseResFullBlockParseOk)
              else (0, bs, bmsg, res))
      else
        (case consume_bad_block (bs_unknown bs) (length data) of
           (n, b, r) \<Rightarrow> Some (n, bs\<lparr>bs_unknown := b\<rparr>, bmsg, r)))"

definition parse_broker_block ::
  "etcpal \<Rightarrow> (nat \<Rightarrow> bool) \<Rightarrow> BrokerState \<Rightarrow> bytes \<Rightarrow> BrokerMessage \<Rightarrow> rc_parse_result_t
   \<Rightarrow> (nat \<times> BrokerState \<times> BrokerMessage \<times> rc_parse_result_t) option" where
  "parse_broker_block E alloc bs data bmsg result =
     (case parse_broker_header E bs data bmsg of
        (n, bs1, bmsg1, res) \<Rightarrow>
          if parsed_header (bs_block bs1) then
            do {
              (k, bs2, bmsg2, res2) \<leftarrow> parse_broker_data E alloc bs1 (drop n data) bmsg1 res;
              let b = bs_block bs2;
              if \<not> (k \<le> length data - n \<and> size_parsed b + k \<le> block_size b)
              then Some (0, bs2, bmsg2, result)
              else (case check_for_full_parse res2 (b\<lparr>size_parsed := size_parsed b + k\<rparr>) of
                      (res3, b') \<Rightarrow> Some (n + k, bs2\<lparr>bs_block := b'\<rparr>, bmsg2, res3))
            }
          else Some (n, bs1, bmsg1, res))"

section \<open>Bounds on what is consumed\<close>

lemma initialize_broker_message_block:
  "initialize_broker_message bs bmsg len = (bs', bmsg') \<Longrightarrow> bs_block bs' = bs_block bs"
  by (auto simp: initialize_broker_message_def Let_def split: if_splits)

lemma parse_broker_data_block:
  assumes "parse_broker_data E alloc bs data bmsg res = Some (n, bs', bmsg', r)"
  shows "bs_block bs' = bs_block bs"
  using assms by (auto simp: parse_broker_data_def Let_def bind_eq_Some_conv split: if_splits prod.splits)

lemma parse_broker_header_result:
  assumes "parse_broker_header E bs data bmsg = (n, bs', bmsg', res)"
  shows "header_result (bs_block bs) (length data) n (bs_block bs') res"
proof -
  let ?b = "bs_block bs" and ?len = "ACN_PDU_LENGTH E data"
  let ?bs = "bs\<lparr>bs_block := ?b\<lparr>size_parsed := size_parsed ?b + BROKER_PDU_HEADER_SIZE, parsed_header := True\<rparr>\<rparr>"
  obtain k b r where c: "consume_bad_block ?b (length data) = (k, b, r)" by (metis prod_cases3)
  obtain bs2 bmsg2 where i: "initialize_broker_message ?bs (bmsg\<lparr>bm_vector := unpack_u16b E (drop 3 data)\<rparr>)
      (?len - BROKER_PDU_HEADER_SIZE) = (bs2, bmsg2)"
    by (metis prod.exhaust)
  show ?thesis
    using assms initialize_broker_message_block [OF i]
    unfolding parse_broker_header_def Let_def c i prod.case header_result_def
    by (elim if_eqE) auto
qed

lemma parse_single_client_entry_result:
  assumes "parse_single_client_entry E cs data cp entry = (n, cs', cp', entry', r)"
  shows "r \<noteq> kRCParseResPartialBlockProtErr" and "n \<le> length data"
proof -
  obtain k cs1 e1 r1 where h: "parse_client_entry_header E cs data entry = (k, cs1, e1, r1)"
    by (metis prod_cases4)
  obtain j cs2 e2 r2 where d: "parse_client_entry_data E cs1 (drop k data) e1 r1 = (j, cs2, e2, r2)"
    by (metis prod_cases4)
  have 1: "r1 \<noteq> kRCParseResPartialBlockProtErr \<and> k \<le> length data"
    using h by (fastforce simp: parse_client_entry_header_def Let_def
        dest: consume_bad_block_result consume_bad_block_bound split: if_splits prod.splits)
  moreover have "r2 \<noteq> kRCParseResPartialBlockProtErr \<and> j \<le> length data - k"
    using d 1 by (fastforce simp: parse_client_entry_data_def Let_def
        dest: consume_bad_block_result consume_bad_block_bound split: if_splits prod.splits)
  ultimately show "r \<noteq> kRCParseResPartialBlockProtErr" "n \<le> length data"
    using assms d by (auto simp: parse_single_client_entry_def h split: if_splits)
qed

lemma parse_entry_after_common_result:
  assumes "parse_entry_after_common E n s data ce result = (k, s', ce', r)"
    and "result \<noteq> kRCParseResPartialBlockProtErr"
  shows "r \<noteq> kRCParseResPartialBlockProtErr"
  using assms
  by (auto simp: parse_entry_after_common_def dest: parse_single_client_entry_result split: if_splits prod.splits)

lemma client_list_entry_result:
  assumes "client_list_entry E data cls clist k = Inr (n, cls', clist', Some r)"
  shows "r \<noteq> kRCParseResPartialBlockProtErr"
proof -
  obtain j es cp e r1 where p: "parse_single_client_entry E (cl_entry cls) (drop k data) kClientProtocolUnknown
      \<lparr>entry_rpt = last (entries clist), entry_ept = \<lparr>ept_cid = ce_cid (last (entries clist)), ept_protocols = []\<rparr>\<rparr> = (j, es, cp, e, r1)"
    by (metis prod_cases5)
  show ?thesis
    using assms parse_single_client_entry_result(1) [OF p] unfolding client_list_entry_def p Let_def prod.case
    by (auto dest: consume_bad_block_result split: if_splits prod.splits)
qed

lemma client_list_entry_Inl:
  assumes "client_list_entry E data cls clist k = Inl (cls', clist', n, r)"
  shows "r \<noteq> kRCParseResPartialBlockProtErr"
  using assms by (auto simp: client_list_entry_def Let_def split: if_splits prod.splits)

lemma client_list_step_result:
  assumes "client_list_step E alloc data (cls, clist, k, res) = s" and "res \<noteq> kRCParseResPartialBlockProtErr"
  shows "s = Inr (n, cls', clist', Some r) \<Longrightarrow> r \<noteq> kRCParseResPartialBlockProtErr"
    and "s = Inl (cls', clist', n, r) \<Longrightarrow> r \<noteq> kRCParseResPartialBlockProtErr"
  using assms
  by (auto simp: client_list_step_def Let_def dest: consume_bad_block_result client_list_entry_result
      client_list_entry_Inl split: if_splits prod.splits)

lemma client_list_loop_result:
  assumes "client_list_loop E alloc data (cls, clist, k, res) = Some (n, cls', clist', Some r)"
    and "res \<noteq> kRCParseResPartialBlockProtErr"
  shows "r \<noteq> kRCParseResPartialBlockProtErr"
proof -
  have "snd (snd (snd s)) \<noteq> kRCParseResPartialBlockProtErr \<longrightarrow>
      snd (snd (snd y)) \<noteq> Some kRCParseResPartialBlockProtErr"
    if "client_list_loop E alloc data s = Some y" for s y
    using that
  proof (induction E alloc data s y rule: client_list_loop.raw_induct [rotated 1, consumes 1, case_names step])
    case (step loop E alloc data s y)
    obtain cls clist k res where s: "s = (cls, clist, k, res)" by (cases s)
    consider "\<not> size_parsed (cl_block cls) < block_size (cl_block cls)"
      | s' where "size_parsed (cl_block cls) < block_size (cl_block cls)" "client_list_step E alloc data s = Inl s'"
      | r where "size_parsed (cl_block cls) < block_size (cl_block cls)" "client_list_step E alloc data s = Inr r"
      by (cases "client_list_step E alloc data s") auto
    then show ?case
    proof cases
      case 2
      then have "loop E alloc data s' = Some y" using step(2) s by simp
      with step(1) have "snd (snd (snd s')) \<noteq> kRCParseResPartialBlockProtErr \<longrightarrow>
        snd (snd (snd y)) \<noteq> Some kRCParseResPartialBlockProtErr" by blast
      with client_list_step_result(2) [OF 2(2) [unfolded s]] s show ?thesis by (cases s') auto
    next
      case 3
      then have "y = r" using step(2) s by simp
      with client_list_step_result(1) [OF 3(2) [unfolded s]] s show ?thesis by (cases r) auto
    qed (use step(2) s in auto)
  qed
  from this [OF assms(1)] assms(2) show ?thesis by simp
qed

lemma parse_client_connect_result:
  assumes "res \<noteq> kRCParseResPartialBlockProtErr"
  shows "parse_client_connect E s data m res = (n, s', m', r) \<Longrightarrow> r \<noteq> kRCParseResPartialBlockProtErr"
    and "parse_client_entry_update E s data u res = (n, s', u', r) \<Longrightarrow> r \<noteq> kRCParseResPartialBlockProtErr"
  using assms
  by (auto simp: parse_client_connect_def parse_client_entry_update_def Let_def
      dest: parse_entry_after_common_result split: if_splits prod.splits)

lemma parse_client_list_result:
  assumes "parse_client_list E alloc cls data clist = Some (n, cls', clist', r)"
  shows "r \<noteq> kRCParseResPartialBlockProtErr"
  using assms
  by (auto simp: parse_client_list_def parse_rpt_client_list_def Let_def bind_eq_Some_conv
      dest: consume_bad_block_result client_list_loop_result split: if_splits prod.splits option.splits)

lemma parse_broker_data_result:
  assumes "parse_broker_data E alloc bs data bmsg res = Some (n, bs', bmsg', r)"
    and "res \<noteq> kRCParseResPartialBlockProtErr"
  shows "r \<noteq> kRCParseResPartialBlockProtErr"
  using assms(1) unfolding parse_broker_data_def Let_def list_parser_defs
  by (elim if_eqE)
    (use assms(2) in \<open>auto simp: bind_eq_Some_conv dest: consume_bad_block_result parse_list_loop_result
      parse_client_connect_result parse_client_list_result split: if_splits prod.splits\<close>)

interpretation broker_layer: pdu_layer bs_block "\<lambda>b bs. bs\<lparr>bs_block := b\<rparr>"
  "parse_broker_header E" "parse_broker_data E alloc"
  "\<lambda>bs data bmsg. parse_broker_block E alloc bs data bmsg kRCParseResNoData" for E alloc
  by unfold_locales
    (simp_all add: parse_broker_block_def parse_broker_header_result parse_broker_data_block parse_broker_data_result)

section \<open>The loop over a client list\<close>

lemma parse_single_client_entry_full:
  assumes "parse_single_client_entry E cs data cp entry = (n, cs', cp', entry', kRCParseResFullBlockParseOk)"
  shows "0 < n"
proof -
  obtain k cs1 e1 r1 where h: "parse_client_entry_header E cs data entry = (k, cs1, e1, r1)"
    by (metis prod_cases4)
  obtain j cs2 e2 r2 where d: "parse_client_entry_data E cs1 (drop k data) e1 r1 = (j, cs2, e2, r2)"
    by (metis prod_cases4)
  have 1: "r1 \<noteq> kRCParseResFullBlockParseOk"
    using h by (auto simp: parse_client_entry_header_def Let_def
        dest: consume_bad_block_result split: if_splits prod.splits)
  moreover have "r2 = kRCParseResFullBlockParseOk \<Longrightarrow> 0 < j"
    using d 1 by (auto simp: parse_client_entry_data_def Let_def
        dest: consume_bad_block_result split: if_splits prod.splits)
  ultimately show ?thesis
    using assms d by (auto simp: parse_single_client_entry_def h split: if_splits)
qed

lemma client_list_entry_decreases:
  assumes "client_list_entry E data cls clist k = Inl (cls', clist', n, r)"
  shows "block_size (cl_block cls') = block_size (cl_block cls)"
    and "size_parsed (cl_block cls) < size_parsed (cl_block cls')"
    and "size_parsed (cl_block cls') \<le> block_size (cl_block cls)"
  using assms by (auto simp: client_list_entry_def Let_def
      dest: parse_single_client_entry_full split: if_splits prod.splits)

lemma client_list_loop_returns:
  assumes "\<forall>n. alloc n"
  shows "\<exists>y. client_list_loop E alloc data s = Some y"
proof (induction "block_size (cl_block (fst s)) - size_parsed (cl_block (fst s))" arbitrary: s rule: less_induct)
  case less
  obtain cls clist k res where s: "s = (cls, clist, k, res)" by (cases s)
  show ?case
  proof (cases "client_list_step E alloc data s")
    case (Inl s')
    obtain cls' clist' k' res' where s': "s' = (cls', clist', k', res')" by (cases s')
    have dec: "block_size (cl_block cls') = block_size (cl_block cls) \<and>
        size_parsed (cl_block cls) < size_parsed (cl_block cls') \<and> size_parsed (cl_block cls') \<le> block_size (cl_block cls)"
      using Inl assms unfolding s s' client_list_step_def
      by (auto simp: Let_def dest: client_list_entry_decreases split: if_splits prod.splits)
    then have "\<exists>y. client_list_loop E alloc data s' = Some y"
      using s s' by (intro less.hyps) auto
    with Inl s show ?thesis by (subst client_list_loop.simps) auto
  next
    case (Inr r)
    with s show ?thesis by (cases r) (subst client_list_loop.simps, auto)
  qed
qed

lemma client_list_loop_hangs:
  assumes "size_parsed (cl_block cls) < block_size (cl_block cls)" and "\<not> parsed_header (cl_block cls)"
    and "CLIENT_ENTRY_HEADER_SIZE \<le> length data - n" and "unpack_u32b E (drop 3 (drop n data)) = kClientProtocolRPT"
    and "\<not> alloc (length (entries clist) + 1)"
  shows "client_list_loop E alloc data (cls, clist, n, res) = None"
proof -
  define stuck where "stuck = (\<lambda>(E :: etcpal) alloc data (s :: list_loop_state). case s of (cls, clist, n, _) \<Rightarrow>
      size_parsed (cl_block cls) < block_size (cl_block cls) \<and> \<not> parsed_header (cl_block cls) \<and>
      CLIENT_ENTRY_HEADER_SIZE \<le> length data - n \<and> unpack_u32b E (drop 3 (drop n data)) = kClientProtocolRPT \<and>
      \<not> alloc (length (entries clist) + 1))"
  have "\<not> stuck E alloc data s" if "client_list_loop E alloc data s = Some y" for s y
    using that
  proof (induction E alloc data s y rule: client_list_loop.raw_induct [rotated 1, consumes 1, case_names step])
    case (step loop E alloc data s y)
    obtain cls clist k res where s: "s = (cls, clist, k, res)" by (cases s)
    show ?case
    proof
      assume stuck: "stuck E alloc data s"
      then have eq: "client_list_step E alloc data s =
          Inl (cls, clist\<lparr>more_coming := True\<rparr>, k, kRCParseResPartialBlockParseOk)"
        by (simp add: stuck_def s client_list_step_def Let_def)
      with step(2) stuck have "loop E alloc data (cls, clist\<lparr>more_coming := True\<rparr>, k, kRCParseResPartialBlockParseOk) = Some y"
        by (simp add: stuck_def s)
      with step(1) have "\<not> stuck E alloc data (cls, clist\<lparr>more_coming := True\<rparr>, k, kRCParseResPartialBlockParseOk)"
        by blast
      with stuck show False by (simp add: stuck_def s)
    qed
  qed
  note not_stuck = this
  show ?thesis
  proof (rule ccontr)
    assume "client_list_loop E alloc data (cls, clist, n, res) \<noteq> None"
    then obtain y where "client_list_loop E alloc data (cls, clist, n, res) = Some y" by blast
    from not_stuck [OF this] assms show False by (simp add: stuck_def)
  qed
qed

text \<open>With enough memory the broker layer always returns.\<close>

lemma parse_client_list_returns:
  assumes "\<forall>n. alloc n"
  shows "parse_client_list E alloc cls data clist \<noteq> None"
proof -
  have loop: "client_list_loop E alloc data s \<noteq> None" for s
    using client_list_loop_returns [OF assms, of E data s] by auto
  have rpt: "parse_rpt_client_list E alloc cls data l r \<noteq> None" for l r
    by (simp add: parse_rpt_client_list_def bind_eq_None_conv loop del: not_None_eq split: prod.splits)
  show ?thesis
    unfolding parse_client_list_def Let_def
    by (intro notI, elim if_eqE) (simp_all add: bind_eq_None_conv rpt del: not_None_eq split: prod.splits)
qed

lemma parse_broker_block_returns:
  assumes "\<forall>n. alloc n"
  shows "parse_broker_block E alloc bs data bmsg result \<noteq> None"
proof -
  have body: "parse_broker_data E alloc bs1 d bmsg1 res \<noteq> None" for bs1 d bmsg1 res
    unfolding parse_broker_data_def Let_def
    by (intro notI, elim if_eqE)
      (simp_all add: bind_eq_None_conv parse_client_list_returns [OF assms] del: not_None_eq split: prod.splits)
  show ?thesis
    by (simp add: parse_broker_block_def Let_def bind_eq_None_conv body del: not_None_eq split: prod.splits)
qed

end
