(* ===== verification/Rpt_Parse.thy ===== *)
theory Rpt_Parse
  imports Pdu_Block
begin

text \<open>
  The RPT protocol layer of \<^verbatim>\<open>src/rdmnet/core/msg_buf.c\<close>: lists of RDM commands, RPT status messages
  and \<^verbatim>\<open>parse_rpt_block\<close>. A result of type \<^typ>\<open>'a option\<close> is \<^const>\<open>None\<close> when the code copies out of
  the bounds of its buffers.
\<close>

section \<open>RDM command lists\<close>

record RdmListState =
  parsed_request_notif_header :: bool
  rl_block :: PduBlockState

definition INIT_RDM_LIST_STATE :: "nat \<Rightarrow> RdmListState" where
  "INIT_RDM_LIST_STATE n = \<lparr>parsed_request_notif_header = False, rl_block = INIT_PDU_BLOCK_STATE n\<rparr>"

text \<open>
  The loop of \<^verbatim>\<open>parse_rdm_list\<close>. The code copies \<^verbatim>\<open>rdm_cmd_pdu_len - 3\<close> bytes into an \<^verbatim>\<open>RdmBuffer\<close>:
  for a length field below 3 that number wraps to almost \<open>2 ^ 64\<close> and the copy leaves the buffer.
\<close>

function rdm_list_loop ::
  "etcpal \<Rightarrow> (nat \<Rightarrow> bool) \<Rightarrow> bytes \<Rightarrow> PduBlockState \<Rightarrow> RptRdmBufList \<Rightarrow> nat \<Rightarrow> rc_parse_result_t
   \<Rightarrow> (nat \<times> PduBlockState \<times> RptRdmBufList \<times> rc_parse_result_t) option" where
  "rdm_list_loop E alloc data b l n res =
     (let remaining_len = length data - n; cur = drop n data; len = ACN_PDU_LENGTH E cur in
      if \<not> (size_parsed b < block_size b \<and> remaining_len \<ge> RDM_CMD_PDU_MIN_SIZE E) then Some (n, b, l, res)
      else if len > block_size b \<or> len > RDM_CMD_PDU_MAX_SIZE E then
        (case consume_bad_block b remaining_len of (k, b', r) \<Rightarrow> rdm_list_loop E alloc data b' l (n + k) r)
      else if remaining_len < len then Some (n, b, l, res)
      else if \<not> alloc (length (entries l) + 1) then
        (if entries l \<noteq> []
         then Some (n, b, l\<lparr>more_coming := True\<rparr>, kRCParseResPartialBlockParseOk)
         else Some (n, b, l, kRCParseResNoData))
      else if len < 3 then None
      else
        (let b' = b\<lparr>size_parsed := size_parsed b + len\<rparr>;
             l' = l\<lparr>entries := entries l @ [take (len - 3) (drop 3 cur)]\<rparr> in
         rdm_list_loop E alloc data b' l' (n + len)
           (if size_parsed b' \<ge> block_size b' then kRCParseResFullBlockParseOk else res)))"
  by auto
termination
  by (relation "measure (\<lambda>(E, alloc, data, b, l, n, res). block_size b - size_parsed b)")
    (auto simp: consume_bad_block_def RDM_CMD_PDU_MIN_SIZE_def Let_def split: if_splits)

declare rdm_list_loop.simps [simp del]

definition parse_rdm_list_header ::
  "etcpal \<Rightarrow> RdmListState \<Rightarrow> bytes \<Rightarrow> nat \<times> RdmListState \<times> rc_parse_result_t" where
  "parse_rdm_list_header E rl data =
     (if \<not> parsed_request_notif_header rl \<and> length data \<ge> REQUEST_NOTIF_PDU_HEADER_SIZE then
        (let pdu_len = ACN_PDU_LENGTH E data; vect = unpack_u32b E (drop 3 data); b = rl_block rl in
         if pdu_len \<noteq> block_size b \<or> (vect \<noteq> VECTOR_REQUEST_RDM_CMD \<and> vect \<noteq> VECTOR_NOTIFICATION_RDM_CMD)
         then (case consume_bad_block b (length data) of (n, b', r) \<Rightarrow> (n, rl\<lparr>rl_block := b'\<rparr>, r))
         else (REQUEST_NOTIF_PDU_HEADER_SIZE,
               rl\<lparr>parsed_request_notif_header := True,
                  rl_block := b\<lparr>block_size := csub (block_size b) REQUEST_NOTIF_PDU_HEADER_SIZE\<rparr>\<rparr>,
               kRCParseResNoData))
      else (0, rl, kRCParseResNoData))"

definition parse_rdm_list ::
  "etcpal \<Rightarrow> (nat \<Rightarrow> bool) \<Rightarrow> RdmListState \<Rightarrow> bytes \<Rightarrow> RptRdmBufList
   \<Rightarrow> (nat \<times> RdmListState \<times> RptRdmBufList \<times> rc_parse_result_t) option" where
  "parse_rdm_list E alloc rl data l =
     (case parse_rdm_list_header E rl data of
        (n, rl1, res) \<Rightarrow>
          if \<not> parsed_request_notif_header rl1 then Some (n, rl1, l, res)
          else if consuming_bad_block (rl_block rl1) then
            (case consume_bad_block (rl_block rl1) (length data - n) of
               (k, b, r) \<Rightarrow> Some (n + k, rl1\<lparr>rl_block := b\<rparr>, l, r))
          else
            do {
              (k, b, l', r) \<leftarrow> rdm_list_loop E alloc data (rl_block rl1) l n res;
              Some (k, rl1\<lparr>rl_block := b\<rparr>, l', r)
            })"

section \<open>RPT status messages\<close>

type_synonym RptStatusState = PduBlockState

definition parse_rpt_status_header ::
  "etcpal \<Rightarrow> RptStatusState \<Rightarrow> bytes \<Rightarrow> RptStatusMsg \<Rightarrow> nat \<times> RptStatusState \<times> RptStatusMsg \<times> rc_parse_result_t" where
  "parse_rpt_status_header E b data smsg =
     (let pdu_len = ACN_PDU_LENGTH E data;
          bad = (case consume_bad_block b (length data) of (n, b', r) \<Rightarrow> (n, b', smsg, r)) in
      if consuming_bad_block b then bad
      else if parsed_header b then (0, b, smsg, kRCParseResNoData)
      else if csub (block_size b) (size_parsed b) < RPT_STATUS_HEADER_SIZE then bad
      else if length data < RPT_STATUS_HEADER_SIZE then (0, b, smsg, kRCParseResNoData)
      else if pdu_len \<ge> RPT_STATUS_HEADER_SIZE \<and> pdu_len \<ge> block_size b then
        (RPT_STATUS_HEADER_SIZE,
         b\<lparr>size_parsed := size_parsed b + RPT_STATUS_HEADER_SIZE, parsed_header := True\<rparr>,
         smsg\<lparr>status_code := unpack_u16b E (drop 3 data)\<rparr>, kRCParseResNoData)
      else bad)"

text \<open>
  The body of a status message. \<open>alloc_str n\<close> says whether \<^verbatim>\<open>ALLOC_RPT_STATUS_STR(n)\<close> succeeds. The
  string is the bytes up to the terminating zero that the code appends, or an earlier one.
\<close>

definition parse_rpt_status_data ::
  "(nat \<Rightarrow> bool) \<Rightarrow> RptStatusState \<Rightarrow> bytes \<Rightarrow> RptStatusMsg \<Rightarrow> rc_parse_result_t
   \<Rightarrow> nat \<times> RptStatusState \<times> RptStatusMsg \<times> rc_parse_result_t" where
  "parse_rpt_status_data alloc_str b data smsg res =
     (let c = status_code smsg;
          bad = (case consume_bad_block b (length data) of (n, b', r) \<Rightarrow> (n, b', smsg, r)) in
      if c = VECTOR_RPT_STATUS_INVALID_MESSAGE \<or> c = VECTOR_RPT_STATUS_INVALID_COMMAND_CLASS then
        (if size_parsed b = block_size b
         then (0, b, smsg\<lparr>status_string := None\<rparr>, kRCParseResFullBlockParseOk)
         else bad)
      else if c = VECTOR_RPT_STATUS_UNKNOWN_RPT_UID \<or> c = VECTOR_RPT_STATUS_RDM_TIMEOUT \<or>
        c = VECTOR_RPT_STATUS_RDM_INVALID_RESPONSE \<or> c = VECTOR_RPT_STATUS_UNKNOWN_RDM_UID \<or>
        c = VECTOR_RPT_STATUS_UNKNOWN_ENDPOINT \<or> c = VECTOR_RPT_STATUS_BROADCAST_COMPLETE \<or>
        c = VECTOR_RPT_STATUS_UNKNOWN_VECTOR then
        (let str_len = csub (block_size b) (size_parsed b) in
         if str_len = 0 then (0, b, smsg\<lparr>status_string := None\<rparr>, kRCParseResFullBlockParseOk)
         else if str_len > RPT_STATUS_STRING_MAXLEN then bad
         else if length data \<ge> str_len then
           (str_len, b\<lparr>size_parsed := size_parsed b + str_len\<rparr>,
            smsg\<lparr>status_string := (if alloc_str (str_len + 1)
                                   then Some (takeWhile (\<lambda>c. c \<noteq> 0) (take str_len data)) else None)\<rparr>,
            kRCParseResFullBlockParseOk)
         else (0, b, smsg, res))
      else bad)"

definition parse_rpt_status ::
  "etcpal \<Rightarrow> (nat \<Rightarrow> bool) \<Rightarrow> RptStatusState \<Rightarrow> bytes \<Rightarrow> RptStatusMsg
   \<Rightarrow> nat \<times> RptStatusState \<times> RptStatusMsg \<times> rc_parse_result_t" where
  "parse_rpt_status E alloc_str b data smsg =
     (case parse_rpt_status_header E b data smsg of
        (n, b1, smsg1, res) \<Rightarrow>
          if parsed_header b1 then
            (case parse_rpt_status_data alloc_str b1 (drop n data) smsg1 res of
               (k, b2, smsg2, r) \<Rightarrow> (n + k, b2, smsg2, r))
          else (n, b1, smsg1, res))"

section \<open>RPT PDUs\<close>

record RptState =
  rs_block :: PduBlockState
  rs_rdm_list :: RdmListState
  rs_status :: RptStatusState
  rs_unknown :: PduBlockState

definition INIT_RPT_STATE :: "nat \<Rightarrow> RptState \<Rightarrow> RptState" where
  "INIT_RPT_STATE n rs = rs\<lparr>rs_block := INIT_PDU_BLOCK_STATE n\<rparr>"

definition initialize_rpt_message :: "RptState \<Rightarrow> RptMessage \<Rightarrow> nat \<Rightarrow> RptState \<times> RptMessage" where
  "initialize_rpt_message rs rmsg len =
     (let v = rm_vector rmsg;
          bad_length = (rs\<lparr>rs_unknown := INIT_PDU_BLOCK_STATE len\<rparr>, rmsg\<lparr>rm_vector := 0xffffffff\<rparr>) in
      if v = VECTOR_RPT_REQUEST \<or> v = VECTOR_RPT_NOTIFICATION then
        (if len \<ge> REQUEST_NOTIF_PDU_HEADER_SIZE
         then (rs\<lparr>rs_rdm_list := INIT_RDM_LIST_STATE len\<rparr>, rmsg\<lparr>rm_rdm := \<lparr>entries = [], more_coming = False\<rparr>\<rparr>)
         else bad_length)
      else if v = VECTOR_RPT_STATUS then
        (if len \<ge> RPT_STATUS_HEADER_SIZE then (rs\<lparr>rs_status := INIT_PDU_BLOCK_STATE len\<rparr>, rmsg)
         else bad_length)
      else (rs\<lparr>rs_unknown := INIT_PDU_BLOCK_STATE len\<rparr>, rmsg))"

definition unpack_rpt_header :: "etcpal \<Rightarrow> bytes \<Rightarrow> RptHeader" where
  "unpack_rpt_header E d =
     \<lparr>source_uid = unpack_uid E d, source_endpoint_id = unpack_u16b E (drop 6 d),
       dest_uid = unpack_uid E (drop 8 d), dest_endpoint_id = unpack_u16b E (drop 14 d),
       seqnum = unpack_u32b E (drop 16 d)\<rparr>"

definition parse_rpt_header ::
  "etcpal \<Rightarrow> RptState \<Rightarrow> bytes \<Rightarrow> RptMessage \<Rightarrow> nat \<times> RptState \<times> RptMessage \<times> rc_parse_result_t" where
  "parse_rpt_header E rs data rmsg =
     (let b = rs_block rs; pdu_len = ACN_PDU_LENGTH E data;
          bad = (case consume_bad_block b (length data) of (n, b', r) \<Rightarrow> (n, rs\<lparr>rs_block := b'\<rparr>, rmsg, r)) in
      if consuming_bad_block b then bad
      else if parsed_header b then (0, rs, rmsg, kRCParseResNoData)
      else if csub (block_size b) (size_parsed b) < RPT_PDU_HEADER_SIZE then bad
      else if length data < RPT_PDU_HEADER_SIZE then (0, rs, rmsg, kRCParseResNoData)
      else if pdu_len \<ge> RPT_PDU_HEADER_SIZE \<and> size_parsed b + pdu_len \<le> block_size b then
        (case initialize_rpt_message (rs\<lparr>rs_block := b\<lparr>size_parsed := size_parsed b + RPT_PDU_HEADER_SIZE\<rparr>\<rparr>)
                (rmsg\<lparr>rm_vector := unpack_u32b E (drop 3 data), rm_header := unpack_rpt_header E (drop 7 data)\<rparr>)
                (pdu_len - RPT_PDU_HEADER_SIZE) of
           (rs', rmsg') \<Rightarrow>
             (RPT_PDU_HEADER_SIZE, rs'\<lparr>rs_block := (rs_block rs')\<lparr>parsed_header := True\<rparr>\<rparr>, rmsg', kRCParseResNoData))
      else bad)"

definition parse_rpt_data ::
  "etcpal \<Rightarrow> (nat \<Rightarrow> bool) \<Rightarrow> RptState \<Rightarrow> bytes \<Rightarrow> RptMessage
   \<Rightarrow> (nat \<times> RptState \<times> RptMessage \<times> rc_parse_result_t) option" where
  "parse_rpt_data E alloc rs data rmsg =
     (let v = rm_vector rmsg in
      if v = VECTOR_RPT_REQUEST \<or> v = VECTOR_RPT_NOTIFICATION then
        do {
          (n, s, l, r) \<leftarrow> parse_rdm_list E alloc (rs_rdm_list rs) data (rm_rdm rmsg);
          Some (n, rs\<lparr>rs_rdm_list := s\<rparr>, rmsg\<lparr>rm_rdm := l\<rparr>, r)
        }
      else if v = VECTOR_RPT_STATUS then
        (case parse_rpt_status E alloc (rs_status rs) data (rm_status rmsg) of
           (n, s, m, r) \<Rightarrow> Some (n, rs\<lparr>rs_status := s\<rparr>, rmsg\<lparr>rm_status := m\<rparr>, r))
      else
        (case consume_bad_block (rs_unknown rs) (length data) of
           (n, b, r) \<Rightarrow> Some (n, rs\<lparr>rs_unknown := b\<rparr>, rmsg, r)))"

definition parse_rpt_block ::
  "etcpal \<Rightarrow> (nat \<Rightarrow> bool) \<Rightarrow> RptState \<Rightarrow> bytes \<Rightarrow> RptMessage \<Rightarrow> rc_parse_result_t
   \<Rightarrow> (nat \<times> RptState \<times> RptMessage \<times> rc_parse_result_t) option" where
  "parse_rpt_block E alloc rs data rmsg result =
     (case parse_rpt_header E rs data rmsg of
        (n, rs1, rmsg1, res) \<Rightarrow>
          if parsed_header (rs_block rs1) then
            do {
              (k, rs2, rmsg2, res2) \<leftarrow> parse_rpt_data E alloc rs1 (drop n data) rmsg1;
              let b = rs_block rs2;
              if \<not> (k \<le> length data - n \<and> size_parsed b + k \<le> block_size b)
              then Some (0, rs2, rmsg2, result)
              else (case check_for_full_parse res2 (b\<lparr>size_parsed := size_parsed b + k\<rparr>) of
                      (res3, b') \<Rightarrow> Some (n + k, rs2\<lparr>rs_block := b'\<rparr>, rmsg2, res3))
            }
          else Some (n, rs1, rmsg1, res))"

section \<open>Bounds on what is consumed\<close>

lemma initialize_rpt_message_block:
  "initialize_rpt_message rs rmsg len = (rs', rmsg') \<Longrightarrow> rs_block rs' = rs_block rs"
  by (auto simp: initialize_rpt_message_def Let_def split: if_splits)

lemma parse_rpt_header_result:
  assumes "parse_rpt_header E rs data rmsg = (n, rs', rmsg', res)"
  shows "header_result (rs_block rs) (length data) n (rs_block rs') res"
proof -
  let ?b = "rs_block rs" and ?len = "ACN_PDU_LENGTH E data"
  let ?rs = "rs\<lparr>rs_block := ?b\<lparr>size_parsed := size_parsed ?b + RPT_PDU_HEADER_SIZE\<rparr>\<rparr>"
  obtain k b r where c: "consume_bad_block ?b (length data) = (k, b, r)" by (metis prod_cases3)
  obtain rs2 rmsg2 where i: "initialize_rpt_message ?rs
      (rmsg\<lparr>rm_vector := unpack_u32b E (drop 3 data), rm_header := unpack_rpt_header E (drop 7 data)\<rparr>)
      (?len - RPT_PDU_HEADER_SIZE) = (rs2, rmsg2)"
    by (metis prod.exhaust)
  show ?thesis
    using assms initialize_rpt_message_block [OF i]
    unfolding parse_rpt_header_def Let_def c i prod.case header_result_def
    by (elim if_eqE) auto
qed

lemma parse_rpt_data_block:
  assumes "parse_rpt_data E alloc rs data rmsg = Some (n, rs', rmsg', r)"
  shows "rs_block rs' = rs_block rs"
  using assms by (auto simp: parse_rpt_data_def Let_def bind_eq_Some_conv split: if_splits prod.splits)

text \<open>
  An induction rule for the loop: one case per way of leaving it and one per way of going on.
\<close>

lemma rdm_list_loop_cases:
  assumes "rdm_list_loop E alloc data b l n res = Some (n', b', l', r)"
  obtains (stop) "n' = n" "b' = b" "entries l' = entries l"
      "r \<in> {res, kRCParseResNoData, kRCParseResPartialBlockParseOk}"
  | (bad) k b1 r1 where "size_parsed b < block_size b" "RDM_CMD_PDU_MIN_SIZE E \<le> length data - n"
      "consume_bad_block b (length data - n) = (k, b1, r1)"
      "rdm_list_loop E alloc data b1 l (n + k) r1 = Some (n', b', l', r)"
  | (cmd) len where "size_parsed b < block_size b" "len = ACN_PDU_LENGTH E (drop n data)" "3 \<le> len"
      "len \<le> block_size b" "len \<le> RDM_CMD_PDU_MAX_SIZE E" "len \<le> length data - n"
      "rdm_list_loop E alloc data (b\<lparr>size_parsed := size_parsed b + len\<rparr>)
         (l\<lparr>entries := entries l @ [take (len - 3) (drop 3 (drop n data))]\<rparr>) (n + len)
         (if size_parsed b + len \<ge> block_size b then kRCParseResFullBlockParseOk else res) = Some (n', b', l', r)"
proof -
  note eq = assms [unfolded rdm_list_loop.simps [of E alloc data b l n res] Let_def]
  obtain k b1 r1 where c: "consume_bad_block b (length data - n) = (k, b1, r1)" by (metis prod_cases3)
  show thesis
    using eq unfolding c prod.case
    by (elim if_eqE) (auto intro: stop bad [OF _ _ c] cmd [OF _ refl])
qed

lemma rdm_list_loop_result:
  assumes "rdm_list_loop E alloc data b l n res = Some (n', b', l', r)" and "n \<le> length data"
    and "res \<noteq> kRCParseResPartialBlockProtErr"
  shows "r \<noteq> kRCParseResPartialBlockProtErr" and "n \<le> n'" and "n' \<le> length data"
proof -
  have "r \<noteq> kRCParseResPartialBlockProtErr \<and> n \<le> n' \<and> n' \<le> length data"
    using assms
  proof (induction "block_size b - size_parsed b" arbitrary: b l n res rule: less_induct)
    case less
    from less.prems(1) show ?case
    proof (cases rule: rdm_list_loop_cases)
      case stop
      with less.prems(2,3) show ?thesis by auto
    next
      case (bad k b1 r1)
      have "block_ok b" using bad(1) by (simp add: block_ok_def)
      note c = consume_bad_block_block [OF bad(3) this]
      have "0 < k" using c(4) bad(1,2) by (simp add: RDM_CMD_PDU_MIN_SIZE_def)
      with c(1,2) bad(1) have "block_size b1 - size_parsed b1 < block_size b - size_parsed b" by simp
      moreover have "n + k \<le> length data" using consume_bad_block_bound [OF bad(3)] less.prems(2) by simp
      moreover have "r1 \<noteq> kRCParseResPartialBlockProtErr" using consume_bad_block_result [OF bad(3)] by auto
      ultimately show ?thesis using less.hyps [OF _ bad(4)] by simp
    next
      case (cmd len)
      have "n + len \<le> length data" using cmd(6) less.prems(2) by simp
      moreover have "block_size b - (size_parsed b + len) < block_size b - size_parsed b" using cmd(1,3) by simp
      moreover have "(if size_parsed b + len \<ge> block_size b then kRCParseResFullBlockParseOk else res)
          \<noteq> kRCParseResPartialBlockProtErr"
        using less.prems(3) by simp
      ultimately have "r \<noteq> kRCParseResPartialBlockProtErr \<and> n + len \<le> n' \<and> n' \<le> length data"
        by (intro less.hyps [OF _ cmd(7)]) simp_all
      then show ?thesis by simp
    qed
  qed
  then show "r \<noteq> kRCParseResPartialBlockProtErr" "n \<le> n'" "n' \<le> length data" by simp_all
qed

lemma parse_rdm_list_result:
  assumes "parse_rdm_list E alloc rl data l = Some (n, rl', l', r)"
  shows "r \<noteq> kRCParseResPartialBlockProtErr"
proof -
  obtain k rl1 res where h: "parse_rdm_list_header E rl data = (k, rl1, res)" by (metis prod_cases3)
  have res: "res \<noteq> kRCParseResPartialBlockProtErr \<and> k \<le> length data"
    using h by (auto simp: parse_rdm_list_header_def Let_def
        dest: consume_bad_block_result consume_bad_block_bound split: if_splits prod.splits)
  show ?thesis
    using assms res unfolding parse_rdm_list_def h prod.case
    by (elim if_eqE) (auto simp: bind_eq_Some_conv
        dest: consume_bad_block_result rdm_list_loop_result(1) split: prod.splits)
qed

lemma parse_rpt_status_result:
  assumes "parse_rpt_status E alloc b data m = (n, b', m', r)"
  shows "r \<noteq> kRCParseResPartialBlockProtErr"
proof -
  obtain k b1 m1 res where h: "parse_rpt_status_header E b data m = (k, b1, m1, res)" by (metis prod_cases4)
  obtain j b2 m2 r2 where d: "parse_rpt_status_data alloc b1 (drop k data) m1 res = (j, b2, m2, r2)"
    by (metis prod_cases4)
  obtain c1 c2 c3 where c: "consume_bad_block b (length data) = (c1, c2, c3)" by (metis prod_cases3)
  obtain d1 d2 d3 where c': "consume_bad_block b1 (length (drop k data)) = (d1, d2, d3)" by (metis prod_cases3)
  have res: "res \<noteq> kRCParseResPartialBlockProtErr"
    using h consume_bad_block_result [OF c] unfolding parse_rpt_status_header_def Let_def c prod.case
    by (elim if_eqE) auto
  have "r2 \<noteq> kRCParseResPartialBlockProtErr"
    using d res consume_bad_block_result [OF c'] unfolding parse_rpt_status_data_def Let_def c' prod.case
    by (elim if_eqE) auto
  with assms res d h show ?thesis by (auto simp: parse_rpt_status_def split: if_splits)
qed

lemma parse_rpt_data_result:
  assumes "parse_rpt_data E alloc rs data rmsg = Some (n, rs', rmsg', r)"
  shows "r \<noteq> kRCParseResPartialBlockProtErr"
  using assms unfolding parse_rpt_data_def Let_def
  by (elim if_eqE) (auto simp: bind_eq_Some_conv dest: consume_bad_block_result parse_rdm_list_result
      parse_rpt_status_result split: prod.splits)

interpretation rpt_layer: pdu_layer rs_block "\<lambda>b rs. rs\<lparr>rs_block := b\<rparr>"
  "parse_rpt_header E" "\<lambda>rs data rmsg res. parse_rpt_data E alloc rs data rmsg"
  "\<lambda>rs data rmsg. parse_rpt_block E alloc rs data rmsg kRCParseResNoData" for E alloc
  by unfold_locales
    (simp_all add: parse_rpt_block_def parse_rpt_header_result parse_rpt_data_block parse_rpt_data_result)

end
