(* ===== verification/Msg_Buf.thy ===== *)
theory Msg_Buf
  imports Broker_Parse Rpt_Parse
begin

text \<open>
  The receive buffer of a connection, \<^verbatim>\<open>RCMsgBuf\<close>, and the top of the parser in
  \<^verbatim>\<open>src/rdmnet/core/msg_buf.c\<close>: receiving from the socket, finding the TCP preamble, the root layer
  and the loop \<^verbatim>\<open>rc_msg_buf_parse_data\<close>. The buffer array and its fill level are one list, the first
  \<^verbatim>\<open>cur_data_size\<close> bytes of the array.
\<close>

section \<open>The buffer\<close>

record RlpState =
  rlp_block :: PduBlockState
  rlp_broker :: BrokerState
  rlp_rpt :: RptState
  rlp_unknown :: PduBlockState

record RCMsgBuf =
  mb_buf :: bytes
  mb_msg :: RdmnetMessage
  have_preamble :: bool
  rlp_state :: RlpState

abbreviation (input) RDMNET_RECV_DATA_MAX_SIZE :: nat where "RDMNET_RECV_DATA_MAX_SIZE \<equiv> 1200"
abbreviation (input) RC_MSG_BUF_SIZE :: nat where "RC_MSG_BUF_SIZE \<equiv> RDMNET_RECV_DATA_MAX_SIZE * 2"

definition INIT_RLP_STATE :: "nat \<Rightarrow> RlpState \<Rightarrow> RlpState" where
  "INIT_RLP_STATE n rs = rs\<lparr>rlp_block := INIT_PDU_BLOCK_STATE n\<rparr>"

definition rc_msg_buf_init :: "RCMsgBuf \<Rightarrow> RCMsgBuf" where
  "rc_msg_buf_init mb = mb\<lparr>mb_buf := [], have_preamble := False\<rparr>"

section \<open>Receiving\<close>

text \<open>
  The socket is a parameter: \<open>recv s n\<close> is \<^verbatim>\<open>etcpal_recv\<close> for at most \<open>n\<close> bytes in socket state \<open>s\<close>. It gives
  the bytes read, none of them when the peer has closed the connection, or an error. The result
  \<^const>\<open>None\<close> of the loop stands for a receive that writes more bytes than it was asked for.
\<close>

datatype recv_res = Received bytes | RecvError etcpal_error_t

function recv_loop ::
  "('s \<Rightarrow> nat \<Rightarrow> recv_res \<times> 's) \<Rightarrow> 's \<Rightarrow> bytes \<Rightarrow> (recv_res \<times> bytes \<times> 's) option" where
  "recv_loop recv s buf =
     (let remaining_length = RC_MSG_BUF_SIZE - length buf in
      if remaining_length = 0 then Some (RecvError kEtcPalErrWouldBlock, buf, s)
      else case recv s remaining_length of
        (RecvError e, s') \<Rightarrow> Some (RecvError e, buf, s')
      | (Received bs, s') \<Rightarrow>
          if bs = [] then Some (Received [], buf, s')
          else if length bs > remaining_length then None
          else recv_loop recv s' (buf @ bs))"
  by auto
termination
  by (relation "measure (\<lambda>(recv, s, buf). RC_MSG_BUF_SIZE - length buf)") (auto simp flip: length_greater_0_conv)

declare recv_loop.simps [simp del]

definition rc_msg_buf_recv ::
  "('s \<Rightarrow> nat \<Rightarrow> recv_res \<times> 's) \<Rightarrow> 's \<Rightarrow> RCMsgBuf \<Rightarrow> (etcpal_error_t \<times> RCMsgBuf \<times> 's) option" where
  "rc_msg_buf_recv recv s mb =
     (if length (mb_buf mb) > RC_MSG_BUF_SIZE then Some (kEtcPalErrSys, mb, s)
      else do {
        (r, buf, s') \<leftarrow> recv_loop recv s (mb_buf mb);
        let mb' = mb\<lparr>mb_buf := buf\<rparr>;
        Some (case r of
            RecvError e \<Rightarrow>
              if e \<noteq> kEtcPalErrWouldBlock then e
              else if length buf = length (mb_buf mb) then kEtcPalErrWouldBlock
              else kEtcPalErrOk
          | Received _ \<Rightarrow> kEtcPalErrConnClosed, mb', s')
      })"

section \<open>The TCP preamble\<close>

text \<open>
  \<^verbatim>\<open>locate_tcp_preamble\<close>: the search goes on while more than a preamble is left; what has been passed
  is dropped. The result is the length of the root layer PDU block, 0 if there is none, and the
  rest of the buffer.
\<close>

fun locate_tcp_preamble :: "etcpal \<Rightarrow> bytes \<Rightarrow> nat \<times> bytes" where
  "locate_tcp_preamble E [] = (0, [])"
| "locate_tcp_preamble E (x # xs) =
     (if length (x # xs) \<le> ACN_TCP_PREAMBLE_SIZE E then (0, x # xs)
      else case acn_parse_tcp_preamble E (x # xs) of
        Some n \<Rightarrow> (n, drop (ACN_TCP_PREAMBLE_SIZE E) (x # xs))
      | None \<Rightarrow> locate_tcp_preamble E xs)"

section \<open>The root layer\<close>

definition initialize_rdmnet_message :: "etcpal \<Rightarrow> RlpState \<Rightarrow> RdmnetMessage \<Rightarrow> nat \<Rightarrow> RlpState" where
  "initialize_rdmnet_message E rs msg len =
     (if msg_vector msg = ACN_VECTOR_ROOT_BROKER E
      then rs\<lparr>rlp_broker := INIT_BROKER_STATE len (rlp_broker rs)\<rparr>
      else if msg_vector msg = ACN_VECTOR_ROOT_RPT E
      then rs\<lparr>rlp_rpt := INIT_RPT_STATE len (rlp_rpt rs)\<rparr>
      else rs\<lparr>rlp_unknown := INIT_PDU_BLOCK_STATE len\<rparr>)"

text \<open>
  The first part of \<^verbatim>\<open>parse_rlp_block\<close>. When a PDU is longer than its block, \<^verbatim>\<open>consume_bad_block\<close> is
  called with the whole \<^verbatim>\<open>data_len\<close> although the header has already been counted.
\<close>

definition parse_rlp_header ::
  "etcpal \<Rightarrow> RlpState \<Rightarrow> bytes \<Rightarrow> RdmnetMessage \<Rightarrow> nat \<times> RlpState \<times> RdmnetMessage \<times> rc_parse_result_t" where
  "parse_rlp_header E rs data msg =
     (let b = rlp_block rs; hdr = ACN_RLP_HEADER_SIZE_EXT_LEN E;
          bad = (\<lambda>n b. case consume_bad_block b (length data) of
                   (k, b', r) \<Rightarrow> (n + k, rs\<lparr>rlp_block := b'\<rparr>, msg, r)) in
      if consuming_bad_block b then bad 0 b
      else if parsed_header b then (0, rs, msg, kRCParseResNoData)
      else if csub (block_size b) (size_parsed b) < hdr then bad 0 b
      else if length data < hdr then (0, rs, msg, kRCParseResNoData)
      else case acn_parse_root_layer_header E data of
        None \<Rightarrow> bad 0 b
      | Some rlp \<Rightarrow>
          (let b' = b\<lparr>size_parsed := size_parsed b + hdr\<rparr> in
           if size_parsed b' + rlp_data_len rlp \<le> block_size b' then
             (let msg' = msg\<lparr>msg_vector := rlp_vector rlp, sender_cid := rlp_sender_cid rlp\<rparr> in
              (hdr, initialize_rdmnet_message E (rs\<lparr>rlp_block := b'\<lparr>parsed_header := True\<rparr>\<rparr>) msg'
                      (rlp_data_len rlp), msg', kRCParseResNoData))
           else bad hdr b'))"

definition parse_rlp_data ::
  "etcpal \<Rightarrow> (nat \<Rightarrow> bool) \<Rightarrow> RlpState \<Rightarrow> bytes \<Rightarrow> RdmnetMessage \<Rightarrow> rc_parse_result_t
   \<Rightarrow> (nat \<times> RlpState \<times> RdmnetMessage \<times> rc_parse_result_t) option" where
  "parse_rlp_data E alloc rs data msg res =
     (if msg_vector msg = ACN_VECTOR_ROOT_BROKER E then
        do {
          (n, s, m, r) \<leftarrow> parse_broker_block E alloc (rlp_broker rs) data (msg_broker msg) res;
          Some (n, rs\<lparr>rlp_broker := s\<rparr>, msg\<lparr>msg_broker := m\<rparr>, r)
        }
      else if msg_vector msg = ACN_VECTOR_ROOT_RPT E then
        do {
          (n, s, m, r) \<leftarrow> parse_rpt_block E alloc (rlp_rpt rs) data (msg_rpt msg) res;
          Some (n, rs\<lparr>rlp_rpt := s\<rparr>, msg\<lparr>msg_rpt := m\<rparr>, r)
        }
      else
        (case consume_bad_block (rlp_unknown rs) (length data) of
           (n, b, r) \<Rightarrow> Some (n, rs\<lparr>rlp_unknown := b\<rparr>, msg, r)))"

text \<open>
  The whole of \<^verbatim>\<open>parse_rlp_block\<close>. The last component is \<^const>\<open>None\<close> where it returns 0 after a failed
  assertion and leaves \<^verbatim>\<open>*result\<close> unwritten.
\<close>

definition parse_rlp_block ::
  "etcpal \<Rightarrow> (nat \<Rightarrow> bool) \<Rightarrow> RlpState \<Rightarrow> bytes \<Rightarrow> RdmnetMessage
   \<Rightarrow> (nat \<times> RlpState \<times> RdmnetMessage \<times> rc_parse_result_t option) option" where
  "parse_rlp_block E alloc rs data msg =
     (case parse_rlp_header E rs data msg of
        (n, rs1, msg1, res) \<Rightarrow>
          if parsed_header (rlp_block rs1) then
            do {
              (k, rs2, msg2, res2) \<leftarrow> parse_rlp_data E alloc rs1 (drop n data) msg1 res;
              let b = rlp_block rs2;
              if \<not> (k \<le> length data - n \<and> size_parsed b + k \<le> block_size b)
              then Some (0, rs2, msg2, None)
              else (case check_for_full_parse res2 (b\<lparr>size_parsed := size_parsed b + k\<rparr>) of
                      (res3, b') \<Rightarrow> Some (n + k, rs2\<lparr>rlp_block := b'\<rparr>, msg2, Some res3))
            }
          else Some (n, rs1, msg1, Some res))"

section \<open>The parse loop\<close>

text \<open>
  One iteration of the loop of \<^verbatim>\<open>rc_msg_buf_parse_data\<close>: the error code \<^verbatim>\<open>res\<close>, whether the function
  returns at once, and the buffer. \<^const>\<open>None\<close> is a fault of the layers below, or a read of the
  uninitialised \<^verbatim>\<open>parse_res\<close>.
\<close>

definition result_code :: "rc_parse_result_t \<Rightarrow> etcpal_error_t" where
  "result_code r =
     (case r of
        kRCParseResFullBlockParseOk \<Rightarrow> kEtcPalErrOk | kRCParseResPartialBlockParseOk \<Rightarrow> kEtcPalErrOk
      | kRCParseResFullBlockProtErr \<Rightarrow> kEtcPalErrProtocol | kRCParseResPartialBlockProtErr \<Rightarrow> kEtcPalErrProtocol
      | kRCParseResNoData \<Rightarrow> kEtcPalErrNoData)"

definition parse_data_block ::
  "etcpal \<Rightarrow> (nat \<Rightarrow> bool) \<Rightarrow> RCMsgBuf \<Rightarrow> (etcpal_error_t \<times> bool \<times> RCMsgBuf) option" where
  "parse_data_block E alloc mb =
     do {
       (consumed, rs, msg, r) \<leftarrow> parse_rlp_block E alloc (rlp_state mb) (mb_buf mb) (mb_msg mb);
       parse_res \<leftarrow> r;
       let full = (parse_res = kRCParseResFullBlockParseOk \<or> parse_res = kRCParseResFullBlockProtErr);
       let mb' = mb\<lparr>rlp_state := rs, mb_msg := msg, have_preamble := \<not> full\<rparr>;
       Some (if consumed > length (mb_buf mb) then (kEtcPalErrSys, True, mb')
             else (result_code parse_res, False, mb'\<lparr>mb_buf := drop consumed (mb_buf mb)\<rparr>))
     }"

definition parse_data_step ::
  "etcpal \<Rightarrow> (nat \<Rightarrow> bool) \<Rightarrow> RCMsgBuf \<Rightarrow> (etcpal_error_t \<times> bool \<times> RCMsgBuf) option" where
  "parse_data_step E alloc mb =
     (if have_preamble mb then parse_data_block E alloc mb
      else case locate_tcp_preamble E (mb_buf mb) of
        (pdu_block_size, buf) \<Rightarrow>
          if pdu_block_size \<noteq> 0
          then parse_data_block E alloc (mb\<lparr>mb_buf := buf, have_preamble := True,
                 rlp_state := INIT_RLP_STATE pdu_block_size (rlp_state mb)\<rparr>)
          else Some (kEtcPalErrNoData, True, mb\<lparr>mb_buf := buf\<rparr>))"

partial_function (option) rc_msg_buf_parse_data ::
  "etcpal \<Rightarrow> (nat \<Rightarrow> bool) \<Rightarrow> RCMsgBuf \<Rightarrow> (etcpal_error_t \<times> RCMsgBuf) option" where
  "rc_msg_buf_parse_data E alloc mb =
     (case parse_data_step E alloc mb of
        None \<Rightarrow> None
      | Some (res, ret, mb') \<Rightarrow>
          if res = kEtcPalErrProtocol \<and> \<not> ret then rc_msg_buf_parse_data E alloc mb'
          else Some (res, mb'))"

section \<open>The root layer keeps its accounts\<close>

text \<open>
  The block of the layer that the current root layer PDU belongs to, and the invariant of the root
  layer: while a PDU is being parsed, the bytes its layer can still ask for are left in the root
  layer block.
\<close>

definition inner_block :: "etcpal \<Rightarrow> RlpState \<Rightarrow> RdmnetMessage \<Rightarrow> PduBlockState" where
  "inner_block E rs msg =
     (if msg_vector msg = ACN_VECTOR_ROOT_BROKER E then bs_block (rlp_broker rs)
      else if msg_vector msg = ACN_VECTOR_ROOT_RPT E then rs_block (rlp_rpt rs)
      else rlp_unknown rs)"

definition rlp_inv :: "etcpal \<Rightarrow> RlpState \<Rightarrow> RdmnetMessage \<Rightarrow> bool" where
  "rlp_inv E rs msg \<longleftrightarrow> block_ok (rlp_block rs) \<and>
     (parsed_header (rlp_block rs) \<longrightarrow>
        fits_in (rlp_block rs) (inner_block E rs msg) \<and> \<not> consuming_bad_block (rlp_block rs))"

lemma parse_rlp_data_layer:
  assumes "parse_rlp_data E alloc rs data msg kRCParseResNoData = Some (n, rs', msg', r)"
  shows "rlp_block rs' = rlp_block rs" and "msg_vector msg' = msg_vector msg"
    and "fits_in outer (inner_block E rs msg) \<Longrightarrow>
      n \<le> length data \<and> size_parsed outer + n \<le> block_size outer \<and>
      fits_in (outer\<lparr>size_parsed := size_parsed outer + n\<rparr>) (inner_block E rs' msg')"
    and "r = kRCParseResPartialBlockProtErr \<Longrightarrow>
      0 < n \<or> (parsed_header (inner_block E rs msg) \<and> \<not> parsed_header (inner_block E rs' msg'))"
proof -
  consider (broker) s m where "msg_vector msg = ACN_VECTOR_ROOT_BROKER E"
      "parse_broker_block E alloc (rlp_broker rs) data (msg_broker msg) kRCParseResNoData = Some (n, s, m, r)"
      "rs' = rs\<lparr>rlp_broker := s\<rparr>" "msg' = msg\<lparr>msg_broker := m\<rparr>"
    | (rpt) s m where "msg_vector msg \<noteq> ACN_VECTOR_ROOT_BROKER E" "msg_vector msg = ACN_VECTOR_ROOT_RPT E"
      "parse_rpt_block E alloc (rlp_rpt rs) data (msg_rpt msg) kRCParseResNoData = Some (n, s, m, r)"
      "rs' = rs\<lparr>rlp_rpt := s\<rparr>" "msg' = msg\<lparr>msg_rpt := m\<rparr>"
    | (unknown) b where "msg_vector msg \<noteq> ACN_VECTOR_ROOT_BROKER E" "msg_vector msg \<noteq> ACN_VECTOR_ROOT_RPT E"
      "parse_unknown (rlp_unknown rs) data () = Some (n, b, (), r)" "rs' = rs\<lparr>rlp_unknown := b\<rparr>" "msg' = msg"
    using assms unfolding parse_rlp_data_def parse_unknown_def
    by (elim if_eqE) (auto simp: bind_eq_Some_conv split: prod.splits)
  note cases = this
  show "rlp_block rs' = rlp_block rs" "msg_vector msg' = msg_vector msg" by (cases rule: cases; simp)+
  show "n \<le> length data \<and> size_parsed outer + n \<le> block_size outer \<and>
      fits_in (outer\<lparr>size_parsed := size_parsed outer + n\<rparr>) (inner_block E rs' msg')"
    if "fits_in outer (inner_block E rs msg)"
    using cases
  proof cases
    case broker
    with that broker_layer.parse_fits [OF broker(2)] show ?thesis by (simp add: inner_block_def)
  next
    case rpt
    with that rpt_layer.parse_fits [OF rpt(3)] show ?thesis by (simp add: inner_block_def)
  next
    case unknown
    with that unknown_layer.parse_fits [OF unknown(3)] show ?thesis by (simp add: inner_block_def)
  qed
  show "0 < n \<or> (parsed_header (inner_block E rs msg) \<and> \<not> parsed_header (inner_block E rs' msg'))"
    if "r = kRCParseResPartialBlockProtErr"
    using cases
  proof cases
    case broker
    with that broker_layer.parse_progress show ?thesis by (auto simp: inner_block_def)
  next
    case rpt
    with that rpt_layer.parse_progress show ?thesis by (auto simp: inner_block_def)
  next
    case unknown
    with that unknown_layer.parse_progress show ?thesis by (auto simp: inner_block_def)
  qed
qed

lemma parse_rlp_header_cases:
  assumes "parse_rlp_header E rs data msg = (n, rs', msg', res)"
  obtains (bad) b where "consume_bad_block (rlp_block rs) (length data) = (n, b, res)"
      "rs' = rs\<lparr>rlp_block := b\<rparr>" "msg' = msg"
      "consuming_bad_block (rlp_block rs) \<or> \<not> parsed_header (rlp_block rs)"
  | (none) "n = 0" "rs' = rs" "msg' = msg" "res = kRCParseResNoData"
  | (header) len where "n = ACN_RLP_HEADER_SIZE_EXT_LEN E" "n \<le> length data" "res = kRCParseResNoData"
      "rlp_block rs' = (rlp_block rs)\<lparr>size_parsed := size_parsed (rlp_block rs) + n, parsed_header := True\<rparr>"
      "size_parsed (rlp_block rs) + n + len \<le> block_size (rlp_block rs)"
      "inner_block E rs' msg' = INIT_PDU_BLOCK_STATE len" "\<not> consuming_bad_block (rlp_block rs)"
  | (over) b k where "\<not> parsed_header (rlp_block rs)" "ACN_RLP_HEADER_SIZE_EXT_LEN E \<le> block_size (rlp_block rs) - size_parsed (rlp_block rs)
       \<or> block_size (rlp_block rs) < size_parsed (rlp_block rs)"
      "consume_bad_block ((rlp_block rs)\<lparr>size_parsed := size_parsed (rlp_block rs) + ACN_RLP_HEADER_SIZE_EXT_LEN E\<rparr>)
         (length data) = (k, b, res)" "n = ACN_RLP_HEADER_SIZE_EXT_LEN E + k" "rs' = rs\<lparr>rlp_block := b\<rparr>"
proof -
  let ?b = "rlp_block rs" and ?hdr = "ACN_RLP_HEADER_SIZE_EXT_LEN E"
  obtain k b r where c: "consume_bad_block ?b (length data) = (k, b, r)" by (metis prod_cases3)
  obtain k2 b2 r2 where c2: "consume_bad_block (?b\<lparr>size_parsed := size_parsed ?b + ?hdr\<rparr>) (length data) = (k2, b2, r2)"
    by (metis prod_cases3)
  note eq = assms [unfolded parse_rlp_header_def Let_def c c2 prod.case]
  show thesis
  proof (cases "consuming_bad_block ?b \<or> parsed_header ?b \<or> csub (block_size ?b) (size_parsed ?b) < ?hdr \<or>
      length data < ?hdr \<or> acn_parse_root_layer_header E data = None")
    case True
    then show thesis
      using eq c bad none by (elim if_eqE disjE) auto
  next
    case False
    then obtain rlp where rlp: "acn_parse_root_layer_header E data = Some rlp" by auto
    show thesis
    proof (cases "size_parsed ?b + ?hdr + rlp_data_len rlp \<le> block_size ?b")
      case True
      with False rlp eq show thesis
        by (intro header [of "rlp_data_len rlp"])
          (auto simp: c2 initialize_rdmnet_message_def inner_block_def INIT_BROKER_STATE_def INIT_RPT_STATE_def)
    next
      case over': False
      from False over' rlp eq c2 show thesis
        by (intro over [of k2 b2]) (auto simp: csub_def split: if_splits)
    qed
  qed
qed

lemma parse_rlp_header_inv:
  assumes "parse_rlp_header E rs data msg = (n, rs', msg', res)" and "rlp_inv E rs msg"
  shows "rlp_inv E rs' msg'"
  using assms(1)
proof (cases rule: parse_rlp_header_cases)
  case (bad b)
  with assms(2) have np: "\<not> parsed_header (rlp_block rs)" and ok: "block_ok (rlp_block rs)"
    by (auto simp: rlp_inv_def)
  with bad consume_bad_block_block [OF bad(1) ok] show ?thesis by (simp add: rlp_inv_def)
next
  case none
  with assms(2) show ?thesis by simp
next
  case (header len)
  with assms(2) show ?thesis by (simp add: rlp_inv_def block_ok_def fits_in_init)
next
  case (over b k)
  have "block_ok ((rlp_block rs)\<lparr>size_parsed := size_parsed (rlp_block rs) + ACN_RLP_HEADER_SIZE_EXT_LEN E\<rparr>)"
    using over(2) assms(2) by (auto simp: rlp_inv_def block_ok_def)
  from consume_bad_block_block [OF over(3) this] over(1,5) show ?thesis by (simp add: rlp_inv_def)
qed

lemma parse_rlp_header_res:
  assumes "parse_rlp_header E rs data msg = (n, rs', msg', res)" and "parsed_header (rlp_block rs')" and "rlp_inv E rs msg"
  shows "res = kRCParseResNoData" and "n \<le> length data" and "n = 0 \<and> rs' = rs \<and> msg' = msg \<or> n = ACN_RLP_HEADER_SIZE_EXT_LEN E"
proof -
  have "res = kRCParseResNoData \<and> n \<le> length data \<and> (n = 0 \<and> rs' = rs \<and> msg' = msg \<or> n = ACN_RLP_HEADER_SIZE_EXT_LEN E)"
    using assms(1)
  proof (cases rule: parse_rlp_header_cases)
    case (bad b)
    with assms(2) consume_bad_block_parsed [OF bad(1)] have "parsed_header (rlp_block rs)" by simp
    with bad(4) assms(3) show ?thesis by (simp add: rlp_inv_def)
  next
    case (over b k)
    with assms(2) consume_bad_block_parsed [OF over(3)] show ?thesis by simp
  qed simp_all
  then show "res = kRCParseResNoData" "n \<le> length data"
    "n = 0 \<and> rs' = rs \<and> msg' = msg \<or> n = ACN_RLP_HEADER_SIZE_EXT_LEN E" by simp_all
qed

text \<open>
  A call of \<^verbatim>\<open>parse_rlp_block\<close> in a state that satisfies the invariant: either it stops after the header
  part, or the layer above has been called and both assertions on its result hold.
\<close>

lemma parse_rlp_block_cases:
  assumes "parse_rlp_block E alloc rs data msg = Some (n, rs', msg', r)" and inv: "rlp_inv E rs msg"
  obtains (header_only) res where "parse_rlp_header E rs data msg = (n, rs', msg', res)"
      "\<not> parsed_header (rlp_block rs')" "r = Some res"
  | (body) k rs1 msg1 j rs2 res2 res3 where "parse_rlp_header E rs data msg = (k, rs1, msg1, kRCParseResNoData)"
      "parsed_header (rlp_block rs1)" "k \<le> length data"
      "parse_rlp_data E alloc rs1 (drop k data) msg1 kRCParseResNoData = Some (j, rs2, msg', res2)"
      "fits_in ((rlp_block rs1)\<lparr>size_parsed := size_parsed (rlp_block rs1) + j\<rparr>) (inner_block E rs2 msg')"
      "check_for_full_parse res2 ((rlp_block rs1)\<lparr>size_parsed := size_parsed (rlp_block rs1) + j\<rparr>) = (res3, rlp_block rs')"
      "rs' = rs2\<lparr>rlp_block := rlp_block rs'\<rparr>" "n = k + j" "j \<le> length data - k" "r = Some res3"
proof -
  obtain k rs1 msg1 res where h: "parse_rlp_header E rs data msg = (k, rs1, msg1, res)" by (metis prod_cases4)
  show thesis
  proof (cases "parsed_header (rlp_block rs1)")
    case False
    with assms(1) h show thesis by (intro header_only [of res]) (auto simp: parse_rlp_block_def)
  next
    case True
    note res = parse_rlp_header_res [OF h True inv]
    have fit: "fits_in (rlp_block rs1) (inner_block E rs1 msg1)"
      using parse_rlp_header_inv [OF h inv] True by (simp add: rlp_inv_def)
    obtain j rs2 msg2 res2 where d: "parse_rlp_data E alloc rs1 (drop k data) msg1 kRCParseResNoData = Some (j, rs2, msg2, res2)"
      using assms(1) True res by (auto simp: parse_rlp_block_def h bind_eq_Some_conv)
    note d' = parse_rlp_data_layer(1) [OF d] parse_rlp_data_layer(3) [OF d fit]
    obtain res3 b3 where c: "check_for_full_parse res2
        ((rlp_block rs1)\<lparr>size_parsed := size_parsed (rlp_block rs1) + j\<rparr>) = (res3, b3)"
      by (metis prod.exhaust)
    have "Some (k + j, rs2\<lparr>rlp_block := b3\<rparr>, msg2, Some res3) = Some (n, rs', msg', r)"
      using assms(1) True d d' c res by (simp add: parse_rlp_block_def h Let_def)
    with h True res d d' c show thesis by (intro body [of k rs1 msg1 j rs2 res2 res3]) auto
  qed
qed

lemma parse_rlp_block_inv:
  assumes "parse_rlp_block E alloc rs data msg = Some (n, rs', msg', r)" and "rlp_inv E rs msg"
  shows "\<exists>res. r = Some res" and "rlp_inv E rs' msg'"
proof -
  have "(\<exists>res. r = Some res) \<and> rlp_inv E rs' msg'"
    using assms
  proof (cases rule: parse_rlp_block_cases)
    case (header_only res)
    then show ?thesis using parse_rlp_header_inv [OF header_only(1) assms(2)] by simp
  next
    case (body k rs1 msg1 j rs2 res2 res3)
    note c = check_for_full_parse_block [OF body(6)]
    have "inner_block E rs' msg' = inner_block E rs2 msg'" by (subst body(7)) (simp add: inner_block_def)
    moreover have "\<not> consuming_bad_block (rlp_block rs1)"
      using parse_rlp_header_inv [OF body(1) assms(2)] body(2) by (simp add: rlp_inv_def)
    ultimately show ?thesis
      using body(5,10) c by (auto simp: rlp_inv_def fits_in_def block_ok_def)
  qed
  then show "\<exists>res. r = Some res" "rlp_inv E rs' msg'" by simp_all
qed

section \<open>The parse loop ends\<close>

definition mb_inv :: "etcpal \<Rightarrow> RCMsgBuf \<Rightarrow> bool" where
  "mb_inv E mb \<longleftrightarrow> length (mb_buf mb) \<le> RC_MSG_BUF_SIZE \<and>
     (have_preamble mb \<longrightarrow> rlp_inv E (rlp_state mb) (mb_msg mb))"

text \<open>
  Every further iteration of the loop consumes bytes, gives up the preamble, or finishes a PDU; the
  weight counts these.
\<close>

definition header_weight :: "etcpal \<Rightarrow> RlpState \<Rightarrow> RdmnetMessage \<Rightarrow> nat" where
  "header_weight E rs msg = (if parsed_header (rlp_block rs) then 2 else 0) +
     (if parsed_header (inner_block E rs msg) then 1 else 0)"

definition parse_weight :: "etcpal \<Rightarrow> RCMsgBuf \<Rightarrow> nat" where
  "parse_weight E mb = 8 * length (mb_buf mb) + (if have_preamble mb then 4 else 0) +
     header_weight E (rlp_state mb) (mb_msg mb)"

lemma header_weight_le: "header_weight E rs msg \<le> 3"
  by (simp add: header_weight_def)

lemma parse_rlp_block_progress:
  assumes "parse_rlp_block E alloc rs data msg = Some (n, rs', msg', Some kRCParseResPartialBlockProtErr)"
    and inv: "rlp_inv E rs msg" and "0 < ACN_RLP_HEADER_SIZE_EXT_LEN E"
  shows "0 < n \<or> header_weight E rs' msg' < header_weight E rs msg"
  using assms(1) inv
proof (cases rule: parse_rlp_block_cases)
  case (header_only res)
  from header_only(1) have "res \<noteq> kRCParseResPartialBlockProtErr"
    by (cases rule: parse_rlp_header_cases) (auto dest: consume_bad_block_result)
  with header_only show ?thesis by simp
next
  case (body k rs1 msg1 j rs2 res2 res3)
  have same: "inner_block E rs' msg' = inner_block E rs2 msg'" by (subst body(7)) (simp add: inner_block_def)
  show ?thesis
  proof (cases "n = 0")
    case True
    with body(8) parse_rlp_header_res(3) [OF body(1,2) inv] assms(3) have eq: "rs1 = rs" "msg1 = msg" "j = 0" by auto
    show ?thesis
    proof (cases "res2 = kRCParseResPartialBlockProtErr")
      case True
      with parse_rlp_data_layer(4) [OF body(4)] eq
      have "parsed_header (inner_block E rs msg) \<and> \<not> parsed_header (inner_block E rs' msg')"
        by (simp add: same)
      with body(2) eq show ?thesis by (simp add: header_weight_def)
    next
      case False
      with body(6,10) check_for_full_parse_progress have "\<not> parsed_header (rlp_block rs')" by simp
      with body(2) eq show ?thesis by (simp add: header_weight_def)
    qed
  qed simp
qed

lemma parse_data_block_step:
  assumes "parse_data_block E alloc mb = Some (res, ret, mb')" and inv: "mb_inv E mb" and "have_preamble mb"
    and "0 < ACN_RLP_HEADER_SIZE_EXT_LEN E"
  shows "mb_inv E mb'" and "res = kEtcPalErrProtocol \<Longrightarrow> \<not> ret \<Longrightarrow> parse_weight E mb' < parse_weight E mb"
proof -
  have rinv: "rlp_inv E (rlp_state mb) (mb_msg mb)" using inv assms(3) by (simp add: mb_inv_def)
  obtain n rs msg r where p: "parse_rlp_block E alloc (rlp_state mb) (mb_buf mb) (mb_msg mb) = Some (n, rs, msg, Some r)"
    using assms(1) by (auto simp: parse_data_block_def bind_eq_Some_conv)
  note i = parse_rlp_block_inv(2) [OF p rinv]
  show "mb_inv E mb'"
    using assms(1) i inv by (auto simp: parse_data_block_def p mb_inv_def Let_def split: if_splits)
  show "parse_weight E mb' < parse_weight E mb" if "res = kEtcPalErrProtocol" "\<not> ret"
  proof -
    have mb': "mb' = mb\<lparr>rlp_state := rs, mb_msg := msg, have_preamble := r \<noteq> kRCParseResFullBlockProtErr,
          mb_buf := drop n (mb_buf mb)\<rparr>" and n: "n \<le> length (mb_buf mb)"
      and r: "r = kRCParseResFullBlockProtErr \<or> r = kRCParseResPartialBlockProtErr"
      using assms(1) that
      by (auto simp: parse_data_block_def p Let_def result_code_def split: if_splits rc_parse_result_t.splits)
    have "0 < n \<or> header_weight E rs msg < header_weight E (rlp_state mb) (mb_msg mb)"
      if "r = kRCParseResPartialBlockProtErr"
      using parse_rlp_block_progress [OF p [unfolded that] rinv assms(4)] .
    with r n assms(3) header_weight_le [of E rs msg] show ?thesis
      by (auto simp: parse_weight_def mb')
  qed
qed

lemma locate_tcp_preamble_shrinks:
  assumes "locate_tcp_preamble E buf = (n, buf')"
  shows "length buf' \<le> length buf" and "n \<noteq> 0 \<Longrightarrow> 0 < ACN_TCP_PREAMBLE_SIZE E \<Longrightarrow> length buf' < length buf"
  using assms
  by (induction E buf rule: locate_tcp_preamble.induct) (auto split: if_splits option.splits)

lemma parse_data_step_inv:
  assumes "parse_data_step E alloc mb = Some (res, ret, mb')" and ok: "etcpal_ok E" and inv: "mb_inv E mb"
  shows "mb_inv E mb'" and "res = kEtcPalErrProtocol \<Longrightarrow> \<not> ret \<Longrightarrow> parse_weight E mb' < parse_weight E mb"
proof -
  have hdr: "0 < ACN_RLP_HEADER_SIZE_EXT_LEN E" "0 < ACN_TCP_PREAMBLE_SIZE E"
    using ok by (simp_all add: etcpal_ok_consts)
  have "mb_inv E mb' \<and> (res = kEtcPalErrProtocol \<longrightarrow> \<not> ret \<longrightarrow> parse_weight E mb' < parse_weight E mb)"
  proof (cases "have_preamble mb")
    case True
    then have "parse_data_block E alloc mb = Some (res, ret, mb')"
      using assms(1) by (simp add: parse_data_step_def)
    from parse_data_block_step [OF this inv True hdr(1)] show ?thesis by simp
  next
    case False
    obtain n buf where l: "locate_tcp_preamble E (mb_buf mb) = (n, buf)" by (metis prod.exhaust)
    note sh = locate_tcp_preamble_shrinks [OF l]
    show ?thesis
    proof (cases "n = 0")
      case True
      with assms(1) False l sh inv show ?thesis by (auto simp: parse_data_step_def mb_inv_def)
    next
      case n: False
      let ?mb = "mb\<lparr>mb_buf := buf, have_preamble := True, rlp_state := INIT_RLP_STATE n (rlp_state mb)\<rparr>"
      have "mb_inv E ?mb"
        using sh inv by (simp add: mb_inv_def rlp_inv_def INIT_RLP_STATE_def)
      moreover have "parse_data_block E alloc ?mb = Some (res, ret, mb')"
        using assms(1) False l n by (simp add: parse_data_step_def)
      ultimately have "mb_inv E mb' \<and> (res = kEtcPalErrProtocol \<longrightarrow> \<not> ret \<longrightarrow> parse_weight E mb' < parse_weight E ?mb)"
        using parse_data_block_step [of E alloc ?mb res ret mb'] hdr(1) by simp
      moreover have "parse_weight E ?mb < parse_weight E mb"
        using sh(2) [OF n hdr(2)] header_weight_le [of E "INIT_RLP_STATE n (rlp_state mb)" "mb_msg mb"] False
        by (simp add: parse_weight_def)
      ultimately show ?thesis by auto
    qed
  qed
  then show "mb_inv E mb'" "res = kEtcPalErrProtocol \<Longrightarrow> \<not> ret \<Longrightarrow> parse_weight E mb' < parse_weight E mb"
    by simp_all
qed

text \<open>One more iteration of the loop, and the outcome of the whole loop.\<close>

definition parse_again :: "etcpal \<Rightarrow> (nat \<Rightarrow> bool) \<Rightarrow> RCMsgBuf \<Rightarrow> RCMsgBuf \<Rightarrow> bool" where
  "parse_again E alloc mb mb' \<longleftrightarrow> parse_data_step E alloc mb = Some (kEtcPalErrProtocol, False, mb')"

lemma parse_data_step_code:
  assumes "parse_data_step E alloc mb = Some (res, ret, mb')"
  shows "res \<in> {kEtcPalErrOk, kEtcPalErrNoData, kEtcPalErrSys} \<or> res = kEtcPalErrProtocol \<and> \<not> ret"
  using assms
  by (auto simp: parse_data_step_def parse_data_block_def result_code_def bind_eq_Some_conv Let_def
      split: if_splits prod.splits rc_parse_result_t.splits)

lemma parse_data_loop:
  assumes "etcpal_ok E" and "mb_inv E mb"
    and "\<And>mb'. (parse_again E alloc)\<^sup>*\<^sup>* mb mb' \<Longrightarrow> parse_data_step E alloc mb' \<noteq> None"
  shows "\<exists>res mb'. rc_msg_buf_parse_data E alloc mb = Some (res, mb') \<and> mb_inv E mb' \<and>
    res \<in> {kEtcPalErrOk, kEtcPalErrNoData, kEtcPalErrSys}"
  using assms(2,3)
proof (induction "parse_weight E mb" arbitrary: mb rule: less_induct)
  case less
  obtain res ret mb1 where s: "parse_data_step E alloc mb = Some (res, ret, mb1)"
    using less.prems(2) [of mb] by (auto simp: not_None_eq split_paired_all)
  note inv = parse_data_step_inv [OF s assms(1) less.prems(1)]
  show ?case
  proof (cases "res = kEtcPalErrProtocol \<and> \<not> ret")
    case True
    then have again: "parse_again E alloc mb mb1" using s by (simp add: parse_again_def)
    have "\<exists>res mb'. rc_msg_buf_parse_data E alloc mb1 = Some (res, mb') \<and> mb_inv E mb' \<and>
      res \<in> {kEtcPalErrOk, kEtcPalErrNoData, kEtcPalErrSys}"
      using inv True less.prems(2) converse_rtranclp_into_rtranclp [of "parse_again E alloc", OF again]
      by (intro less.hyps) blast+
    then show ?thesis using s True by (simp add: rc_msg_buf_parse_data.simps [of E alloc mb])
  next
    case False
    with s inv parse_data_step_code [OF s] show ?thesis
      by (auto simp: rc_msg_buf_parse_data.simps [of E alloc mb])
  qed
qed

section \<open>A concrete buffer\<close>

text \<open>A blank message and an idle buffer, for concrete runs.\<close>

definition blank_uid :: RdmUid where
  "blank_uid = \<lparr>manu = 0, dev_id = 0\<rparr>"

definition blank_client_entry :: ClientEntry where
  "blank_client_entry = \<lparr>ce_client_protocol = kClientProtocolUnknown,
     ce_data = \<lparr>entry_rpt = blank_entry, entry_ept = \<lparr>ept_cid = [], ept_protocols = []\<rparr>\<rparr>\<rparr>"

definition blank_broker_message :: BrokerMessage where
  "blank_broker_message = \<lparr>bm_vector = 0,
     client_connect = \<lparr>cc_scope = [], cc_e133_version = 0, cc_search_domain = [], cc_connect_flags = 0,
       cc_client_entry = blank_client_entry\<rparr>,
     connect_reply = \<lparr>cr_connect_status = 0, cr_e133_version = 0, cr_broker_uid = blank_uid, cr_client_uid = blank_uid\<rparr>,
     client_entry_update = \<lparr>ceu_connect_flags = 0, ceu_client_entry = blank_client_entry\<rparr>,
     client_redirect = \<lparr>redirect_ip = IpV4 0, redirect_port = 0\<rparr>,
     client_list = \<lparr>cl_client_protocol = kClientProtocolUnknown, cl_rpt = empty_list\<rparr>,
     dynamic_uid_request_list = empty_list, dynamic_uid_assignment_list = empty_list,
     fetch_uid_assignment_list = empty_list, disconnect_reason = 0\<rparr>"

definition blank_rpt_header :: RptHeader where
  "blank_rpt_header = \<lparr>source_uid = blank_uid, source_endpoint_id = 0, dest_uid = blank_uid, dest_endpoint_id = 0,
     seqnum = 0\<rparr>"

definition blank_message :: RdmnetMessage where
  "blank_message = \<lparr>msg_vector = 0, sender_cid = [], msg_broker = blank_broker_message,
     msg_rpt = \<lparr>rm_vector = 0, rm_header = blank_rpt_header, rm_status = \<lparr>status_code = 0, status_string = None\<rparr>,
       rm_rdm = empty_list\<rparr>\<rparr>"

definition blank_rlp_state :: RlpState where
  "blank_rlp_state =
     (let b = INIT_PDU_BLOCK_STATE 0;
          e = \<lparr>enclosing_block_size = 0, parsed_entry_header = False, ces_client_protocol = kClientProtocolUnknown,
               entry_data = b\<rparr>;
          c = \<lparr>pdu_data_size = 0, common_data_parsed = False, cc_entry = e\<rparr> in
      \<lparr>rlp_block = b,
       rlp_broker = \<lparr>bs_block = b, bs_data_list = INIT_GENERIC_LIST_STATE 0,
         bs_client_list = \<lparr>cl_block = b, cl_entry = e\<rparr>, bs_client_connect = c, bs_update = c, bs_unknown = b\<rparr>,
       rlp_rpt = \<lparr>rs_block = b, rs_rdm_list = INIT_RDM_LIST_STATE 0, rs_status = b, rs_unknown = b\<rparr>,
       rlp_unknown = b\<rparr>)"

definition idle_buf :: RCMsgBuf where
  "idle_buf = \<lparr>mb_buf = [], mb_msg = blank_message, have_preamble = False, rlp_state = blank_rlp_state\<rparr>"

end
