(* ===== verification/Packing.thy ===== *)
theory Packing
  imports Messages
begin

text \<open>
  What the packing and sending code of \<^verbatim>\<open>src/rdmnet/core/broker_prot.c\<close> and \<^verbatim>\<open>rpt_prot.c\<close> has in
  common: the TCP preamble and root layer header, UIDs, and sending a message in segments.

  A packing function gives the bytes it writes to its buffer, the empty list standing for the
  return value 0. A sending function is a list of segments, packed one after the other into a small
  buffer and handed to \<^verbatim>\<open>rc_send\<close>; an empty segment stands for one that could not be packed.
\<close>

section \<open>Fields\<close>

definition pack_pdu_length :: "etcpal \<Rightarrow> nat \<Rightarrow> bytes" where
  "pack_pdu_length E n = ACN_PDU_PACK_EXT_LEN E 0xf0 n"

definition pack_uid :: "etcpal \<Rightarrow> RdmUid \<Rightarrow> bytes" where
  "pack_uid E u = pack_u16b E (manu u) @ pack_u32b E (dev_id u)"

definition rlp_pdu :: "EtcPalUuid \<Rightarrow> u32 \<Rightarrow> nat \<Rightarrow> AcnRootLayerPdu" where
  "rlp_pdu cid v n = \<lparr>rlp_sender_cid = cid, rlp_vector = v, rlp_data_len = n\<rparr>"

text \<open>
  The two segments every message starts with, and their concatenation, empty if one of them could
  not be packed.
\<close>

definition preamble_segments :: "etcpal \<Rightarrow> AcnRootLayerPdu \<Rightarrow> bytes list" where
  "preamble_segments E rlp =
     [if acn_root_layer_buf_size E rlp = 0 then []
      else acn_pack_tcp_preamble E (acn_root_layer_buf_size E rlp),
      acn_pack_root_layer_header E rlp]"

definition pack_segments :: "bytes list \<Rightarrow> bytes" where
  "pack_segments segs = (if [] \<in> set segs then [] else concat segs)"

section \<open>Sending\<close>

text \<open>
  \<^verbatim>\<open>etcpal_send\<close> is a parameter \<open>send\<close>: in socket state \<open>s\<close> it takes some of the bytes and says how
  many, or gives an error. \<^verbatim>\<open>rc_send\<close> of \<^verbatim>\<open>src/rdmnet/core/common.c\<close> repeats it while it would block;
  the result is \<^const>\<open>None\<close> if that never ends.
\<close>

partial_function (option) rc_send ::
  "('s \<Rightarrow> bytes \<Rightarrow> (etcpal_error_t + nat) \<times> 's) \<Rightarrow> 's \<Rightarrow> bytes \<Rightarrow> ((etcpal_error_t + nat) \<times> 's) option" where
  "rc_send send s msg =
     (case send s msg of
        (res, s') \<Rightarrow> if res = Inl kEtcPalErrWouldBlock then rc_send send s' msg else Some (res, s'))"

text \<open>
  The segments are sent in turn; a segment that could not be packed ends the call with
  \<^const>\<open>kEtcPalErrProtocol\<close>, an error of \<^verbatim>\<open>rc_send\<close> with that error. The number of bytes taken is not
  looked at.
\<close>

fun send_segments ::
  "('s \<Rightarrow> bytes \<Rightarrow> (etcpal_error_t + nat) \<times> 's) \<Rightarrow> 's \<Rightarrow> bytes list \<Rightarrow> (etcpal_error_t \<times> 's) option" where
  "send_segments send s [] = Some (kEtcPalErrOk, s)"
| "send_segments send s (seg # segs) =
     (if seg = [] then Some (kEtcPalErrProtocol, s)
      else case rc_send send s seg of
        None \<Rightarrow> None
      | Some (Inl e, s') \<Rightarrow> Some (e, s')
      | Some (Inr _, s') \<Rightarrow> send_segments send s' segs)"

text \<open>One piece is sent; an error of \<^verbatim>\<open>rc_send\<close> ends the call, otherwise it goes on.\<close>

definition send_piece ::
  "('s \<Rightarrow> bytes \<Rightarrow> (etcpal_error_t + nat) \<times> 's) \<Rightarrow> 's \<Rightarrow> bytes \<Rightarrow> ('s \<Rightarrow> (etcpal_error_t \<times> 's) option)
   \<Rightarrow> (etcpal_error_t \<times> 's) option" where
  "send_piece send s buf go_on =
     (case rc_send send s buf of
        None \<Rightarrow> None
      | Some (Inl e, s') \<Rightarrow> Some (e, s')
      | Some (Inr _, s') \<Rightarrow> go_on s')"

section \<open>Sending and packing agree\<close>

text \<open>A stream that takes everything it is given.\<close>

definition stream_send :: "bytes \<Rightarrow> bytes \<Rightarrow> (etcpal_error_t + nat) \<times> bytes" where
  "stream_send s msg = (Inr (length msg), s @ msg)"

lemma rc_send_stream [simp]: "rc_send stream_send s msg = Some (Inr (length msg), s @ msg)"
  by (simp add: rc_send.simps stream_send_def)

lemma send_segments_stream:
  "[] \<notin> set segs \<Longrightarrow> send_segments stream_send s segs = Some (kEtcPalErrOk, s @ pack_segments segs)"
  by (induction segs arbitrary: s) (auto simp: pack_segments_def)

lemma pack_segments_nonempty: "[] \<notin> set segs \<Longrightarrow> pack_segments segs = concat segs"
  by (simp add: pack_segments_def)

text \<open>A stream that takes one byte at a time: the rest of every segment is lost.\<close>

definition short_send :: "bytes \<Rightarrow> bytes \<Rightarrow> (etcpal_error_t + nat) \<times> bytes" where
  "short_send s msg = (Inr 1, s @ take 1 msg)"

lemma send_segments_short:
  "[] \<notin> set segs \<Longrightarrow> send_segments short_send s segs = Some (kEtcPalErrOk, s @ map hd segs)"
  by (induction segs arbitrary: s) (auto simp: rc_send.simps short_send_def take_Suc)

lemma preamble_segments_ok:
  assumes "etcpal_ok E" and "length (rlp_sender_cid rlp) = 16" and "rlp_data_len rlp + 23 < 2 ^ 20"
  shows "preamble_segments E rlp =
      [acn_pack_tcp_preamble E (23 + rlp_data_len rlp), acn_pack_root_layer_header E rlp]"
    and "[] \<notin> set (preamble_segments E rlp)"
  using assms etcpal_ok_root(2) [OF assms] etcpal_ok_fields(9) [OF assms(1), of "23 + rlp_data_len rlp"]
  by (auto simp: preamble_segments_def etcpal_ok_fields(11))

lemma length_pack_uid [simp]: "etcpal_ok E \<Longrightarrow> length (pack_uid E u) = 6"
  by (simp add: pack_uid_def etcpal_simps)

lemma length_pack_pdu_length [simp]: "etcpal_ok E \<Longrightarrow> length (pack_pdu_length E n) = 3"
  by (simp add: pack_pdu_length_def etcpal_simps)

end
