(* ===== verification/Rpt_Prot.thy ===== *)
theory Rpt_Prot
  imports Packing
begin

text \<open>
  Packing and sending RPT messages: \<^verbatim>\<open>src/rdmnet/core/rpt_prot.c\<close>. Every \<^verbatim>\<open>rc_rpt_pack_\<dots>\<close> function takes
  the size of the buffer it is given; every \<^verbatim>\<open>rc_rpt_send_\<dots>\<close> function the socket.
\<close>

section \<open>Headers and sizes\<close>

definition pack_rpt_header :: "etcpal \<Rightarrow> nat \<Rightarrow> u32 \<Rightarrow> RptHeader \<Rightarrow> bytes" where
  "pack_rpt_header E len v h =
     pack_pdu_length E len @ pack_u32b E v @
     pack_uid E (source_uid h) @ pack_u16b E (source_endpoint_id h) @
     pack_uid E (dest_uid h) @ pack_u16b E (dest_endpoint_id h) @ pack_u32b E (seqnum h) @ [0]"

definition pack_rpt_header_with_rlp :: "etcpal \<Rightarrow> AcnRootLayerPdu \<Rightarrow> u32 \<Rightarrow> RptHeader \<Rightarrow> bytes" where
  "pack_rpt_header_with_rlp E rlp v h =
     (let data_size = acn_root_layer_buf_size E rlp; preamble = acn_pack_tcp_preamble E data_size;
          root = acn_pack_root_layer_header E rlp in
      if data_size = 0 then []
      else if preamble = [] then []
      else if root = [] then []
      else preamble @ root @ pack_rpt_header E (rlp_data_len rlp) v h)"

definition send_rpt_header ::
  "etcpal \<Rightarrow> ('s \<Rightarrow> bytes \<Rightarrow> (etcpal_error_t + nat) \<times> 's) \<Rightarrow> 's \<Rightarrow> AcnRootLayerPdu \<Rightarrow> u32 \<Rightarrow> RptHeader
   \<Rightarrow> (etcpal_error_t \<times> 's) option" where
  "send_rpt_header E send s rlp v h =
     (let data_size = acn_root_layer_buf_size E rlp in
      if data_size = 0 then Some (kEtcPalErrProtocol, s)
      else
        (let buf = acn_pack_tcp_preamble E data_size in
         if buf = [] then Some (kEtcPalErrProtocol, s)
         else send_piece send s buf (\<lambda>s1.
           let buf = acn_pack_root_layer_header E rlp in
           if buf = [] then Some (kEtcPalErrProtocol, s1)
           else send_piece send s1 buf (\<lambda>s2.
             send_piece send s2 (pack_rpt_header E (rlp_data_len rlp) v h) (\<lambda>s3. Some (kEtcPalErrOk, s3))))))"

definition RPT_PDU_FULL_HEADER_SIZE :: "etcpal \<Rightarrow> nat" where
  "RPT_PDU_FULL_HEADER_SIZE E = RPT_PDU_HEADER_SIZE + ACN_RLP_HEADER_SIZE_EXT_LEN E + ACN_TCP_PREAMBLE_SIZE E"

definition RDM_CMD_PDU_LEN :: "RdmBuffer \<Rightarrow> nat" where
  "RDM_CMD_PDU_LEN cmd = length cmd + 3"

text \<open>
  The first byte of the command, the RDM start code, is not copied but written as a constant. Every
  RDM command has that byte; the copy length of the code, \<^verbatim>\<open>data_len - 1\<close>, is only meaningful then.
\<close>

definition PACK_RDM_CMD_PDU :: "etcpal \<Rightarrow> RdmBuffer \<Rightarrow> bytes" where
  "PACK_RDM_CMD_PDU E cmd = pack_pdu_length E (RDM_CMD_PDU_LEN cmd) @ VECTOR_RDM_CMD_RDM_DATA # tl cmd"

definition PACK_REQUEST_HEADER :: "etcpal \<Rightarrow> nat \<Rightarrow> bytes" where
  "PACK_REQUEST_HEADER E len = pack_pdu_length E len @ pack_u32b E VECTOR_REQUEST_RDM_CMD"

definition PACK_NOTIFICATION_HEADER :: "etcpal \<Rightarrow> nat \<Rightarrow> bytes" where
  "PACK_NOTIFICATION_HEADER E len = pack_pdu_length E len @ pack_u32b E VECTOR_NOTIFICATION_RDM_CMD"

definition PACK_STATUS_HEADER :: "etcpal \<Rightarrow> nat \<Rightarrow> u16 \<Rightarrow> bytes" where
  "PACK_STATUS_HEADER E len v = pack_pdu_length E len @ pack_u16b E v"

section \<open>Request\<close>

definition calc_request_pdu_size :: "RdmBuffer \<Rightarrow> nat" where
  "calc_request_pdu_size cmd = REQUEST_NOTIF_PDU_HEADER_SIZE + RDM_CMD_PDU_LEN cmd"

definition rc_rpt_get_request_buffer_size :: "etcpal \<Rightarrow> RdmBuffer \<Rightarrow> nat" where
  "rc_rpt_get_request_buffer_size E cmd = RPT_PDU_FULL_HEADER_SIZE E + calc_request_pdu_size cmd"

definition rc_rpt_pack_request :: "etcpal \<Rightarrow> nat \<Rightarrow> EtcPalUuid \<Rightarrow> RptHeader \<Rightarrow> RdmBuffer \<Rightarrow> bytes" where
  "rc_rpt_pack_request E buflen local_cid h cmd =
     (if buflen < rc_rpt_get_request_buffer_size E cmd then []
      else
        (let size = calc_request_pdu_size cmd;
             hdr = pack_rpt_header_with_rlp E
               (rlp_pdu local_cid (ACN_VECTOR_ROOT_RPT E) (RPT_PDU_HEADER_SIZE + size)) VECTOR_RPT_REQUEST h in
         if hdr = [] then [] else hdr @ PACK_REQUEST_HEADER E size @ PACK_RDM_CMD_PDU E cmd))"

definition rc_rpt_send_request ::
  "etcpal \<Rightarrow> ('s \<Rightarrow> bytes \<Rightarrow> (etcpal_error_t + nat) \<times> 's) \<Rightarrow> 's \<Rightarrow> EtcPalUuid \<Rightarrow> RptHeader \<Rightarrow> RdmBuffer
   \<Rightarrow> (etcpal_error_t \<times> 's) option" where
  "rc_rpt_send_request E send s local_cid h cmd =
     (let rlp = rlp_pdu local_cid (ACN_VECTOR_ROOT_RPT E) (RPT_PDU_HEADER_SIZE + calc_request_pdu_size cmd) in
      do {
        (res, s1) \<leftarrow> send_rpt_header E send s rlp VECTOR_RPT_REQUEST h;
        if res \<noteq> kEtcPalErrOk then Some (res, s1)
        else send_piece send s1 (PACK_REQUEST_HEADER E (rlp_data_len rlp - RPT_PDU_HEADER_SIZE)) (\<lambda>s2.
          send_piece send s2 (PACK_RDM_CMD_PDU E cmd) (\<lambda>s3. Some (kEtcPalErrOk, s3)))
      })"

section \<open>Status\<close>

definition calc_status_pdu_size :: "RptStatusMsg \<Rightarrow> nat" where
  "calc_status_pdu_size status =
     RPT_STATUS_HEADER_SIZE + (case status_string status of None \<Rightarrow> 0 | Some str \<Rightarrow> length str)"

definition rc_rpt_get_status_buffer_size :: "etcpal \<Rightarrow> RptStatusMsg \<Rightarrow> nat" where
  "rc_rpt_get_status_buffer_size E status = RPT_PDU_FULL_HEADER_SIZE E + calc_status_pdu_size status"

definition status_string_bytes :: "RptStatusMsg \<Rightarrow> bytes" where
  "status_string_bytes status = (case status_string status of None \<Rightarrow> [] | Some str \<Rightarrow> str)"

definition rc_rpt_pack_status :: "etcpal \<Rightarrow> nat \<Rightarrow> EtcPalUuid \<Rightarrow> RptHeader \<Rightarrow> RptStatusMsg \<Rightarrow> bytes" where
  "rc_rpt_pack_status E buflen local_cid h status =
     (if buflen < rc_rpt_get_status_buffer_size E status then []
      else
        (let size = calc_status_pdu_size status;
             hdr = pack_rpt_header_with_rlp E
               (rlp_pdu local_cid (ACN_VECTOR_ROOT_RPT E) (RPT_PDU_HEADER_SIZE + size)) VECTOR_RPT_STATUS h in
         if hdr = [] then []
         else hdr @ PACK_STATUS_HEADER E size (status_code status) @
           (if size > RPT_STATUS_HEADER_SIZE then status_string_bytes status else [])))"

definition rc_rpt_send_status ::
  "etcpal \<Rightarrow> ('s \<Rightarrow> bytes \<Rightarrow> (etcpal_error_t + nat) \<times> 's) \<Rightarrow> 's \<Rightarrow> EtcPalUuid \<Rightarrow> RptHeader \<Rightarrow> RptStatusMsg
   \<Rightarrow> (etcpal_error_t \<times> 's) option" where
  "rc_rpt_send_status E send s local_cid h status =
     (let size = calc_status_pdu_size status;
          rlp = rlp_pdu local_cid (ACN_VECTOR_ROOT_RPT E) (RPT_PDU_HEADER_SIZE + size) in
      do {
        (res, s1) \<leftarrow> send_rpt_header E send s rlp VECTOR_RPT_STATUS h;
        if res \<noteq> kEtcPalErrOk then Some (res, s1)
        else send_piece send s1 (PACK_STATUS_HEADER E size (status_code status)) (\<lambda>s2.
          if size > RPT_STATUS_HEADER_SIZE
          then send_piece send s2 (status_string_bytes status) (\<lambda>s3. Some (kEtcPalErrOk, s3))
          else Some (kEtcPalErrOk, s2))
      })"

section \<open>Notification\<close>

definition calc_notification_pdu_size :: "RdmBuffer list \<Rightarrow> nat" where
  "calc_notification_pdu_size cmds =
     foldl (\<lambda>res cmd. res + RDM_CMD_PDU_LEN cmd) REQUEST_NOTIF_PDU_HEADER_SIZE cmds"

definition rc_rpt_get_notification_buffer_size :: "etcpal \<Rightarrow> RdmBuffer list \<Rightarrow> nat" where
  "rc_rpt_get_notification_buffer_size E cmds = RPT_PDU_FULL_HEADER_SIZE E + calc_notification_pdu_size cmds"

definition rc_rpt_pack_notification ::
  "etcpal \<Rightarrow> nat \<Rightarrow> EtcPalUuid \<Rightarrow> RptHeader \<Rightarrow> RdmBuffer list \<Rightarrow> bytes" where
  "rc_rpt_pack_notification E buflen local_cid h cmds =
     (if cmds = [] \<or> buflen < rc_rpt_get_notification_buffer_size E cmds then []
      else
        (let size = calc_notification_pdu_size cmds;
             hdr = pack_rpt_header_with_rlp E
               (rlp_pdu local_cid (ACN_VECTOR_ROOT_RPT E) (RPT_PDU_HEADER_SIZE + size)) VECTOR_RPT_NOTIFICATION h in
         if hdr = [] then []
         else hdr @ PACK_NOTIFICATION_HEADER E size @ concat (map (PACK_RDM_CMD_PDU E) cmds)))"

fun send_rdm_cmds ::
  "etcpal \<Rightarrow> ('s \<Rightarrow> bytes \<Rightarrow> (etcpal_error_t + nat) \<times> 's) \<Rightarrow> 's \<Rightarrow> RdmBuffer list \<Rightarrow> (etcpal_error_t \<times> 's) option" where
  "send_rdm_cmds E send s [] = Some (kEtcPalErrOk, s)"
| "send_rdm_cmds E send s (cmd # cmds) = send_piece send s (PACK_RDM_CMD_PDU E cmd) (\<lambda>s'. send_rdm_cmds E send s' cmds)"

definition rc_rpt_send_notification ::
  "etcpal \<Rightarrow> ('s \<Rightarrow> bytes \<Rightarrow> (etcpal_error_t + nat) \<times> 's) \<Rightarrow> 's \<Rightarrow> EtcPalUuid \<Rightarrow> RptHeader \<Rightarrow> RdmBuffer list
   \<Rightarrow> (etcpal_error_t \<times> 's) option" where
  "rc_rpt_send_notification E send s local_cid h cmds =
     (if cmds = [] then Some (kEtcPalErrInvalid, s)
      else
        (let size = calc_notification_pdu_size cmds;
             rlp = rlp_pdu local_cid (ACN_VECTOR_ROOT_RPT E) (RPT_PDU_HEADER_SIZE + size) in
         do {
           (res, s1) \<leftarrow> send_rpt_header E send s rlp VECTOR_RPT_NOTIFICATION h;
           if res \<noteq> kEtcPalErrOk then Some (res, s1)
           else send_piece send s1 (PACK_NOTIFICATION_HEADER E size) (\<lambda>s2. send_rdm_cmds E send s2 cmds)
         }))"

section \<open>Sending piece by piece\<close>

text \<open>A header that is sent is the header that is packed; a header that cannot be packed is not sent.\<close>

lemma send_rpt_header_stream:
  "pack_rpt_header_with_rlp E rlp v h \<noteq> [] \<Longrightarrow>
    send_rpt_header E stream_send s rlp v h = Some (kEtcPalErrOk, s @ pack_rpt_header_with_rlp E rlp v h)"
  by (auto simp: send_rpt_header_def pack_rpt_header_with_rlp_def send_piece_def Let_def split: if_split_asm)

lemma send_rdm_cmds_stream:
  "send_rdm_cmds E stream_send s cmds = Some (kEtcPalErrOk, s @ concat (map (PACK_RDM_CMD_PDU E) cmds))"
  by (induction cmds arbitrary: s) (simp_all add: send_piece_def)

text \<open>On a stream that takes one byte at a time, one byte of each piece.\<close>

lemma send_piece_short: "buf \<noteq> [] \<Longrightarrow> send_piece short_send s buf go_on = go_on (s @ [hd buf])"
  by (simp add: send_piece_def rc_send.simps short_send_def take_Suc)

lemma send_rpt_header_short:
  assumes "pack_rpt_header_with_rlp E rlp v h \<noteq> []"
  shows "\<exists>d. send_rpt_header E short_send s rlp v h = Some (kEtcPalErrOk, s @ d) \<and> length d = 3"
proof -
  have "pack_rpt_header E (rlp_data_len rlp) v h \<noteq> []" by (simp add: pack_rpt_header_def)
  then show ?thesis using assms
    by (auto simp: send_rpt_header_def pack_rpt_header_with_rlp_def send_piece_short Let_def split: if_split_asm)
qed

lemma send_rdm_cmds_short:
  "\<exists>d. send_rdm_cmds E short_send s cmds = Some (kEtcPalErrOk, s @ d) \<and> length d = length cmds"
proof (induction cmds arbitrary: s)
  case (Cons cmd cmds)
  have "PACK_RDM_CMD_PDU E cmd \<noteq> []" by (simp add: PACK_RDM_CMD_PDU_def)
  with Cons [of "s @ [hd (PACK_RDM_CMD_PDU E cmd)]"] show ?case by (auto simp: send_piece_short)
qed simp

lemma calc_notification_pdu_size_sum:
  "calc_notification_pdu_size cmds = REQUEST_NOTIF_PDU_HEADER_SIZE + sum_list (map RDM_CMD_PDU_LEN cmds)"
proof -
  have "foldl (\<lambda>res cmd. res + RDM_CMD_PDU_LEN cmd) n cmds = n + sum_list (map RDM_CMD_PDU_LEN cmds)" for n
    by (induction cmds arbitrary: n) simp_all
  then show ?thesis by (simp add: calc_notification_pdu_size_def)
qed

end
