(* ===== verification/Broker_Prot.thy ===== *)
theory Broker_Prot
  imports Packing
begin

unbundle bit_operations_syntax

text \<open>
  Packing and sending broker messages: \<^verbatim>\<open>src/rdmnet/core/broker_prot.c\<close>. The connection argument of
  the sending functions is reduced to its socket and its CID; resetting the send timer of the
  connection is not part of this model.
\<close>

section \<open>Header\<close>

definition PACK_BROKER_HEADER :: "etcpal \<Rightarrow> nat \<Rightarrow> u16 \<Rightarrow> bytes" where
  "PACK_BROKER_HEADER E len v = pack_pdu_length E len @ pack_u16b E v"

definition broker_header_segments :: "etcpal \<Rightarrow> AcnRootLayerPdu \<Rightarrow> u16 \<Rightarrow> bytes list" where
  "broker_header_segments E rlp v = preamble_segments E rlp @ [PACK_BROKER_HEADER E (rlp_data_len rlp) v]"

definition pack_broker_header_with_rlp :: "etcpal \<Rightarrow> AcnRootLayerPdu \<Rightarrow> u16 \<Rightarrow> bytes" where
  "pack_broker_header_with_rlp E rlp v = pack_segments (broker_header_segments E rlp v)"

definition send_broker_header ::
  "etcpal \<Rightarrow> ('s \<Rightarrow> bytes \<Rightarrow> (etcpal_error_t + nat) \<times> 's) \<Rightarrow> 's \<Rightarrow> AcnRootLayerPdu \<Rightarrow> u16
   \<Rightarrow> (etcpal_error_t \<times> 's) option" where
  "send_broker_header E send s rlp v = send_segments send s (broker_header_segments E rlp v)"

definition broker_rlp :: "etcpal \<Rightarrow> EtcPalUuid \<Rightarrow> nat \<Rightarrow> AcnRootLayerPdu" where
  "broker_rlp E cid n = rlp_pdu cid (ACN_VECTOR_ROOT_BROKER E) n"

definition BROKER_PDU_FULL_HEADER_SIZE :: "etcpal \<Rightarrow> nat" where
  "BROKER_PDU_FULL_HEADER_SIZE E =
     BROKER_PDU_HEADER_SIZE + ACN_RLP_HEADER_SIZE_EXT_LEN E + ACN_TCP_PREAMBLE_SIZE E"

section \<open>Client connect\<close>

definition calc_client_connect_len :: "BrokerClientConnectMsg \<Rightarrow> nat" where
  "calc_client_connect_len m =
     (let ce = cc_client_entry m; res = BROKER_PDU_HEADER_SIZE + CLIENT_CONNECT_DATA_MIN_SIZE in
      if ce_client_protocol ce = kClientProtocolRPT then res + RPT_CLIENT_ENTRY_DATA_SIZE
      else if ce_client_protocol ce = kClientProtocolEPT
      then res + EPT_PROTOCOL_ENTRY_SIZE * length (ept_protocols (entry_ept (ce_data ce)))
      else 0)"

definition PACK_CLIENT_ENTRY_HEADER :: "etcpal \<Rightarrow> nat \<Rightarrow> u32 \<Rightarrow> EtcPalUuid \<Rightarrow> bytes" where
  "PACK_CLIENT_ENTRY_HEADER E len v cid = pack_pdu_length E len @ pack_u32b E v @ cid"

definition pack_rpt_entry_data :: "etcpal \<Rightarrow> RdmnetRptClientEntry \<Rightarrow> bytes" where
  "pack_rpt_entry_data E ce = pack_uid E (ce_uid ce) @ ucast (ce_type ce) # ce_binding_cid ce"

definition client_connect_common :: "etcpal \<Rightarrow> BrokerClientConnectMsg \<Rightarrow> bytes" where
  "client_connect_common E m =
     rdmnet_safe_strncpy (cc_scope m) E133_SCOPE_STRING_PADDED_LENGTH @ pack_u16b E (cc_e133_version m) @
     rdmnet_safe_strncpy (cc_search_domain m) E133_DOMAIN_STRING_PADDED_LENGTH @ [cc_connect_flags m]"

definition pack_ept_protocol :: "etcpal \<Rightarrow> RdmnetEptSubProtocol \<Rightarrow> bytes" where
  "pack_ept_protocol E p =
     pack_u16b E (sp_manufacturer_id p) @ pack_u16b E (sp_protocol_id p) @
     rdmnet_safe_strncpy (sp_protocol_string p) EPT_PROTOCOL_STRING_PADDED_LENGTH"

text \<open>
  The code sends the header of the client entry without looking at the result of that send.
\<close>

definition rc_broker_send_client_connect ::
  "etcpal \<Rightarrow> ('s \<Rightarrow> bytes \<Rightarrow> (etcpal_error_t + nat) \<times> 's) \<Rightarrow> 's \<Rightarrow> EtcPalUuid \<Rightarrow> BrokerClientConnectMsg
   \<Rightarrow> (etcpal_error_t \<times> 's) option" where
  "rc_broker_send_client_connect E send s local_cid m =
     (let ce = cc_client_entry m; rpt = entry_rpt (ce_data ce); ept = entry_ept (ce_data ce);
          is_rpt = (ce_client_protocol ce = kClientProtocolRPT);
          rlp = broker_rlp E local_cid (calc_client_connect_len m) in
      if \<not> is_rpt \<and> ce_client_protocol ce \<noteq> kClientProtocolEPT then Some (kEtcPalErrProtocol, s)
      else do {
        (res, s1) \<leftarrow> send_segments send s
          (broker_header_segments E rlp VECTOR_BROKER_CONNECT @ [client_connect_common E m]);
        if res \<noteq> kEtcPalErrOk then Some (res, s1)
        else do {
          (_, s2) \<leftarrow> rc_send send s1
            (PACK_CLIENT_ENTRY_HEADER E (rlp_data_len rlp - (BROKER_PDU_HEADER_SIZE + CLIENT_CONNECT_COMMON_FIELD_SIZE))
               (ce_client_protocol ce) (if is_rpt then ce_cid rpt else ept_cid ept));
          send_segments send s2
            (if is_rpt then [pack_rpt_entry_data E rpt] else map (pack_ept_protocol E) (ept_protocols ept))
        }
      })"

section \<open>Connect reply\<close>

definition pack_connect_reply_data :: "etcpal \<Rightarrow> BrokerConnectReplyMsg \<Rightarrow> bytes" where
  "pack_connect_reply_data E m =
     pack_u16b E (cr_connect_status m) @ pack_u16b E (cr_e133_version m) @
     pack_uid E (cr_broker_uid m) @ pack_uid E (cr_client_uid m)"

definition rc_broker_pack_connect_reply :: "etcpal \<Rightarrow> nat \<Rightarrow> EtcPalUuid \<Rightarrow> BrokerConnectReplyMsg \<Rightarrow> bytes" where
  "rc_broker_pack_connect_reply E buflen local_cid m =
     (if buflen < BROKER_PDU_FULL_HEADER_SIZE E + BROKER_CONNECT_REPLY_DATA_SIZE then []
      else
        (let hdr = pack_broker_header_with_rlp E
               (broker_rlp E local_cid (BROKER_PDU_HEADER_SIZE + BROKER_CONNECT_REPLY_DATA_SIZE))
               VECTOR_BROKER_CONNECT_REPLY in
         if hdr = [] then [] else hdr @ pack_connect_reply_data E m))"

section \<open>Client lists\<close>

definition rc_broker_send_fetch_client_list ::
  "etcpal \<Rightarrow> ('s \<Rightarrow> bytes \<Rightarrow> (etcpal_error_t + nat) \<times> 's) \<Rightarrow> 's \<Rightarrow> EtcPalUuid \<Rightarrow> (etcpal_error_t \<times> 's) option" where
  "rc_broker_send_fetch_client_list E send s local_cid =
     send_broker_header E send s (broker_rlp E local_cid BROKER_PDU_HEADER_SIZE) VECTOR_BROKER_FETCH_CLIENT_LIST"

definition rc_broker_get_rpt_client_list_buffer_size :: "etcpal \<Rightarrow> nat \<Rightarrow> nat" where
  "rc_broker_get_rpt_client_list_buffer_size E num = BROKER_PDU_FULL_HEADER_SIZE E + num * RPT_CLIENT_ENTRY_SIZE"

definition pack_rpt_client_entry :: "etcpal \<Rightarrow> RdmnetRptClientEntry \<Rightarrow> bytes" where
  "pack_rpt_client_entry E ce =
     PACK_CLIENT_ENTRY_HEADER E RPT_CLIENT_ENTRY_SIZE kClientProtocolRPT (ce_cid ce) @ pack_rpt_entry_data E ce"

text \<open>
  The loop that packs elements of a fixed size after \<open>used\<close> bytes: it gives up, returning 0, when the
  next one does not fit into the buffer.
\<close>

fun pack_elements :: "nat \<Rightarrow> nat \<Rightarrow> ('a \<Rightarrow> bytes) \<Rightarrow> nat \<Rightarrow> 'a list \<Rightarrow> bytes option" where
  "pack_elements buflen sz pack used [] = Some []"
| "pack_elements buflen sz pack used (x # xs) =
     (if used + sz > buflen then None
      else map_option (\<lambda>r. pack x @ r) (pack_elements buflen sz pack (used + sz) xs))"

definition rc_broker_pack_rpt_client_list ::
  "etcpal \<Rightarrow> nat \<Rightarrow> EtcPalUuid \<Rightarrow> u16 \<Rightarrow> RdmnetRptClientEntry list \<Rightarrow> bytes" where
  "rc_broker_pack_rpt_client_list E buflen local_cid v ces =
     (if buflen < BROKER_PDU_FULL_HEADER_SIZE E \<or> ces = [] \<or>
         (v \<noteq> VECTOR_BROKER_CONNECTED_CLIENT_LIST \<and> v \<noteq> VECTOR_BROKER_CLIENT_ADD \<and>
          v \<noteq> VECTOR_BROKER_CLIENT_REMOVE \<and> v \<noteq> VECTOR_BROKER_CLIENT_ENTRY_CHANGE) then []
      else
        (let hdr = pack_broker_header_with_rlp E
               (broker_rlp E local_cid (BROKER_PDU_HEADER_SIZE + length ces * RPT_CLIENT_ENTRY_SIZE)) v in
         if hdr = [] then []
         else case pack_elements buflen RPT_CLIENT_ENTRY_SIZE (pack_rpt_client_entry E) (length hdr) ces of
           None \<Rightarrow> [] | Some d \<Rightarrow> hdr @ d))"

text \<open>Packing a list of EPT clients is left to do in the code: the function returns 0.\<close>

definition rc_broker_pack_ept_client_list ::
  "etcpal \<Rightarrow> nat \<Rightarrow> EtcPalUuid \<Rightarrow> u16 \<Rightarrow> RdmnetEptClientEntry list \<Rightarrow> bytes" where
  "rc_broker_pack_ept_client_list E buflen local_cid v ces = []"

section \<open>Dynamic UIDs\<close>

definition pack_request :: "etcpal \<Rightarrow> u16 \<Rightarrow> EtcPalUuid \<Rightarrow> bytes" where
  "pack_request E manufacturer_id rid = pack_u16b E (manufacturer_id OR 0x8000) @ pack_u32b E 0 @ rid"

definition rc_broker_send_request_dynamic_uids ::
  "etcpal \<Rightarrow> ('s \<Rightarrow> bytes \<Rightarrow> (etcpal_error_t + nat) \<times> 's) \<Rightarrow> 's \<Rightarrow> EtcPalUuid \<Rightarrow> u16 \<Rightarrow> EtcPalUuid list
   \<Rightarrow> (etcpal_error_t \<times> 's) option" where
  "rc_broker_send_request_dynamic_uids E send s local_cid manufacturer_id rids =
     (if rids = [] then Some (kEtcPalErrInvalid, s)
      else send_segments send s
        (broker_header_segments E
           (broker_rlp E local_cid (BROKER_PDU_HEADER_SIZE + length rids * DYNAMIC_UID_REQUEST_PAIR_SIZE))
           VECTOR_BROKER_REQUEST_DYNAMIC_UIDS @ map (pack_request E manufacturer_id) rids))"

definition rc_broker_get_uid_assignment_list_buffer_size :: "etcpal \<Rightarrow> nat \<Rightarrow> nat" where
  "rc_broker_get_uid_assignment_list_buffer_size E num =
     BROKER_PDU_FULL_HEADER_SIZE E + num * DYNAMIC_UID_MAPPING_SIZE"

definition pack_mapping :: "etcpal \<Rightarrow> RdmnetDynamicUidMapping \<Rightarrow> bytes" where
  "pack_mapping E m = pack_uid E (map_uid m) @ map_rid m @ pack_u16b E (map_status_code m)"

definition rc_broker_pack_uid_assignment_list ::
  "etcpal \<Rightarrow> nat \<Rightarrow> EtcPalUuid \<Rightarrow> RdmnetDynamicUidMapping list \<Rightarrow> bytes" where
  "rc_broker_pack_uid_assignment_list E buflen local_cid mappings =
     (if buflen < BROKER_PDU_FULL_HEADER_SIZE E \<or> mappings = [] then []
      else
        (let hdr = pack_broker_header_with_rlp E
               (broker_rlp E local_cid (BROKER_PDU_HEADER_SIZE + length mappings * DYNAMIC_UID_MAPPING_SIZE))
               VECTOR_BROKER_ASSIGNED_DYNAMIC_UIDS in
         if hdr = [] then []
         else case pack_elements buflen DYNAMIC_UID_MAPPING_SIZE (pack_mapping E) (length hdr) mappings of
           None \<Rightarrow> [] | Some d \<Rightarrow> hdr @ d))"

definition rc_broker_send_fetch_uid_assignment_list ::
  "etcpal \<Rightarrow> ('s \<Rightarrow> bytes \<Rightarrow> (etcpal_error_t + nat) \<times> 's) \<Rightarrow> 's \<Rightarrow> EtcPalUuid \<Rightarrow> RdmUid list
   \<Rightarrow> (etcpal_error_t \<times> 's) option" where
  "rc_broker_send_fetch_uid_assignment_list E send s local_cid uids =
     (if uids = [] then Some (kEtcPalErrInvalid, s)
      else send_segments send s
        (broker_header_segments E (broker_rlp E local_cid (BROKER_PDU_HEADER_SIZE + length uids * 6))
           VECTOR_BROKER_FETCH_DYNAMIC_UID_LIST @ map (pack_uid E) uids))"

section \<open>Disconnect and null\<close>

definition rc_broker_pack_disconnect :: "etcpal \<Rightarrow> nat \<Rightarrow> EtcPalUuid \<Rightarrow> u16 \<Rightarrow> bytes" where
  "rc_broker_pack_disconnect E buflen local_cid reason =
     (if buflen < BROKER_PDU_FULL_HEADER_SIZE E + DISCONNECT_DATA_SIZE then []
      else
        (let hdr = pack_broker_header_with_rlp E
               (broker_rlp E local_cid (BROKER_PDU_HEADER_SIZE + DISCONNECT_DATA_SIZE)) VECTOR_BROKER_DISCONNECT in
         if hdr = [] then [] else hdr @ pack_u16b E reason))"

definition rc_broker_send_disconnect ::
  "etcpal \<Rightarrow> ('s \<Rightarrow> bytes \<Rightarrow> (etcpal_error_t + nat) \<times> 's) \<Rightarrow> 's \<Rightarrow> EtcPalUuid \<Rightarrow> u16
   \<Rightarrow> (etcpal_error_t \<times> 's) option" where
  "rc_broker_send_disconnect E send s local_cid reason =
     send_segments send s
       (broker_header_segments E (broker_rlp E local_cid (BROKER_PDU_HEADER_SIZE + DISCONNECT_DATA_SIZE))
          VECTOR_BROKER_DISCONNECT @ [pack_u16b E reason])"

definition rc_broker_pack_null :: "etcpal \<Rightarrow> nat \<Rightarrow> EtcPalUuid \<Rightarrow> bytes" where
  "rc_broker_pack_null E buflen local_cid =
     (if buflen < BROKER_PDU_FULL_HEADER_SIZE E then []
      else pack_broker_header_with_rlp E (broker_rlp E local_cid BROKER_PDU_HEADER_SIZE) VECTOR_BROKER_NULL)"

definition rc_broker_send_null ::
  "etcpal \<Rightarrow> ('s \<Rightarrow> bytes \<Rightarrow> (etcpal_error_t + nat) \<times> 's) \<Rightarrow> 's \<Rightarrow> EtcPalUuid \<Rightarrow> (etcpal_error_t \<times> 's) option" where
  "rc_broker_send_null E send s local_cid =
     send_broker_header E send s (broker_rlp E local_cid BROKER_PDU_HEADER_SIZE) VECTOR_BROKER_NULL"

lemma pack_elements_fits:
  "used + sz * length xs \<le> buflen \<Longrightarrow> pack_elements buflen sz pack used xs = Some (concat (map pack xs))"
  by (induction xs arbitrary: used) simp_all

lemma pack_elements_overflow:
  "xs \<noteq> [] \<Longrightarrow> 0 < sz \<Longrightarrow> buflen < used + sz * length xs \<Longrightarrow> pack_elements buflen sz pack used xs = None"
proof (induction xs arbitrary: used)
  case (Cons x xs)
  show ?case
  proof (cases "xs = []")
    case True
    with Cons.prems show ?thesis by simp
  next
    case False
    with Cons.prems have "pack_elements buflen sz pack (used + sz) xs = None"
      by (intro Cons.IH) (simp_all add: add.assoc)
    then show ?thesis by simp
  qed
qed simp

end
