(* ===== verification/Roundtrip.thy ===== *)
theory Roundtrip
  imports Msg_Buf Rpt_Prot Broker_Prot
begin

text \<open>
  Packing and parsing belong together: a message packed by \<^verbatim>\<open>broker_prot.c\<close> or \<^verbatim>\<open>rpt_prot.c\<close> and put
  into a receive buffer is read back by \<^verbatim>\<open>rc_msg_buf_parse_data\<close>, whatever follows it in the buffer.
\<close>

section \<open>The root layer\<close>

definition wire :: "etcpal \<Rightarrow> EtcPalUuid \<Rightarrow> u32 \<Rightarrow> bytes \<Rightarrow> bytes" where
  "wire E cid v body =
     acn_pack_tcp_preamble E (23 + length body) @ acn_pack_root_layer_header E (rlp_pdu cid v (length body)) @ body"

text \<open>A buffer that is between two messages and holds the given bytes.\<close>

definition fresh_buf :: "RCMsgBuf \<Rightarrow> bytes \<Rightarrow> RCMsgBuf" where
  "fresh_buf mb d = mb\<lparr>mb_buf := d, have_preamble := False\<rparr>"

lemma locate_wire:
  assumes "etcpal_ok E" and "length cid = 16" and "length body + 23 < 2 ^ 20"
  shows "locate_tcp_preamble E (wire E cid v body @ rest) =
    (23 + length body, acn_pack_root_layer_header E (rlp_pdu cid v (length body)) @ body @ rest)"
proof -
  let ?d = "wire E cid v body @ rest"
  have root: "length (acn_pack_root_layer_header E (rlp_pdu cid v (length body))) = 23"
    using assms by (simp add: etcpal_ok_root rlp_pdu_def)
  then have len: "16 < length ?d"
    using assms(1) by (simp add: wire_def etcpal_simps)
  have "acn_parse_tcp_preamble E ?d = Some (23 + length body)"
    using assms by (simp add: wire_def etcpal_simps)
  moreover have "drop 16 ?d = acn_pack_root_layer_header E (rlp_pdu cid v (length body)) @ body @ rest"
    using assms(1) by (simp add: wire_def etcpal_simps)
  moreover obtain x xs where "?d = x # xs" using len by (cases ?d) auto
  ultimately show ?thesis using len assms(1) by (simp add: etcpal_simps)
qed

lemma parse_rlp_wire:
  fixes rs msg v cid body
  defines "b \<equiv> \<lparr>block_size = 23 + length body, size_parsed = 23, consuming_bad_block = False, parsed_header = True\<rparr>"
  defines "msg1 \<equiv> msg\<lparr>msg_vector := v, sender_cid := cid\<rparr>"
  assumes ok: "etcpal_ok E" and "length cid = 16" and "length body + 23 < 2 ^ 20"
    and "parse_rlp_data E alloc (initialize_rdmnet_message E (rs\<lparr>rlp_block := b\<rparr>) msg1 (length body))
      (body @ rest) msg1 kRCParseResNoData = Some (length body, rsb, msgb, kRCParseResFullBlockParseOk)"
    and "rlp_block rsb = b"
  shows "\<exists>rs'. parse_rlp_block E alloc (INIT_RLP_STATE (23 + length body) rs)
    (acn_pack_root_layer_header E (rlp_pdu cid v (length body)) @ body @ rest) msg =
    Some (23 + length body, rs', msgb, Some kRCParseResFullBlockParseOk)"
proof -
  have root: "length (acn_pack_root_layer_header E (rlp_pdu cid v (length body))) = 23"
    "acn_parse_root_layer_header E (acn_pack_root_layer_header E (rlp_pdu cid v (length body)) @ body @ rest) =
      Some (rlp_pdu cid v (length body))"
    using assms(3-5) by (simp_all add: etcpal_ok_root rlp_pdu_def)
  have "parse_rlp_header E (INIT_RLP_STATE (23 + length body) rs)
      (acn_pack_root_layer_header E (rlp_pdu cid v (length body)) @ body @ rest) msg =
    (23, initialize_rdmnet_message E (rs\<lparr>rlp_block := b\<rparr>) msg1 (length body), msg1, kRCParseResNoData)"
    using ok root
    by (simp add: parse_rlp_header_def INIT_RLP_STATE_def INIT_PDU_BLOCK_STATE_def etcpal_simps Let_def rlp_pdu_def
        b_def msg1_def)
  moreover have "parsed_header (rlp_block (initialize_rdmnet_message E (rs\<lparr>rlp_block := b\<rparr>) msg1 (length body)))"
    by (simp add: initialize_rdmnet_message_def b_def)
  ultimately show ?thesis
    using assms(6,7) root by (simp add: parse_rlp_block_def Let_def check_for_full_parse_def b_def)
qed

lemma parse_data_wire:
  assumes "etcpal_ok E" and "length cid = 16" and "length body + 23 < 2 ^ 20"
    and "\<And>rs. \<exists>rs'. parse_rlp_block E alloc (INIT_RLP_STATE (23 + length body) rs)
      (acn_pack_root_layer_header E (rlp_pdu cid v (length body)) @ body @ rest) (mb_msg mb) =
      Some (23 + length body, rs', msg, Some kRCParseResFullBlockParseOk)"
  shows "\<exists>mb'. rc_msg_buf_parse_data E alloc (fresh_buf mb (wire E cid v body @ rest)) = Some (kEtcPalErrOk, mb') \<and>
    mb_buf mb' = rest \<and> \<not> have_preamble mb' \<and> mb_msg mb' = msg"
proof -
  obtain rs' where "parse_rlp_block E alloc (INIT_RLP_STATE (23 + length body) (rlp_state mb))
      (acn_pack_root_layer_header E (rlp_pdu cid v (length body)) @ body @ rest) (mb_msg mb) =
      Some (23 + length body, rs', msg, Some kRCParseResFullBlockParseOk)"
    using assms(4) by blast
  moreover have "length (acn_pack_root_layer_header E (rlp_pdu cid v (length body))) = 23"
    using assms by (simp add: etcpal_ok_root rlp_pdu_def)
  ultimately have "parse_data_step E alloc (fresh_buf mb (wire E cid v body @ rest)) =
    Some (kEtcPalErrOk, False, mb\<lparr>mb_buf := rest, rlp_state := rs', mb_msg := msg, have_preamble := False\<rparr>)"
    using locate_wire [OF assms(1-3), of v rest]
    by (simp add: parse_data_step_def fresh_buf_def parse_data_block_def Let_def result_code_def)
  then show ?thesis by (simp add: rc_msg_buf_parse_data.simps)
qed

section \<open>Broker messages\<close>

lemma broker_wire:
  assumes "etcpal_ok E" and "length cid = 16" and "length body + 23 < 2 ^ 20"
    and "\<And>bs. \<exists>bs'. parse_broker_block E alloc (INIT_BROKER_STATE (length body) bs) (body @ rest)
      (msg_broker (mb_msg mb)) kRCParseResNoData = Some (length body, bs', bmsg, kRCParseResFullBlockParseOk)"
  shows "\<exists>mb'. rc_msg_buf_parse_data E alloc (fresh_buf mb (wire E cid (ACN_VECTOR_ROOT_BROKER E) body @ rest)) =
      Some (kEtcPalErrOk, mb') \<and> mb_buf mb' = rest \<and> \<not> have_preamble mb' \<and>
      mb_msg mb' = (mb_msg mb)\<lparr>msg_vector := ACN_VECTOR_ROOT_BROKER E, sender_cid := cid, msg_broker := bmsg\<rparr>"
proof -
  let ?msg = "(mb_msg mb)\<lparr>msg_vector := ACN_VECTOR_ROOT_BROKER E, sender_cid := cid\<rparr>"
  let ?b = "\<lparr>block_size = 23 + length body, size_parsed = 23, consuming_bad_block = False, parsed_header = True\<rparr>"
  have "\<exists>rs'. parse_rlp_block E alloc (INIT_RLP_STATE (23 + length body) rs)
     (acn_pack_root_layer_header E (rlp_pdu cid (ACN_VECTOR_ROOT_BROKER E) (length body)) @ body @ rest) (mb_msg mb) =
     Some (23 + length body, rs', ?msg\<lparr>msg_broker := bmsg\<rparr>, Some kRCParseResFullBlockParseOk)" for rs
  proof -
    obtain bs' where p: "parse_broker_block E alloc (INIT_BROKER_STATE (length body) (rlp_broker rs)) (body @ rest)
      (msg_broker (mb_msg mb)) kRCParseResNoData = Some (length body, bs', bmsg, kRCParseResFullBlockParseOk)"
      using assms(4) by blast
    show ?thesis
      by (rule parse_rlp_wire [where rsb = "rs\<lparr>rlp_block := ?b, rlp_broker := bs'\<rparr>"])
        (use assms(1-3) in \<open>simp_all add: parse_rlp_data_def initialize_rdmnet_message_def p\<close>)
  qed
  from parse_data_wire [OF assms(1-3) this] show ?thesis by simp
qed

text \<open>A broker PDU that fills its block: the header is read and the body is parsed.\<close>

lemma parse_broker_pdu:
  fixes v :: u16 and d bs bmsg
  defines "b \<equiv> \<lparr>block_size = 5 + length d, size_parsed = 5, consuming_bad_block = False, parsed_header = True\<rparr>"
  assumes ok: "etcpal_ok E" and "length d + 5 < 2 ^ 20"
    and i: "initialize_broker_message (bs\<lparr>bs_block := b\<rparr>) (bmsg\<lparr>bm_vector := v\<rparr>) (length d) = (bs1, bmsg1)"
    and p: "parse_broker_data E alloc bs1 (d @ rest) bmsg1 kRCParseResNoData =
      Some (length d, bs2, bmsg2, kRCParseResFullBlockParseOk)"
  shows "\<exists>bs'. parse_broker_block E alloc (INIT_BROKER_STATE (5 + length d) bs)
    (PACK_BROKER_HEADER E (5 + length d) v @ d @ rest) bmsg r =
    Some (5 + length d, bs', bmsg2, kRCParseResFullBlockParseOk)"
proof -
  have "parse_broker_header E (INIT_BROKER_STATE (5 + length d) bs)
      (PACK_BROKER_HEADER E (5 + length d) v @ d @ rest) bmsg = (5, bs1, bmsg1, kRCParseResNoData)"
    using ok assms(3) i
    by (simp add: parse_broker_header_def INIT_BROKER_STATE_def INIT_PDU_BLOCK_STATE_def PACK_BROKER_HEADER_def
        pack_pdu_length_def etcpal_simps Let_def b_def)
  moreover have "bs_block bs1 = b" using initialize_broker_message_block [OF i] by simp
  moreover have "bs_block bs2 = bs_block bs1" using parse_broker_data_block [OF p] .
  moreover have "length (PACK_BROKER_HEADER E (5 + length d) v) = 5"
    using ok by (simp add: PACK_BROKER_HEADER_def etcpal_simps)
  ultimately show ?thesis
    using p by (simp add: parse_broker_block_def Let_def check_for_full_parse_def b_def)
qed

lemma broker_packed:
  assumes "etcpal_ok E" and "length cid = 16" and "length d + 28 < 2 ^ 20"
  shows "pack_broker_header_with_rlp E (broker_rlp E cid (5 + length d)) v @ d =
      wire E cid (ACN_VECTOR_ROOT_BROKER E) (PACK_BROKER_HEADER E (5 + length d) v @ d)"
    and "pack_broker_header_with_rlp E (broker_rlp E cid (5 + length d)) v \<noteq> []"
    and "length (pack_broker_header_with_rlp E (broker_rlp E cid (5 + length d)) v) = 44"
    and "[] \<notin> set (broker_header_segments E (broker_rlp E cid (5 + length d)) v)"
proof -
  let ?rlp = "rlp_pdu cid (ACN_VECTOR_ROOT_BROKER E) (5 + length d)"
  have h: "length (PACK_BROKER_HEADER E (5 + length d) v) = 5"
    using assms(1) by (simp add: PACK_BROKER_HEADER_def etcpal_simps)
  then have h': "PACK_BROKER_HEADER E (5 + length d) v \<noteq> []" by auto
  have rlp: "length (rlp_sender_cid ?rlp) = 16" "rlp_data_len ?rlp + 23 < 2 ^ 20"
    using assms by (simp_all add: rlp_pdu_def)
  note seg = preamble_segments_ok [OF assms(1) rlp]
  have eq: "pack_broker_header_with_rlp E (broker_rlp E cid (5 + length d)) v =
      acn_pack_tcp_preamble E (28 + length d) @ acn_pack_root_layer_header E ?rlp @ PACK_BROKER_HEADER E (5 + length d) v"
    using seg h'
    by (simp add: pack_broker_header_with_rlp_def broker_header_segments_def broker_rlp_def pack_segments_def)
      (simp add: rlp_pdu_def)
  then show "pack_broker_header_with_rlp E (broker_rlp E cid (5 + length d)) v @ d =
      wire E cid (ACN_VECTOR_ROOT_BROKER E) (PACK_BROKER_HEADER E (5 + length d) v @ d)"
    by (simp add: wire_def h)
  show "length (pack_broker_header_with_rlp E (broker_rlp E cid (5 + length d)) v) = 44"
    using eq h assms(1) etcpal_ok_root(2) [OF assms(1) rlp] by (simp add: etcpal_simps)
  then show "pack_broker_header_with_rlp E (broker_rlp E cid (5 + length d)) v \<noteq> []" by auto
  show "[] \<notin> set (broker_header_segments E (broker_rlp E cid (5 + length d)) v)"
    using seg(2) h' by (simp add: broker_header_segments_def broker_rlp_def rlp_pdu_def)
qed

text \<open>
  The two together: if the body \<open>d\<close> of a broker message of vector \<open>v\<close> is parsed completely, then the
  packed message is received.
\<close>

lemma broker_message_received:
  assumes "etcpal_ok E" and "length cid = 16" and "length d + 28 < 2 ^ 20"
    and "\<And>bs. \<exists>bs1 bmsg1 bs2. initialize_broker_message
        (bs\<lparr>bs_block := \<lparr>block_size = 5 + length d, size_parsed = 5, consuming_bad_block = False, parsed_header = True\<rparr>\<rparr>)
        ((msg_broker (mb_msg mb))\<lparr>bm_vector := v\<rparr>) (length d) = (bs1, bmsg1) \<and>
      parse_broker_data E alloc bs1 (d @ rest) bmsg1 kRCParseResNoData =
        Some (length d, bs2, bmsg2, kRCParseResFullBlockParseOk)"
  shows "\<exists>mb'. rc_msg_buf_parse_data E alloc
      (fresh_buf mb (pack_broker_header_with_rlp E (broker_rlp E cid (5 + length d)) v @ d @ rest)) =
      Some (kEtcPalErrOk, mb') \<and> mb_buf mb' = rest \<and> \<not> have_preamble mb' \<and>
      mb_msg mb' = (mb_msg mb)\<lparr>msg_vector := ACN_VECTOR_ROOT_BROKER E, sender_cid := cid, msg_broker := bmsg2\<rparr>"
proof -
  have h: "length (PACK_BROKER_HEADER E (5 + length d) v) = 5"
    using assms(1) by (simp add: PACK_BROKER_HEADER_def etcpal_simps)
  have "\<exists>bs'. parse_broker_block E alloc (INIT_BROKER_STATE (5 + length d) bs)
      (PACK_BROKER_HEADER E (5 + length d) v @ d @ rest) (msg_broker (mb_msg mb)) kRCParseResNoData =
      Some (5 + length d, bs', bmsg2, kRCParseResFullBlockParseOk)" for bs
  proof -
    obtain bs1 bmsg1 bs2 where "initialize_broker_message
        (bs\<lparr>bs_block := \<lparr>block_size = 5 + length d, size_parsed = 5, consuming_bad_block = False, parsed_header = True\<rparr>\<rparr>)
        ((msg_broker (mb_msg mb))\<lparr>bm_vector := v\<rparr>) (length d) = (bs1, bmsg1)"
      "parse_broker_data E alloc bs1 (d @ rest) bmsg1 kRCParseResNoData =
        Some (length d, bs2, bmsg2, kRCParseResFullBlockParseOk)"
      using assms(4) by blast
    with assms(1,3) show ?thesis by (intro parse_broker_pdu) simp_all
  qed
  then show ?thesis
    using broker_wire [of E cid "PACK_BROKER_HEADER E (5 + length d) v @ d"] assms(1-3) h
      broker_packed(1) [OF assms(1-3), of v] by (simp add: append_assoc [symmetric] del: append_assoc)
qed

section \<open>The element codecs\<close>

lemma unpack_pack_uid [simp]:
  "etcpal_ok E \<Longrightarrow> unpack_uid E (pack_uid E u @ r) = u" "etcpal_ok E \<Longrightarrow> unpack_uid E (pack_uid E u) = u"
  by (simp_all add: unpack_uid_def pack_uid_def etcpal_simps)

lemma unpack_uid_local:
  "etcpal_ok E \<Longrightarrow> 6 \<le> length d \<Longrightarrow> unpack_uid E (d @ r) = unpack_uid E d"
  by (simp add: unpack_uid_def etcpal_ok_local)

lemma manu_id_mask: "(x OR 0x8000) AND 0x7fff = x AND (0x7fff :: u16)"
proof (rule bit_word_eqI)
  fix n assume "n < LENGTH(16)"
  then have "n < 16" by simp
  have "(0x8000 :: u16) AND 0x7fff = 0" by simp
  then have "bit ((0x8000 :: u16) AND 0x7fff) n = False" by simp
  then show "bit ((x OR 0x8000) AND 0x7fff) n = bit (x AND (0x7fff :: u16)) n"
    unfolding bit_and_iff bit_or_iff by blast
qed

interpretation uid_codec: element_codec "\<lambda>u. True" "pack_uid E" "unpack_uid E" 6 "etcpal_ok E" for E
  by unfold_locales (simp_all add: unpack_uid_local)

interpretation mapping_codec: element_codec "\<lambda>m. length (map_rid m) = 16" "pack_mapping E" "unpack_mapping E"
  DYNAMIC_UID_MAPPING_SIZE "etcpal_ok E" for E
  by unfold_locales
    (simp_all add: pack_mapping_def unpack_mapping_def unpack_uid_local etcpal_ok_local etcpal_simps)

interpretation request_codec: element_codec
  "\<lambda>q. length (req_rid q) = 16 \<and> req_manu_id q AND 0x7fff = req_manu_id q"
  "\<lambda>q. pack_request E (req_manu_id q) (req_rid q)" "unpack_request E" DYNAMIC_UID_REQUEST_PAIR_SIZE "etcpal_ok E" for E
  by unfold_locales (simp_all add: pack_request_def unpack_request_def manu_id_mask etcpal_ok_local etcpal_simps)

section \<open>Broker messages, one by one\<close>

lemma unpack_pack_connect_reply:
  assumes "etcpal_ok E"
  shows "unpack_connect_reply E (pack_connect_reply_data E m @ r) = m"
    and "length (pack_connect_reply_data E m) = BROKER_CONNECT_REPLY_DATA_SIZE"
  using assms by (simp_all add: unpack_connect_reply_def pack_connect_reply_data_def etcpal_simps)

lemma connect_reply_parses:
  assumes "etcpal_ok E" and "length cid = 16" and "60 \<le> buflen"
  shows "\<exists>mb'. rc_msg_buf_parse_data E alloc (fresh_buf mb (rc_broker_pack_connect_reply E buflen cid m @ rest)) =
      Some (kEtcPalErrOk, mb') \<and> mb_buf mb' = rest \<and> \<not> have_preamble mb' \<and>
      mb_msg mb' = (mb_msg mb)\<lparr>msg_vector := ACN_VECTOR_ROOT_BROKER E, sender_cid := cid,
        msg_broker := (msg_broker (mb_msg mb))\<lparr>bm_vector := VECTOR_BROKER_CONNECT_REPLY, connect_reply := m\<rparr>\<rparr>"
proof -
  note u = unpack_pack_connect_reply [OF assms(1)]
  have eq: "rc_broker_pack_connect_reply E buflen cid m =
      pack_broker_header_with_rlp E (broker_rlp E cid (5 + length (pack_connect_reply_data E m)))
        VECTOR_BROKER_CONNECT_REPLY @ pack_connect_reply_data E m"
    using assms broker_packed(2) [OF assms(1,2), of "pack_connect_reply_data E m" VECTOR_BROKER_CONNECT_REPLY]
    by (simp add: rc_broker_pack_connect_reply_def BROKER_PDU_FULL_HEADER_SIZE_def etcpal_simps Let_def u)
  show ?thesis
    unfolding eq append_assoc using assms(1,2)
    by (intro broker_message_received) (simp_all add: u initialize_broker_message_def parse_broker_data_def Let_def)
qed

text \<open>
  A Connect Reply packed by \<^verbatim>\<open>rc_broker_pack_connect_reply\<close> is read back by \<^verbatim>\<open>rc_msg_buf_parse_data\<close> with its
  status, version and both UIDs; the bytes behind it stay in the buffer and the parser is ready for
  the next message.
\<close>

lemma connect_reply_roundtrip:
  assumes "etcpal_ok E" and "length cid = 16" and "60 \<le> buflen"
  shows "\<exists>mb'. rc_msg_buf_parse_data E alloc (fresh_buf mb (rc_broker_pack_connect_reply E buflen cid m @ rest)) =
      Some (kEtcPalErrOk, mb') \<and> mb_buf mb' = rest \<and> \<not> have_preamble mb' \<and>
      mb_msg mb' = (mb_msg mb)\<lparr>msg_vector := ACN_VECTOR_ROOT_BROKER E, sender_cid := cid,
        msg_broker := (msg_broker (mb_msg mb))\<lparr>bm_vector := VECTOR_BROKER_CONNECT_REPLY, connect_reply := m\<rparr>\<rparr>"
  using assms by (rule connect_reply_parses)

lemma connect_reply_roundtrip_example:
  "\<exists>mb'. rc_msg_buf_parse_data etcpal_be (\<lambda>n. False) (fresh_buf idle_buf
        (rc_broker_pack_connect_reply etcpal_be 60 (replicate 16 2) (connect_reply blank_broker_message) @ [7, 8])) =
      Some (kEtcPalErrOk, mb') \<and> mb_buf mb' = [7, 8] \<and> \<not> have_preamble mb' \<and>
      mb_msg mb' = (mb_msg idle_buf)\<lparr>msg_vector := ACN_VECTOR_ROOT_BROKER etcpal_be, sender_cid := replicate 16 2,
        msg_broker := (msg_broker (mb_msg idle_buf))\<lparr>bm_vector := VECTOR_BROKER_CONNECT_REPLY,
          connect_reply := connect_reply blank_broker_message\<rparr>\<rparr>"
  by (rule connect_reply_roundtrip) simp_all

lemma disconnect_roundtrip:
  assumes "etcpal_ok E" and "length cid = 16" and "46 \<le> buflen"
  shows "\<exists>mb'. rc_msg_buf_parse_data E alloc (fresh_buf mb (rc_broker_pack_disconnect E buflen cid reason @ rest)) =
      Some (kEtcPalErrOk, mb') \<and> mb_buf mb' = rest \<and> \<not> have_preamble mb' \<and>
      mb_msg mb' = (mb_msg mb)\<lparr>msg_vector := ACN_VECTOR_ROOT_BROKER E, sender_cid := cid,
        msg_broker := (msg_broker (mb_msg mb))\<lparr>bm_vector := VECTOR_BROKER_DISCONNECT, disconnect_reason := reason\<rparr>\<rparr>"
proof -
  have eq: "rc_broker_pack_disconnect E buflen cid reason =
      pack_broker_header_with_rlp E (broker_rlp E cid (5 + length (pack_u16b E reason))) VECTOR_BROKER_DISCONNECT @
      pack_u16b E reason"
    using assms broker_packed(2) [OF assms(1,2), of "pack_u16b E reason" VECTOR_BROKER_DISCONNECT]
    by (simp add: rc_broker_pack_disconnect_def BROKER_PDU_FULL_HEADER_SIZE_def etcpal_simps Let_def)
  show ?thesis
    unfolding eq append_assoc using assms(1,2)
    by (intro broker_message_received)
      (simp_all add: etcpal_simps initialize_broker_message_def parse_broker_data_def Let_def)
qed

lemma null_roundtrip:
  assumes "etcpal_ok E" and "length cid = 16" and "44 \<le> buflen"
  shows "\<exists>mb'. rc_msg_buf_parse_data E alloc (fresh_buf mb (rc_broker_pack_null E buflen cid @ rest)) =
      Some (kEtcPalErrOk, mb') \<and> mb_buf mb' = rest \<and> \<not> have_preamble mb' \<and>
      mb_msg mb' = (mb_msg mb)\<lparr>msg_vector := ACN_VECTOR_ROOT_BROKER E, sender_cid := cid,
        msg_broker := (msg_broker (mb_msg mb))\<lparr>bm_vector := VECTOR_BROKER_NULL\<rparr>\<rparr>"
proof -
  have eq: "rc_broker_pack_null E buflen cid =
      pack_broker_header_with_rlp E (broker_rlp E cid (5 + length ([] :: bytes))) VECTOR_BROKER_NULL"
    using assms by (simp add: rc_broker_pack_null_def BROKER_PDU_FULL_HEADER_SIZE_def etcpal_simps)
  have "\<exists>mb'. rc_msg_buf_parse_data E alloc (fresh_buf mb
        (pack_broker_header_with_rlp E (broker_rlp E cid (5 + length ([] :: bytes))) VECTOR_BROKER_NULL @ [] @ rest)) =
      Some (kEtcPalErrOk, mb') \<and> mb_buf mb' = rest \<and> \<not> have_preamble mb' \<and>
      mb_msg mb' = (mb_msg mb)\<lparr>msg_vector := ACN_VECTOR_ROOT_BROKER E, sender_cid := cid,
        msg_broker := (msg_broker (mb_msg mb))\<lparr>bm_vector := VECTOR_BROKER_NULL\<rparr>\<rparr>"
    using assms(1,2)
    by (intro broker_message_received) (simp_all add: initialize_broker_message_def parse_broker_data_def Let_def)
  then show ?thesis unfolding eq by simp
qed

text \<open>
  C19. A list of dynamic UID mappings packed by \<^verbatim>\<open>rc_broker_pack_uid_assignment_list\<close> into a buffer of the
  advertised size is read back by \<^verbatim>\<open>rc_msg_buf_parse_data\<close>, mapping by mapping.
\<close>

theorem uid_assignment_list_roundtrip:
  assumes "etcpal_ok E" and "length cid = 16" and "ms \<noteq> []" and "\<forall>m\<in>set ms. length (map_rid m) = 16"
    and "rc_broker_get_uid_assignment_list_buffer_size E (length ms) \<le> buflen"
    and "24 * length ms + 28 < 2 ^ 20" and "\<forall>n\<le>length ms. alloc n"
  shows "\<exists>mb'. rc_msg_buf_parse_data E alloc (fresh_buf mb (rc_broker_pack_uid_assignment_list E buflen cid ms @ rest)) =
      Some (kEtcPalErrOk, mb') \<and> mb_buf mb' = rest \<and> \<not> have_preamble mb' \<and>
      mb_msg mb' = (mb_msg mb)\<lparr>msg_vector := ACN_VECTOR_ROOT_BROKER E, sender_cid := cid,
        msg_broker := (msg_broker (mb_msg mb))\<lparr>bm_vector := VECTOR_BROKER_ASSIGNED_DYNAMIC_UIDS,
          dynamic_uid_assignment_list := \<lparr>entries = ms, more_coming = False\<rparr>\<rparr>\<rparr>"
proof -
  let ?d = "concat (map (pack_mapping E) ms)"
  have valid: "list_all (\<lambda>m. length (map_rid m) = 16) ms" using assms(4) by (simp add: list_all_iff)
  note len = mapping_codec.list_size [OF assms(1) valid]
  have d28: "length ?d + 28 < 2 ^ 20" using len assms(6) by simp
  note hdr = broker_packed(2,3) [OF assms(1,2) d28, of VECTOR_BROKER_ASSIGNED_DYNAMIC_UIDS]
  have "pack_elements buflen DYNAMIC_UID_MAPPING_SIZE (pack_mapping E) 44 ms = Some ?d"
    using assms(1,5) by (intro pack_elements_fits)
      (simp add: rc_broker_get_uid_assignment_list_buffer_size_def BROKER_PDU_FULL_HEADER_SIZE_def etcpal_simps)
  then have eq: "rc_broker_pack_uid_assignment_list E buflen cid ms =
      pack_broker_header_with_rlp E (broker_rlp E cid (5 + length ?d)) VECTOR_BROKER_ASSIGNED_DYNAMIC_UIDS @ ?d"
    using assms(1,3,5) hdr len
    by (simp add: rc_broker_pack_uid_assignment_list_def rc_broker_get_uid_assignment_list_buffer_size_def
        BROKER_PDU_FULL_HEADER_SIZE_def etcpal_simps Let_def mult.commute)
  have "parse_dynamic_uid_assignment_list E alloc (INIT_GENERIC_LIST_STATE (length ?d)) (?d @ rest) empty_list =
      (length ?d, \<lparr>full_list_size = length ?d, gl_size_parsed = length ?d\<rparr>, \<lparr>entries = ms, more_coming = False\<rparr>,
       kRCParseResFullBlockParseOk)"
    using mapping_codec.list_roundtrip [OF assms(1,3) valid, of empty_list alloc "INIT_GENERIC_LIST_STATE (length ?d)" rest]
      assms(7) len
    by (simp add: parse_dynamic_uid_assignment_list_def INIT_GENERIC_LIST_STATE_def empty_list_def)
  then show ?thesis
    unfolding eq append_assoc using assms(1,2,3) d28 len
    by (intro broker_message_received) (simp_all add: initialize_broker_message_def parse_broker_data_def Let_def)
qed

theorem uid_assignment_list_roundtrip_witness:
  "\<exists>mb'. rc_msg_buf_parse_data etcpal_be (\<lambda>n. n \<le> 1) (fresh_buf idle_buf
        (rc_broker_pack_uid_assignment_list etcpal_be 68 (replicate 16 2)
           [\<lparr>map_status_code = 0, map_uid = blank_uid, map_rid = replicate 16 5\<rparr>] @ [7])) =
      Some (kEtcPalErrOk, mb') \<and> mb_buf mb' = [7] \<and> \<not> have_preamble mb' \<and>
      mb_msg mb' = (mb_msg idle_buf)\<lparr>msg_vector := ACN_VECTOR_ROOT_BROKER etcpal_be, sender_cid := replicate 16 2,
        msg_broker := (msg_broker (mb_msg idle_buf))\<lparr>bm_vector := VECTOR_BROKER_ASSIGNED_DYNAMIC_UIDS,
          dynamic_uid_assignment_list := \<lparr>entries = [\<lparr>map_status_code = 0, map_uid = blank_uid, map_rid = replicate 16 5\<rparr>],
            more_coming = False\<rparr>\<rparr>\<rparr>"
  by (rule uid_assignment_list_roundtrip)
    (simp_all add: rc_broker_get_uid_assignment_list_buffer_size_def BROKER_PDU_FULL_HEADER_SIZE_def etcpal_simps)

section \<open>Broker messages sent in segments\<close>

lemma broker_sent:
  assumes "etcpal_ok E" and "length cid = 16" and "length (concat segs) + 28 < 2 ^ 20" and "[] \<notin> set segs"
  shows "send_segments stream_send s (broker_header_segments E (broker_rlp E cid (5 + length (concat segs))) v @ segs) =
    Some (kEtcPalErrOk, s @ pack_broker_header_with_rlp E (broker_rlp E cid (5 + length (concat segs))) v @ concat segs)"
proof -
  note hdr = broker_packed(4) [OF assms(1-3), of v]
  have "[] \<notin> set (broker_header_segments E (broker_rlp E cid (5 + length (concat segs))) v @ segs)"
    using hdr assms(4) by simp
  from send_segments_stream [OF this] hdr assms(4) show ?thesis
    by (simp add: pack_broker_header_with_rlp_def pack_segments_def)
qed

text \<open>What is sent segment by segment is what would have been packed.\<close>

lemma send_disconnect_packs:
  assumes "etcpal_ok E" and "length cid = 16" and "46 \<le> buflen"
  shows "rc_broker_send_disconnect E stream_send s cid reason =
    Some (kEtcPalErrOk, s @ rc_broker_pack_disconnect E buflen cid reason)"
proof -
  have len: "length (pack_u16b E reason) = 2" using assms(1) by (simp add: etcpal_simps)
  then have ne: "pack_u16b E reason \<noteq> []" by auto
  have "length (concat [pack_u16b E reason]) + 28 < 2 ^ 20" "[] \<notin> set [pack_u16b E reason]" using len ne by simp_all
  from broker_sent [OF assms(1,2) this, of s VECTOR_BROKER_DISCONNECT] len
    broker_packed(2) [OF assms(1,2), of "pack_u16b E reason" VECTOR_BROKER_DISCONNECT] assms
  show ?thesis
    by (simp add: rc_broker_send_disconnect_def rc_broker_pack_disconnect_def BROKER_PDU_FULL_HEADER_SIZE_def
        etcpal_simps Let_def)
qed

lemma send_null_packs:
  assumes "etcpal_ok E" and "length cid = 16" and "44 \<le> buflen"
  shows "rc_broker_send_null E stream_send s cid = Some (kEtcPalErrOk, s @ rc_broker_pack_null E buflen cid)"
  using broker_sent [OF assms(1,2), of "[]" s VECTOR_BROKER_NULL] assms
  by (simp add: rc_broker_send_null_def rc_broker_pack_null_def send_broker_header_def BROKER_PDU_FULL_HEADER_SIZE_def
      etcpal_simps)

lemma manu_id_or: "(x AND 0x7fff) OR 0x8000 = x OR (0x8000 :: u16)"
proof (rule bit_word_eqI)
  fix n assume "n < LENGTH(16)"
  then have n: "n < 16" by simp
  have "(0x7fff OR 0x8000 :: u16) = - 1" by simp
  moreover have "bit (- 1 :: u16) n" using n by simp
  ultimately have "bit (0x7fff OR 0x8000 :: u16) n" by (simp only:)
  then show "bit ((x AND 0x7fff) OR 0x8000) n = bit (x OR (0x8000 :: u16)) n"
    unfolding bit_and_iff bit_or_iff by blast
qed

text \<open>
  A request for dynamic UIDs sent by \<^verbatim>\<open>rc_broker_send_request_dynamic_uids\<close> on a socket that takes
  everything is read back by \<^verbatim>\<open>rc_msg_buf_parse_data\<close>: one request per RID, with the manufacturer id freed of
  the dynamic UID bit.
\<close>

lemma request_dynamic_uids_roundtrip:
  assumes "etcpal_ok E" and "length cid = 16" and "rids \<noteq> []" and "\<forall>r\<in>set rids. length r = 16"
    and "22 * length rids + 28 < 2 ^ 20" and "\<forall>n\<le>length rids. alloc n"
  shows "\<exists>d mb'. rc_broker_send_request_dynamic_uids E stream_send [] cid manufacturer_id rids = Some (kEtcPalErrOk, d) \<and>
      rc_msg_buf_parse_data E alloc (fresh_buf mb (d @ rest)) = Some (kEtcPalErrOk, mb') \<and>
      mb_buf mb' = rest \<and> \<not> have_preamble mb' \<and>
      mb_msg mb' = (mb_msg mb)\<lparr>msg_vector := ACN_VECTOR_ROOT_BROKER E, sender_cid := cid,
        msg_broker := (msg_broker (mb_msg mb))\<lparr>bm_vector := VECTOR_BROKER_REQUEST_DYNAMIC_UIDS,
          dynamic_uid_request_list :=
            \<lparr>entries = map (\<lambda>r. \<lparr>req_manu_id = manufacturer_id AND 0x7fff, req_rid = r\<rparr>) rids, more_coming = False\<rparr>\<rparr>\<rparr>"
proof -
  define qs where "qs = map (\<lambda>r. \<lparr>req_manu_id = manufacturer_id AND 0x7fff, req_rid = r\<rparr>) rids"
  define d where "d = concat (map (\<lambda>q. pack_request E (req_manu_id q) (req_rid q)) qs)"
  have qs: "qs \<noteq> []" "length qs = length rids" using assms(3) by (simp_all add: qs_def)
  have segs: "concat (map (pack_request E manufacturer_id) rids) = d"
    by (simp add: d_def qs_def comp_def pack_request_def [abs_def] manu_id_or)
  have valid: "list_all (\<lambda>q. length (req_rid q) = 16 \<and> req_manu_id q AND 0x7fff = req_manu_id q) qs"
    using assms(4) by (simp add: list_all_iff qs_def and.assoc)
  have len: "length d = 22 * length rids"
    using request_codec.list_size [OF assms(1) valid] qs(2) by (simp add: d_def)
  have d28: "length d + 28 < 2 ^ 20" using len assms(5) by simp
  have ne: "[] \<notin> set (map (pack_request E manufacturer_id) rids)"
    using assms(1,4) by (auto simp: pack_request_def etcpal_simps simp flip: length_0_conv)
  have sent: "rc_broker_send_request_dynamic_uids E stream_send [] cid manufacturer_id rids = Some (kEtcPalErrOk,
      pack_broker_header_with_rlp E (broker_rlp E cid (5 + length d)) VECTOR_BROKER_REQUEST_DYNAMIC_UIDS @ d)"
    using broker_sent [OF assms(1,2) d28 [folded segs] ne, of "[]" VECTOR_BROKER_REQUEST_DYNAMIC_UIDS] assms(3) len
    unfolding segs by (simp add: rc_broker_send_request_dynamic_uids_def mult.commute)
  have p: "parse_request_dynamic_uid_assignment E alloc (INIT_GENERIC_LIST_STATE (length d)) (d @ rest) empty_list =
      (length d, \<lparr>full_list_size = length d, gl_size_parsed = length d\<rparr>, \<lparr>entries = qs, more_coming = False\<rparr>,
       kRCParseResFullBlockParseOk)"
    using request_codec.list_roundtrip [OF assms(1) qs(1) valid, of empty_list alloc "INIT_GENERIC_LIST_STATE (length d)" rest]
      assms(6) len qs(2)
    by (simp add: parse_request_dynamic_uid_assignment_def INIT_GENERIC_LIST_STATE_def empty_list_def flip: d_def)
  have "\<exists>mb'. rc_msg_buf_parse_data E alloc (fresh_buf mb
        (pack_broker_header_with_rlp E (broker_rlp E cid (5 + length d)) VECTOR_BROKER_REQUEST_DYNAMIC_UIDS @ d @ rest)) =
      Some (kEtcPalErrOk, mb') \<and> mb_buf mb' = rest \<and> \<not> have_preamble mb' \<and>
      mb_msg mb' = (mb_msg mb)\<lparr>msg_vector := ACN_VECTOR_ROOT_BROKER E, sender_cid := cid,
        msg_broker := (msg_broker (mb_msg mb))\<lparr>bm_vector := VECTOR_BROKER_REQUEST_DYNAMIC_UIDS,
          dynamic_uid_request_list := \<lparr>entries = qs, more_coming = False\<rparr>\<rparr>\<rparr>"
    using assms(1-3) d28 len p
    by (intro broker_message_received) (simp_all add: initialize_broker_message_def parse_broker_data_def Let_def)
  then show ?thesis by (elim exE) (use sent in \<open>simp add: qs_def\<close>)
qed

lemma request_dynamic_uids_roundtrip_example:
  "\<exists>d mb'. rc_broker_send_request_dynamic_uids etcpal_be stream_send [] (replicate 16 2) 0x6574 [replicate 16 5] =
      Some (kEtcPalErrOk, d) \<and>
      rc_msg_buf_parse_data etcpal_be (\<lambda>n. n \<le> 1) (fresh_buf idle_buf (d @ [7])) = Some (kEtcPalErrOk, mb') \<and>
      mb_buf mb' = [7] \<and> \<not> have_preamble mb' \<and>
      mb_msg mb' = (mb_msg idle_buf)\<lparr>msg_vector := ACN_VECTOR_ROOT_BROKER etcpal_be, sender_cid := replicate 16 2,
        msg_broker := (msg_broker (mb_msg idle_buf))\<lparr>bm_vector := VECTOR_BROKER_REQUEST_DYNAMIC_UIDS,
          dynamic_uid_request_list :=
            \<lparr>entries = map (\<lambda>r. \<lparr>req_manu_id = 0x6574 AND 0x7fff, req_rid = r\<rparr>) [replicate 16 5], more_coming = False\<rparr>\<rparr>\<rparr>"
  by (rule request_dynamic_uids_roundtrip) simp_all

end
