(* ===== verification/Client_Roundtrip.thy ===== *)
theory Client_Roundtrip
  imports Roundtrip
begin

text \<open>
  Round trips of the broker messages that carry client entries: client lists, as packed by
  \<^verbatim>\<open>rc_broker_pack_rpt_client_list\<close>, and Client Connect, as sent by \<^verbatim>\<open>rc_broker_send_client_connect\<close>. The
  same machinery shows what happens to a client list when memory for its entries runs out.
\<close>

section \<open>Client lists\<close>

definition valid_entry :: "RdmnetRptClientEntry \<Rightarrow> bool" where
  "valid_entry c \<longleftrightarrow> length (ce_cid c) = 16 \<and> length (ce_binding_cid c) = 16 \<and> unat (ce_type c) < 256"

lemma ucast_type: "unat (t :: u32) < 256 \<Longrightarrow> (ucast (ucast t :: u8) :: u32) = t"
  by (simp add: word_unat_eq_iff unsigned_ucast_eq unsigned_take_bit_eq take_bit_nat_eq_self)

lemma length_pack_rpt_client_entry:
  assumes "etcpal_ok E" and "valid_entry c"
  shows "length (pack_rpt_client_entry E c) = 46"
  using assms by (simp add: pack_rpt_client_entry_def PACK_CLIENT_ENTRY_HEADER_def pack_rpt_entry_data_def
      valid_entry_def etcpal_simps)

lemma parse_packed_entry:
  assumes "etcpal_ok E" and "valid_entry c" and "46 \<le> block"
  shows "\<exists>cs'. parse_single_client_entry E (INIT_CLIENT_ENTRY_STATE block cs) (pack_rpt_client_entry E c @ rest) cp ce =
    (46, cs', kClientProtocolRPT, ce\<lparr>entry_rpt := c\<rparr>, kRCParseResFullBlockParseOk)"
proof -
  let ?d = "pack_rpt_client_entry E c @ rest"
  have len: "23 \<le> length ?d" using length_pack_rpt_client_entry [OF assms(1,2)] by simp
  have "ACN_PDU_LENGTH E ?d = 46"
    using assms(1) by (simp add: pack_rpt_client_entry_def PACK_CLIENT_ENTRY_HEADER_def pack_pdu_length_def etcpal_simps)
  moreover have "unpack_u32b E (drop 3 ?d) = kClientProtocolRPT"
    using assms(1) by (simp add: pack_rpt_client_entry_def PACK_CLIENT_ENTRY_HEADER_def etcpal_simps)
  moreover have "take 16 (drop 7 ?d) = ce_cid c"
    using assms(1,2) by (simp add: pack_rpt_client_entry_def PACK_CLIENT_ENTRY_HEADER_def etcpal_simps valid_entry_def)
  moreover have "drop 23 ?d = pack_rpt_entry_data E c @ rest"
    using assms(1,2) by (simp add: pack_rpt_client_entry_def PACK_CLIENT_ENTRY_HEADER_def etcpal_simps valid_entry_def)
  moreover have "unpack_rpt_entry_data E (pack_rpt_entry_data E c @ rest) (e\<lparr>ce_cid := ce_cid c\<rparr>) = c" for e
    using assms(1,2) by (cases c)
      (simp add: unpack_rpt_entry_data_def pack_rpt_entry_data_def unpack_uid_local etcpal_simps valid_entry_def ucast_type)
  moreover have "23 \<le> length (pack_rpt_entry_data E c @ rest)"
    using assms(1,2) by (simp add: pack_rpt_entry_data_def valid_entry_def)
  ultimately show ?thesis
    using assms(1,3) len
    by (simp add: parse_single_client_entry_def parse_client_entry_header_def parse_client_entry_data_def
        INIT_CLIENT_ENTRY_STATE_def INIT_PDU_BLOCK_STATE_def Let_def etcpal_simps)
qed

lemma client_list_step_packed:
  assumes ok: "etcpal_ok E" "valid_entry c" and "alloc (length (entries l) + 1)"
    and b: "\<not> parsed_header (cl_block cls)" "size_parsed (cl_block cls) + 46 \<le> block_size (cl_block cls)"
  shows "\<exists>cs'. client_list_step E alloc (pre @ pack_rpt_client_entry E c @ rest) (cls, l, length pre, res) =
    Inl (cls\<lparr>cl_entry := cs',
             cl_block := (cl_block cls)\<lparr>size_parsed := size_parsed (cl_block cls) + 46, parsed_header := False\<rparr>\<rparr>,
         l\<lparr>entries := entries l @ [c]\<rparr>, length pre + 46,
         if size_parsed (cl_block cls) + 46 \<noteq> block_size (cl_block cls) then kRCParseResNoData
         else kRCParseResFullBlockParseOk)"
proof -
  have len: "length (pack_rpt_client_entry E c) = 46" using ok by (rule length_pack_rpt_client_entry)
  have prot: "unpack_u32b E (drop 3 (pack_rpt_client_entry E c @ rest)) = kClientProtocolRPT"
    using ok(1) by (simp add: pack_rpt_client_entry_def PACK_CLIENT_ENTRY_HEADER_def etcpal_simps)
  obtain cs' where p: "parse_single_client_entry E (INIT_CLIENT_ENTRY_STATE (block_size (cl_block cls)) (cl_entry cls))
      (pack_rpt_client_entry E c @ rest) kClientProtocolUnknown
      \<lparr>entry_rpt = blank_entry, entry_ept = \<lparr>ept_cid = ce_cid blank_entry, ept_protocols = []\<rparr>\<rparr> =
    (46, cs', kClientProtocolRPT, \<lparr>entry_rpt = c, entry_ept = \<lparr>ept_cid = ce_cid blank_entry, ept_protocols = []\<rparr>\<rparr>,
     kRCParseResFullBlockParseOk)"
    using parse_packed_entry [OF ok, of "block_size (cl_block cls)" "cl_entry cls" rest kClientProtocolUnknown
      "\<lparr>entry_rpt = blank_entry, entry_ept = \<lparr>ept_cid = ce_cid blank_entry, ept_protocols = []\<rparr>\<rparr>"] b(2)
    by auto
  show ?thesis
    using assms(3) b len prot p by (intro exI [of _ cs']) (simp add: client_list_step_def client_list_entry_def Let_def)
qed

lemma client_list_loop_packed:
  assumes "etcpal_ok E" and "\<forall>c\<in>set ces. valid_entry c" and "\<forall>n\<le>length (entries l) + length ces. alloc n"
    and "\<not> parsed_header (cl_block cls)" "block_size (cl_block cls) = size_parsed (cl_block cls) + 46 * length ces"
  shows "\<exists>cls'. client_list_loop E alloc (pre @ concat (map (pack_rpt_client_entry E) ces) @ rest)
      (cls, l, length pre, res) =
    Some (length pre + 46 * length ces, cls', l\<lparr>entries := entries l @ ces\<rparr>,
      Some (if ces = [] then res else kRCParseResFullBlockParseOk))"
  using assms(2-)
proof (induction ces arbitrary: pre cls l res)
  case Nil
  then show ?case by (simp add: client_list_loop.simps)
next
  case (Cons c ces)
  let ?b = "cl_block cls" and ?r = "concat (map (pack_rpt_client_entry E) ces) @ rest"
  have len: "length (pack_rpt_client_entry E c) = 46"
    using assms(1) Cons.prems(1) by (simp add: length_pack_rpt_client_entry)
  obtain cs' where s: "client_list_step E alloc (pre @ pack_rpt_client_entry E c @ ?r) (cls, l, length pre, res) =
    Inl (cls\<lparr>cl_entry := cs', cl_block := ?b\<lparr>size_parsed := size_parsed ?b + 46, parsed_header := False\<rparr>\<rparr>,
         l\<lparr>entries := entries l @ [c]\<rparr>, length pre + 46,
         if size_parsed ?b + 46 \<noteq> block_size ?b then kRCParseResNoData else kRCParseResFullBlockParseOk)"
    using client_list_step_packed [OF assms(1), of c alloc l cls pre ?r res] Cons.prems by auto
  let ?cls = "cls\<lparr>cl_entry := cs', cl_block := ?b\<lparr>size_parsed := size_parsed ?b + 46, parsed_header := False\<rparr>\<rparr>"
  have "\<exists>cls'. client_list_loop E alloc ((pre @ pack_rpt_client_entry E c) @ ?r)
      (?cls, l\<lparr>entries := entries l @ [c]\<rparr>, length (pre @ pack_rpt_client_entry E c),
       if size_parsed ?b + 46 \<noteq> block_size ?b then kRCParseResNoData else kRCParseResFullBlockParseOk) =
    Some (length (pre @ pack_rpt_client_entry E c) + 46 * length ces, cls',
      (l\<lparr>entries := entries l @ [c]\<rparr>)\<lparr>entries := entries (l\<lparr>entries := entries l @ [c]\<rparr>) @ ces\<rparr>,
      Some (if ces = [] then (if size_parsed ?b + 46 \<noteq> block_size ?b then kRCParseResNoData else kRCParseResFullBlockParseOk)
            else kRCParseResFullBlockParseOk))"
    using Cons.prems by (intro Cons.IH) auto
  then show ?case
    using s len Cons.prems(4) by (subst client_list_loop.simps) (auto simp: add.assoc)
qed

text \<open>With memory for fewer entries than the list has, the loop does not end.\<close>

lemma client_list_loop_starves:
  assumes "etcpal_ok E" and "\<forall>c\<in>set ces. valid_entry c" and "\<forall>n. alloc n \<longleftrightarrow> n \<le> max_entries"
    and "length (entries l) \<le> max_entries" "max_entries < length (entries l) + length ces"
    and "\<not> parsed_header (cl_block cls)" "block_size (cl_block cls) = size_parsed (cl_block cls) + 46 * length ces"
  shows "client_list_loop E alloc (pre @ concat (map (pack_rpt_client_entry E) ces) @ rest) (cls, l, length pre, res) = None"
  using assms(2,4-)
proof (induction ces arbitrary: pre cls l res)
  case (Cons c ces)
  let ?b = "cl_block cls" and ?r = "concat (map (pack_rpt_client_entry E) ces) @ rest"
  have len: "length (pack_rpt_client_entry E c) = 46"
    using assms(1) Cons.prems(1) by (simp add: length_pack_rpt_client_entry)
  show ?case
  proof (cases "length (entries l) = max_entries")
    case True
    have "unpack_u32b E (drop 3 (pack_rpt_client_entry E c @ ?r)) = kClientProtocolRPT"
      using assms(1) by (simp add: pack_rpt_client_entry_def PACK_CLIENT_ENTRY_HEADER_def etcpal_simps)
    with True show ?thesis
      using Cons.prems assms(3) len by (intro client_list_loop_hangs) simp_all
  next
    case False
    obtain cs' where s: "client_list_step E alloc (pre @ pack_rpt_client_entry E c @ ?r) (cls, l, length pre, res) =
      Inl (cls\<lparr>cl_entry := cs', cl_block := ?b\<lparr>size_parsed := size_parsed ?b + 46, parsed_header := False\<rparr>\<rparr>,
           l\<lparr>entries := entries l @ [c]\<rparr>, length pre + 46,
           if size_parsed ?b + 46 \<noteq> block_size ?b then kRCParseResNoData else kRCParseResFullBlockParseOk)"
      using client_list_step_packed [OF assms(1), of c alloc l cls pre ?r res] Cons.prems assms(3) False by auto
    let ?cls = "cls\<lparr>cl_entry := cs', cl_block := ?b\<lparr>size_parsed := size_parsed ?b + 46, parsed_header := False\<rparr>\<rparr>"
    have "client_list_loop E alloc ((pre @ pack_rpt_client_entry E c) @ ?r)
        (?cls, l\<lparr>entries := entries l @ [c]\<rparr>, length (pre @ pack_rpt_client_entry E c),
         if size_parsed ?b + 46 \<noteq> block_size ?b then kRCParseResNoData else kRCParseResFullBlockParseOk) = None"
      using Cons.prems False by (intro Cons.IH) auto
    then show ?thesis
      using s len Cons.prems(5) by (subst client_list_loop.simps) (auto simp: add.assoc)
  qed
qed simp

lemma broker_message_faults:
  assumes "etcpal_ok E" and "length cid = 16" and "length d + 28 < 2 ^ 20"
    and "\<And>bs. \<exists>bs1 bmsg1. initialize_broker_message
        (bs\<lparr>bs_block := \<lparr>block_size = 5 + length d, size_parsed = 5, consuming_bad_block = False, parsed_header = True\<rparr>\<rparr>)
        ((msg_broker (mb_msg mb))\<lparr>bm_vector := v\<rparr>) (length d) = (bs1, bmsg1) \<and>
      parse_broker_data E alloc bs1 (d @ rest) bmsg1 kRCParseResNoData = None"
  shows "rc_msg_buf_parse_data E alloc
    (fresh_buf mb (pack_broker_header_with_rlp E (broker_rlp E cid (5 + length d)) v @ d @ rest)) = None"
proof -
  let ?body = "PACK_BROKER_HEADER E (5 + length d) v @ d" and ?rlp = "rlp_pdu cid (ACN_VECTOR_ROOT_BROKER E) (5 + length d)"
  let ?msg = "(mb_msg mb)\<lparr>msg_vector := ACN_VECTOR_ROOT_BROKER E, sender_cid := cid\<rparr>"
  have h: "length (PACK_BROKER_HEADER E (5 + length d) v) = 5"
    using assms(1) by (simp add: PACK_BROKER_HEADER_def etcpal_simps)
  have root: "length (acn_pack_root_layer_header E ?rlp) = 23"
    "acn_parse_root_layer_header E (acn_pack_root_layer_header E ?rlp @ x) = Some ?rlp" for x
    using assms(1-3) by (simp_all add: etcpal_ok_root rlp_pdu_def)
  have broker: "parse_broker_block E alloc (INIT_BROKER_STATE (5 + length d) bs) (?body @ rest)
      (msg_broker (mb_msg mb)) kRCParseResNoData = None" for bs
  proof -
    obtain bs1 bmsg1 where i: "initialize_broker_message
        (bs\<lparr>bs_block := \<lparr>block_size = 5 + length d, size_parsed = 5, consuming_bad_block = False, parsed_header = True\<rparr>\<rparr>)
        ((msg_broker (mb_msg mb))\<lparr>bm_vector := v\<rparr>) (length d) = (bs1, bmsg1)"
      and p: "parse_broker_data E alloc bs1 (d @ rest) bmsg1 kRCParseResNoData = None"
      using assms(4) by blast
    have "parse_broker_header E (INIT_BROKER_STATE (5 + length d) bs) (?body @ rest) (msg_broker (mb_msg mb)) =
        (5, bs1, bmsg1, kRCParseResNoData)"
      using assms(1,3) i
      by (simp add: parse_broker_header_def INIT_BROKER_STATE_def INIT_PDU_BLOCK_STATE_def PACK_BROKER_HEADER_def
          pack_pdu_length_def etcpal_simps Let_def)
    moreover have "parsed_header (bs_block bs1)" using initialize_broker_message_block [OF i] by simp
    ultimately show ?thesis using p h by (simp add: parse_broker_block_def)
  qed
  let ?rs = "INIT_RLP_STATE (28 + length d) (rlp_state mb)"
  have "parse_rlp_header E ?rs (acn_pack_root_layer_header E ?rlp @ ?body @ rest) (mb_msg mb) =
      (23, initialize_rdmnet_message E ((rlp_state mb)\<lparr>rlp_block := \<lparr>block_size = 28 + length d, size_parsed = 23,
         consuming_bad_block = False, parsed_header = True\<rparr>\<rparr>) ?msg (5 + length d), ?msg, kRCParseResNoData)"
    using assms(1) root
    by (simp add: parse_rlp_header_def INIT_RLP_STATE_def INIT_PDU_BLOCK_STATE_def etcpal_simps Let_def rlp_pdu_def)
  then have "parse_rlp_block E alloc ?rs (acn_pack_root_layer_header E ?rlp @ ?body @ rest) (mb_msg mb) = None"
    using broker [simplified] root
    by (simp add: parse_rlp_block_def initialize_rdmnet_message_def parse_rlp_data_def)
  then have "parse_data_step E alloc (fresh_buf mb (wire E cid (ACN_VECTOR_ROOT_BROKER E) ?body @ rest)) = None"
    using locate_wire [OF assms(1,2), of ?body "ACN_VECTOR_ROOT_BROKER E" rest] assms(3) h
    by (simp add: parse_data_step_def fresh_buf_def parse_data_block_def add.commute)
  then show ?thesis
    using broker_packed(1) [OF assms(1-3), of v] by (subst rc_msg_buf_parse_data.simps) (simp flip: append_assoc)
qed

lemma client_list_packed_message:
  assumes "etcpal_ok E" and "length cid = 16" and "ces \<noteq> []" and "\<forall>c\<in>set ces. valid_entry c"
    and "is_client_list_vector v"
    and "rc_broker_get_rpt_client_list_buffer_size E (length ces) \<le> buflen" and "46 * length ces + 28 < 2 ^ 20"
  shows "rc_broker_pack_rpt_client_list E buflen cid v ces =
      pack_broker_header_with_rlp E (broker_rlp E cid (5 + length (concat (map (pack_rpt_client_entry E) ces)))) v @
      concat (map (pack_rpt_client_entry E) ces)"
    and "length (concat (map (pack_rpt_client_entry E) ces)) = 46 * length ces"
proof -
  let ?d = "concat (map (pack_rpt_client_entry E) ces)"
  show len: "length ?d = 46 * length ces"
    using assms(4) length_pack_rpt_client_entry [OF assms(1)] by (induction ces) simp_all
  have d28: "length ?d + 28 < 2 ^ 20" using len assms(7) by simp
  note hdr = broker_packed(2,3) [OF assms(1,2) d28, of v]
  have buf: "44 + 46 * length ces \<le> buflen"
    using assms(1,6)
    by (simp add: rc_broker_get_rpt_client_list_buffer_size_def BROKER_PDU_FULL_HEADER_SIZE_def etcpal_simps)
  then have "pack_elements buflen RPT_CLIENT_ENTRY_SIZE (pack_rpt_client_entry E) 44 ces = Some ?d"
    by (intro pack_elements_fits) simp
  then show "rc_broker_pack_rpt_client_list E buflen cid v ces =
      pack_broker_header_with_rlp E (broker_rlp E cid (5 + length ?d)) v @ ?d"
    using assms(1,3) assms(5) buf hdr len
    by (auto simp: rc_broker_pack_rpt_client_list_def BROKER_PDU_FULL_HEADER_SIZE_def etcpal_simps Let_def mult.commute)
qed

text \<open>The first bytes of a packed list name the client protocol of the whole list.\<close>

lemma packed_list_protocol:
  assumes "etcpal_ok E" and "ces \<noteq> []" and "\<forall>c\<in>set ces. valid_entry c"
  shows "unpack_u32b E (drop 3 (concat (map (pack_rpt_client_entry E) ces) @ rest)) = kClientProtocolRPT"
    and "23 \<le> length (concat (map (pack_rpt_client_entry E) ces))"
proof -
  obtain c cs where ces: "ces = c # cs" using assms(2) by (cases ces) auto
  show "unpack_u32b E (drop 3 (concat (map (pack_rpt_client_entry E) ces) @ rest)) = kClientProtocolRPT"
    using assms(1) by (simp add: ces pack_rpt_client_entry_def PACK_CLIENT_ENTRY_HEADER_def etcpal_simps)
  show "23 \<le> length (concat (map (pack_rpt_client_entry E) ces))"
    using assms(1,3) by (simp add: ces length_pack_rpt_client_entry)
qed

definition sample_entry :: RdmnetRptClientEntry where
  "sample_entry = \<lparr>ce_cid = replicate 16 7, ce_uid = \<lparr>manu = 0x6574, dev_id = 1\<rparr>, ce_type = 0, ce_binding_cid = replicate 16 0\<rparr>"

lemma valid_sample_entry: "valid_entry sample_entry"
  by (simp add: valid_entry_def sample_entry_def)

text \<open>
  C14. A list of RPT client entries packed by \<^verbatim>\<open>rc_broker_pack_rpt_client_list\<close> under one of the four client
  list vectors, into a buffer of the advertised size, is read back by \<^verbatim>\<open>rc_msg_buf_parse_data\<close>: the
  message has the vector, the sender and exactly these entries, none are announced to follow, and the
  bytes behind the message stay in the buffer.
\<close>

theorem client_list_roundtrip:
  assumes "etcpal_ok E" and "length cid = 16" and "ces \<noteq> []" and "\<forall>c\<in>set ces. valid_entry c"
    and "is_client_list_vector v"
    and "rc_broker_get_rpt_client_list_buffer_size E (length ces) \<le> buflen" and "46 * length ces + 28 < 2 ^ 20"
    and "\<forall>n\<le>length ces. alloc n"
  shows "\<exists>mb'. rc_msg_buf_parse_data E alloc (fresh_buf mb (rc_broker_pack_rpt_client_list E buflen cid v ces @ rest)) =
      Some (kEtcPalErrOk, mb') \<and> mb_buf mb' = rest \<and> \<not> have_preamble mb' \<and>
      mb_msg mb' = (mb_msg mb)\<lparr>msg_vector := ACN_VECTOR_ROOT_BROKER E, sender_cid := cid,
        msg_broker := (msg_broker (mb_msg mb))\<lparr>bm_vector := v,
          client_list := \<lparr>cl_client_protocol = kClientProtocolRPT,
            cl_rpt = \<lparr>entries = ces, more_coming = False\<rparr>\<rparr>\<rparr>\<rparr>"
proof -
  define d where "d = concat (map (pack_rpt_client_entry E) ces)"
  note m = client_list_packed_message [OF assms(1-7), folded d_def]
  have d28: "length d + 28 < 2 ^ 20" using m(2) assms(7) by simp
  note prot = packed_list_protocol [OF assms(1,3,4), folded d_def]
  let ?l = "\<lparr>cl_client_protocol = kClientProtocolRPT, cl_rpt = \<lparr>entries = ces, more_coming = False\<rparr>\<rparr>"
  have p: "\<exists>cls'. parse_client_list E alloc (INIT_CLIENT_LIST_STATE (length d) cls) (d @ rest)
      \<lparr>cl_client_protocol = kClientProtocolUnknown, cl_rpt = empty_list\<rparr> =
    Some (length d, cls', ?l, kRCParseResFullBlockParseOk)" for cls
  proof -
    obtain cls' where "client_list_loop E alloc ([] @ d @ rest)
        (INIT_CLIENT_LIST_STATE (length d) cls, empty_list, length ([] :: bytes), kRCParseResNoData) =
      Some (length d, cls', \<lparr>entries = ces, more_coming = False\<rparr>, Some kRCParseResFullBlockParseOk)"
      using client_list_loop_packed [OF assms(1,4), of empty_list alloc "INIT_CLIENT_LIST_STATE (length d) cls" "[]" rest]
        assms(3,8) m(2)
      by (auto simp: empty_list_def INIT_CLIENT_LIST_STATE_def INIT_PDU_BLOCK_STATE_def simp flip: d_def)
    then show ?thesis
      using prot(1) [of rest] prot(2)
      by (simp add: parse_client_list_def parse_rpt_client_list_def INIT_CLIENT_LIST_STATE_def
          INIT_PDU_BLOCK_STATE_def Let_def)
  qed
  show ?thesis
    unfolding m(1) append_assoc
  proof (rule broker_message_received [OF assms(1,2) d28])
    fix bs :: BrokerState
    let ?b = "\<lparr>block_size = 5 + length d, size_parsed = 5, consuming_bad_block = False, parsed_header = True\<rparr>"
    obtain cls' where "parse_client_list E alloc (INIT_CLIENT_LIST_STATE (length d) (bs_client_list bs)) (d @ rest)
        \<lparr>cl_client_protocol = kClientProtocolUnknown, cl_rpt = empty_list\<rparr> =
      Some (length d, cls', ?l, kRCParseResFullBlockParseOk)"
      using p by blast
    then show "\<exists>bs1 bmsg1 bs2. initialize_broker_message (bs\<lparr>bs_block := ?b\<rparr>)
        ((msg_broker (mb_msg mb))\<lparr>bm_vector := v\<rparr>) (length d) = (bs1, bmsg1) \<and>
      parse_broker_data E alloc bs1 (d @ rest) bmsg1 kRCParseResNoData =
        Some (length d, bs2, (msg_broker (mb_msg mb))\<lparr>bm_vector := v, client_list := ?l\<rparr>, kRCParseResFullBlockParseOk)"
      using assms(5) by (auto simp: initialize_broker_message_def parse_broker_data_def Let_def)
  qed
qed

theorem client_list_roundtrip_witness:
  "\<exists>mb'. rc_msg_buf_parse_data etcpal_be (\<lambda>n. n \<le> 2) (fresh_buf idle_buf
        (rc_broker_pack_rpt_client_list etcpal_be 200 (replicate 16 9) VECTOR_BROKER_CLIENT_ADD [sample_entry, sample_entry] @ [1, 2])) =
      Some (kEtcPalErrOk, mb') \<and> mb_buf mb' = [1, 2] \<and> \<not> have_preamble mb' \<and>
      mb_msg mb' = (mb_msg idle_buf)\<lparr>msg_vector := ACN_VECTOR_ROOT_BROKER etcpal_be, sender_cid := replicate 16 9,
        msg_broker := (msg_broker (mb_msg idle_buf))\<lparr>bm_vector := VECTOR_BROKER_CLIENT_ADD,
          client_list := \<lparr>cl_client_protocol = kClientProtocolRPT,
            cl_rpt = \<lparr>entries = [sample_entry, sample_entry], more_coming = False\<rparr>\<rparr>\<rparr>\<rparr>"
  by (rule client_list_roundtrip)
    (simp_all add: valid_sample_entry rc_broker_get_rpt_client_list_buffer_size_def BROKER_PDU_FULL_HEADER_SIZE_def etcpal_simps)

text \<open>
  C37. If memory is limited to fewer entries than a client list has, as with static memory, and the
  list arrives in one piece, \<^verbatim>\<open>rc_msg_buf_parse_data\<close> never returns: on a failed allocation the loop of
  \<^verbatim>\<open>parse_rpt_client_list\<close> notes a partial list but does not leave.
\<close>

theorem client_list_starves:
  assumes "etcpal_ok E" and "length cid = 16" and "\<forall>c\<in>set ces. valid_entry c"
    and "is_client_list_vector v"
    and "rc_broker_get_rpt_client_list_buffer_size E (length ces) \<le> buflen" and "46 * length ces + 28 < 2 ^ 20"
    and "\<forall>n. alloc n \<longleftrightarrow> n \<le> max_entries" and "max_entries < length ces"
  shows "rc_msg_buf_parse_data E alloc (fresh_buf mb (rc_broker_pack_rpt_client_list E buflen cid v ces @ rest)) = None"
proof -
  have ne: "ces \<noteq> []" using assms(8) by auto
  define d where "d = concat (map (pack_rpt_client_entry E) ces)"
  note m = client_list_packed_message [OF assms(1,2) ne assms(3-6), folded d_def]
  have d28: "length d + 28 < 2 ^ 20" using m(2) assms(6) by simp
  note prot = packed_list_protocol [OF assms(1) ne assms(3), folded d_def]
  have p: "parse_client_list E alloc (INIT_CLIENT_LIST_STATE (length d) cls) (d @ rest)
      \<lparr>cl_client_protocol = kClientProtocolUnknown, cl_rpt = empty_list\<rparr> = None" for cls
  proof -
    have "client_list_loop E alloc ([] @ d @ rest)
        (INIT_CLIENT_LIST_STATE (length d) cls, empty_list, length ([] :: bytes), kRCParseResNoData) = None"
      unfolding d_def
      by (rule client_list_loop_starves [OF assms(1,3,7)])
        (use assms(8) m(2) in \<open>simp_all add: empty_list_def INIT_CLIENT_LIST_STATE_def INIT_PDU_BLOCK_STATE_def d_def\<close>)
    then show ?thesis
      using prot(1) [of rest] prot(2)
      by (simp add: parse_client_list_def parse_rpt_client_list_def INIT_CLIENT_LIST_STATE_def
          INIT_PDU_BLOCK_STATE_def Let_def)
  qed
  show ?thesis
    unfolding m(1) append_assoc
    by (rule broker_message_faults [OF assms(1,2) d28])
      (use assms(4) p in \<open>auto simp: initialize_broker_message_def parse_broker_data_def Let_def\<close>)
qed

theorem client_list_starves_witness:
  "rc_msg_buf_parse_data etcpal_be (\<lambda>n. n \<le> 1) (fresh_buf idle_buf
     (rc_broker_pack_rpt_client_list etcpal_be 200 (replicate 16 9) VECTOR_BROKER_CONNECTED_CLIENT_LIST
        [sample_entry, sample_entry] @ [])) = None"
  by (rule client_list_starves [where max_entries = 1])
    (simp_all add: valid_sample_entry rc_broker_get_rpt_client_list_buffer_size_def BROKER_PDU_FULL_HEADER_SIZE_def etcpal_simps)

section \<open>Client connect\<close>

lemma pad_update: "length u < n \<Longrightarrow> (u @ replicate (n - length u) x) [n - 1 := x] = u @ replicate (n - length u) x"
  by (rule nth_equalityI) (auto simp: nth_list_update nth_append)

lemma safe_strncpy_form:
  assumes "0 < n"
  obtains u where "rdmnet_safe_strncpy src n = u @ replicate (n - length u) 0" "length u < n" "0 \<notin> set u"
proof -
  define s where "s = takeWhile (\<lambda>c. c \<noteq> 0) (take n src)"
  have s: "length s \<le> n" "0 \<notin> set s"
    unfolding s_def by (auto intro: order_trans [OF length_takeWhile_le] dest: set_takeWhileD)
  have eq: "rdmnet_safe_strncpy src n = (s @ replicate (n - length s) 0) [n - 1 := 0]"
    by (simp add: rdmnet_safe_strncpy_def s_def Let_def)
  show thesis
  proof (cases "length s = n")
    case True
    then have "s \<noteq> []" using assms by auto
    moreover have "s[n - 1 := 0] = butlast s @ [0]"
      using True assms by (intro nth_equalityI) (auto simp: nth_list_update nth_append nth_butlast)
    ultimately show thesis
      using True s eq assms by (intro that [of "butlast s"]) (auto dest: in_set_butlastD)
  next
    case False
    then have "length s < n" using s(1) by simp
    from pad_update [OF this, of 0] show thesis using eq s(2) \<open>length s < n\<close> by (intro that [of s]) simp_all
  qed
qed

lemma safe_strncpy_idem:
  assumes "0 < n"
  shows "rdmnet_safe_strncpy (rdmnet_safe_strncpy src n @ r) n = rdmnet_safe_strncpy src n"
proof -
  obtain u where u: "rdmnet_safe_strncpy src n = u @ replicate (n - length u) 0" "length u < n" "0 \<notin> set u"
    by (rule safe_strncpy_form [OF assms])
  have stop: "takeWhile (\<lambda>c. c \<noteq> 0) (u @ 0 # x) = u" for x using u(3) by (subst takeWhile_append2) auto
  have "takeWhile (\<lambda>c. c \<noteq> 0) (take n (rdmnet_safe_strncpy src n @ r)) = u"
    using u(1,2) stop by (cases "n - length u") simp_all
  then have "rdmnet_safe_strncpy (rdmnet_safe_strncpy src n @ r) n = (u @ replicate (n - length u) 0) [n - 1 := 0]"
    by (simp add: rdmnet_safe_strncpy_def [of "_ @ r"] Let_def)
  then show ?thesis using pad_update [OF u(2), of 0] u(1) by simp
qed

lemma client_connect_sent:
  assumes "etcpal_ok E" and "length cid = 16" and "ce_client_protocol (cc_client_entry m) = kClientProtocolRPT"
    and "valid_entry (entry_rpt (ce_data (cc_client_entry m)))"
  defines "d \<equiv> client_connect_common E m @ pack_rpt_client_entry E (entry_rpt (ce_data (cc_client_entry m)))"
  shows "length d = 343"
    and "rc_broker_send_client_connect E stream_send s cid m =
      Some (kEtcPalErrOk, s @ pack_broker_header_with_rlp E (broker_rlp E cid (5 + length d)) VECTOR_BROKER_CONNECT @ d)"
proof -
  let ?e = "entry_rpt (ce_data (cc_client_entry m))"
  have common: "length (client_connect_common E m) = 297"
    using assms(1) by (simp add: client_connect_common_def etcpal_simps)
  show len: "length d = 343" using common length_pack_rpt_client_entry [OF assms(1,4)] by (simp add: d_def)
  then have d28: "length d + 28 < 2 ^ 20" by simp
  have len': "calc_client_connect_len m = 5 + length d"
    using assms(3) len by (simp add: calc_client_connect_len_def)
  have ne: "client_connect_common E m \<noteq> []" "pack_rpt_entry_data E ?e \<noteq> []"
    using common assms(1) by (auto simp: pack_rpt_entry_data_def)
  have "send_segments stream_send s
      (broker_header_segments E (broker_rlp E cid (5 + length d)) VECTOR_BROKER_CONNECT @ [client_connect_common E m]) =
    Some (kEtcPalErrOk, s @ pack_broker_header_with_rlp E (broker_rlp E cid (5 + length d)) VECTOR_BROKER_CONNECT @
      client_connect_common E m)"
    using send_segments_stream [of "broker_header_segments E (broker_rlp E cid (5 + length d)) VECTOR_BROKER_CONNECT @
        [client_connect_common E m]" s] broker_packed(4) [OF assms(1,2) d28, of VECTOR_BROKER_CONNECT] ne
    by (simp add: pack_broker_header_with_rlp_def pack_segments_def)
  then show "rc_broker_send_client_connect E stream_send s cid m =
      Some (kEtcPalErrOk, s @ pack_broker_header_with_rlp E (broker_rlp E cid (5 + length d)) VECTOR_BROKER_CONNECT @ d)"
    using assms(3) ne len len'
    by (simp add: rc_broker_send_client_connect_def Let_def broker_rlp_def rlp_pdu_def pack_segments_def
        d_def pack_rpt_client_entry_def send_segments.simps)
qed

lemma parse_packed_connect:
  assumes "etcpal_ok E" and "valid_entry e"
  shows "\<exists>s'. parse_client_connect E (INIT_CLIENT_CONNECT_STATE 343 s)
      (client_connect_common E m @ pack_rpt_client_entry E e @ rest) ccmsg r =
    (343, s', ccmsg\<lparr>cc_scope := rdmnet_safe_strncpy (cc_scope m) E133_SCOPE_STRING_PADDED_LENGTH,
       cc_e133_version := cc_e133_version m,
       cc_search_domain := rdmnet_safe_strncpy (cc_search_domain m) E133_DOMAIN_STRING_PADDED_LENGTH,
       cc_connect_flags := cc_connect_flags m,
       cc_client_entry := \<lparr>ce_client_protocol = kClientProtocolRPT,
         ce_data = (ce_data (cc_client_entry ccmsg))\<lparr>entry_rpt := e\<rparr>\<rparr>\<rparr>, kRCParseResFullBlockParseOk)"
proof -
  let ?d = "client_connect_common E m @ pack_rpt_client_entry E e @ rest"
  have common: "length (client_connect_common E m) = 297"
    using assms(1) by (simp add: client_connect_common_def etcpal_simps)
  have hdr: "parse_client_connect_header E ?d ccmsg =
    ccmsg\<lparr>cc_scope := rdmnet_safe_strncpy (cc_scope m) E133_SCOPE_STRING_PADDED_LENGTH,
       cc_e133_version := cc_e133_version m,
       cc_search_domain := rdmnet_safe_strncpy (cc_search_domain m) E133_DOMAIN_STRING_PADDED_LENGTH,
       cc_connect_flags := cc_connect_flags m\<rparr>"
    using assms(1)
    by (simp add: parse_client_connect_header_def client_connect_common_def safe_strncpy_idem etcpal_simps)
  obtain cs' where "parse_single_client_entry E (INIT_CLIENT_ENTRY_STATE 46 (cc_entry s)) (pack_rpt_client_entry E e @ rest)
      (ce_client_protocol (cc_client_entry ccmsg)) (ce_data (cc_client_entry ccmsg)) =
    (46, cs', kClientProtocolRPT, (ce_data (cc_client_entry ccmsg))\<lparr>entry_rpt := e\<rparr>, kRCParseResFullBlockParseOk)"
    using parse_packed_entry [OF assms, of 46] by fastforce
  with hdr common length_pack_rpt_client_entry [OF assms] show ?thesis
    by (simp add: parse_client_connect_def parse_entry_after_common_def INIT_CLIENT_CONNECT_STATE_def Let_def)
qed

text \<open>
  C16. A Client Connect message for an RPT client sent by \<^verbatim>\<open>rc_broker_send_client_connect\<close> on a socket that
  takes everything is read back by \<^verbatim>\<open>rc_msg_buf_parse_data\<close>: scope and search domain as the bounded,
  zero-padded strings that were sent, version, flags and the client entry unchanged.
\<close>

theorem client_connect_roundtrip:
  assumes "etcpal_ok E" and "length cid = 16" and "ce_client_protocol (cc_client_entry m) = kClientProtocolRPT"
    and "valid_entry (entry_rpt (ce_data (cc_client_entry m)))"
  shows "\<exists>d mb'. rc_broker_send_client_connect E stream_send [] cid m = Some (kEtcPalErrOk, d) \<and>
      rc_msg_buf_parse_data E alloc (fresh_buf mb (d @ rest)) = Some (kEtcPalErrOk, mb') \<and>
      mb_buf mb' = rest \<and> \<not> have_preamble mb' \<and>
      mb_msg mb' = (mb_msg mb)\<lparr>msg_vector := ACN_VECTOR_ROOT_BROKER E, sender_cid := cid,
        msg_broker := (msg_broker (mb_msg mb))\<lparr>bm_vector := VECTOR_BROKER_CONNECT,
          client_connect := (client_connect (msg_broker (mb_msg mb)))
            \<lparr>cc_scope := rdmnet_safe_strncpy (cc_scope m) E133_SCOPE_STRING_PADDED_LENGTH,
             cc_e133_version := cc_e133_version m,
             cc_search_domain := rdmnet_safe_strncpy (cc_search_domain m) E133_DOMAIN_STRING_PADDED_LENGTH,
             cc_connect_flags := cc_connect_flags m,
             cc_client_entry := \<lparr>ce_client_protocol = kClientProtocolRPT,
               ce_data = (ce_data (cc_client_entry (client_connect (msg_broker (mb_msg mb)))))
                 \<lparr>entry_rpt := entry_rpt (ce_data (cc_client_entry m))\<rparr>\<rparr>\<rparr>\<rparr>\<rparr>"
proof -
  define e where "e = entry_rpt (ce_data (cc_client_entry m))"
  define d where "d = client_connect_common E m @ pack_rpt_client_entry E e"
  let ?old = "client_connect (msg_broker (mb_msg mb))"
  let ?cc = "?old\<lparr>cc_scope := rdmnet_safe_strncpy (cc_scope m) E133_SCOPE_STRING_PADDED_LENGTH,
             cc_e133_version := cc_e133_version m,
             cc_search_domain := rdmnet_safe_strncpy (cc_search_domain m) E133_DOMAIN_STRING_PADDED_LENGTH,
             cc_connect_flags := cc_connect_flags m,
             cc_client_entry := \<lparr>ce_client_protocol = kClientProtocolRPT,
               ce_data = (ce_data (cc_client_entry ?old))\<lparr>entry_rpt := e\<rparr>\<rparr>\<rparr>"
  note sent = client_connect_sent [OF assms, folded e_def, folded d_def]
  have d28: "length d + 28 < 2 ^ 20" using sent(1) by simp
  have "\<exists>mb'. rc_msg_buf_parse_data E alloc (fresh_buf mb
        (pack_broker_header_with_rlp E (broker_rlp E cid (5 + length d)) VECTOR_BROKER_CONNECT @ d @ rest)) =
      Some (kEtcPalErrOk, mb') \<and> mb_buf mb' = rest \<and> \<not> have_preamble mb' \<and>
      mb_msg mb' = (mb_msg mb)\<lparr>msg_vector := ACN_VECTOR_ROOT_BROKER E, sender_cid := cid,
        msg_broker := (msg_broker (mb_msg mb))\<lparr>bm_vector := VECTOR_BROKER_CONNECT, client_connect := ?cc\<rparr>\<rparr>"
  proof (rule broker_message_received [OF assms(1,2) d28])
    fix bs :: BrokerState
    let ?b = "\<lparr>block_size = 5 + length d, size_parsed = 5, consuming_bad_block = False, parsed_header = True\<rparr>"
    obtain s' where "parse_client_connect E (INIT_CLIENT_CONNECT_STATE 343 (bs_client_connect bs)) (d @ rest) ?old
        kRCParseResNoData = (343, s', ?cc, kRCParseResFullBlockParseOk)"
      using parse_packed_connect [OF assms(1) assms(4) [folded e_def], of "bs_client_connect bs" m rest ?old kRCParseResNoData]
      unfolding d_def append_assoc by blast
    then show "\<exists>bs1 bmsg1 bs2. initialize_broker_message (bs\<lparr>bs_block := ?b\<rparr>)
        ((msg_broker (mb_msg mb))\<lparr>bm_vector := VECTOR_BROKER_CONNECT\<rparr>) (length d) = (bs1, bmsg1) \<and>
      parse_broker_data E alloc bs1 (d @ rest) bmsg1 kRCParseResNoData =
        Some (length d, bs2, (msg_broker (mb_msg mb))\<lparr>bm_vector := VECTOR_BROKER_CONNECT, client_connect := ?cc\<rparr>,
          kRCParseResFullBlockParseOk)"
      using sent(1) by (simp add: initialize_broker_message_def parse_broker_data_def Let_def)
  qed
  then show ?thesis by (elim exE) (use sent(2) [of "[]"] in \<open>simp add: e_def\<close>)
qed

definition sample_connect :: BrokerClientConnectMsg where
  "sample_connect = \<lparr>cc_scope = [0x64, 0x65, 0x66], cc_e133_version = 1, cc_search_domain = [0x6c], cc_connect_flags = 1,
     cc_client_entry = \<lparr>ce_client_protocol = kClientProtocolRPT,
       ce_data = \<lparr>entry_rpt = sample_entry, entry_ept = \<lparr>ept_cid = [], ept_protocols = []\<rparr>\<rparr>\<rparr>\<rparr>"

theorem client_connect_roundtrip_witness:
  "\<exists>d mb'. rc_broker_send_client_connect etcpal_be stream_send [] (replicate 16 9) sample_connect = Some (kEtcPalErrOk, d) \<and>
      rc_msg_buf_parse_data etcpal_be (\<lambda>n. False) (fresh_buf idle_buf (d @ [1, 2, 3])) = Some (kEtcPalErrOk, mb') \<and>
      mb_buf mb' = [1, 2, 3] \<and> \<not> have_preamble mb' \<and>
      cc_connect_flags (client_connect (msg_broker (mb_msg mb'))) = 1 \<and>
      entry_rpt (ce_data (cc_client_entry (client_connect (msg_broker (mb_msg mb'))))) = sample_entry"
  using client_connect_roundtrip [of etcpal_be "replicate 16 9" sample_connect "\<lambda>n. False" idle_buf "[1, 2, 3]"]
  by (fastforce simp: sample_connect_def valid_sample_entry)

end
