(* ===== verification/Rpt_Roundtrip.thy ===== *)
theory Rpt_Roundtrip
  imports Roundtrip
begin

text \<open>
  Round trips of the RPT messages: a Request, Notification or Status packed by \<^verbatim>\<open>rpt_prot.c\<close> is read back
  by \<^verbatim>\<open>rc_msg_buf_parse_data\<close>; what is sent piece by piece is what would have been packed, as long as the
  socket takes all of it.
\<close>

section \<open>RPT messages\<close>

lemma rpt_wire:
  assumes "etcpal_ok E" and "length cid = 16" and "length body + 23 < 2 ^ 20"
    and "\<And>rs. \<exists>rs'. parse_rpt_block E alloc (INIT_RPT_STATE (length body) rs) (body @ rest)
      (msg_rpt (mb_msg mb)) kRCParseResNoData = Some (length body, rs', rmsg, kRCParseResFullBlockParseOk)"
  shows "\<exists>mb'. rc_msg_buf_parse_data E alloc (fresh_buf mb (wire E cid (ACN_VECTOR_ROOT_RPT E) body @ rest)) =
      Some (kEtcPalErrOk, mb') \<and> mb_buf mb' = rest \<and> \<not> have_preamble mb' \<and>
      mb_msg mb' = (mb_msg mb)\<lparr>msg_vector := ACN_VECTOR_ROOT_RPT E, sender_cid := cid, msg_rpt := rmsg\<rparr>"
proof -
  let ?msg = "(mb_msg mb)\<lparr>msg_vector := ACN_VECTOR_ROOT_RPT E, sender_cid := cid\<rparr>"
  let ?b = "\<lparr>block_size = 23 + length body, size_parsed = 23, consuming_bad_block = False, parsed_header = True\<rparr>"
  have ne: "ACN_VECTOR_ROOT_RPT E \<noteq> ACN_VECTOR_ROOT_BROKER E" using assms(1) by (simp add: etcpal_ok_consts)
  have "\<exists>rs'. parse_rlp_block E alloc (INIT_RLP_STATE (23 + length body) rs)
     (acn_pack_root_layer_header E (rlp_pdu cid (ACN_VECTOR_ROOT_RPT E) (length body)) @ body @ rest) (mb_msg mb) =
     Some (23 + length body, rs', ?msg\<lparr>msg_rpt := rmsg\<rparr>, Some kRCParseResFullBlockParseOk)" for rs
  proof -
    obtain s' where p: "parse_rpt_block E alloc (INIT_RPT_STATE (length body) (rlp_rpt rs)) (body @ rest)
      (msg_rpt (mb_msg mb)) kRCParseResNoData = Some (length body, s', rmsg, kRCParseResFullBlockParseOk)"
      using assms(4) by blast
    show ?thesis
      by (rule parse_rlp_wire [where rsb = "rs\<lparr>rlp_block := ?b, rlp_rpt := s'\<rparr>"])
        (use assms(1-3) ne in \<open>simp_all add: parse_rlp_data_def initialize_rdmnet_message_def p\<close>)
  qed
  from parse_data_wire [OF assms(1-3) this] show ?thesis by simp
qed

lemma unpack_pack_rpt_header:
  assumes "etcpal_ok E"
  shows "length (pack_rpt_header E n v h) = 28"
    and "unpack_u32b E (drop 3 (pack_rpt_header E n v h @ r)) = v"
    and "unpack_rpt_header E (drop 7 (pack_rpt_header E n v h @ r)) = h"
    and "n < 2 ^ 20 \<Longrightarrow> ACN_PDU_LENGTH E (pack_rpt_header E n v h @ r) = n"
  using assms by (simp_all add: pack_rpt_header_def unpack_rpt_header_def pack_pdu_length_def unpack_uid_local etcpal_simps)

lemma parse_rpt_pdu:
  fixes v :: u32 and d rs rmsg
  defines "b \<equiv> \<lparr>block_size = 28 + length d, size_parsed = 28, consuming_bad_block = False, parsed_header = False\<rparr>"
  assumes ok: "etcpal_ok E" and "length d + 28 < 2 ^ 20"
    and i: "initialize_rpt_message (rs\<lparr>rs_block := b\<rparr>) (rmsg\<lparr>rm_vector := v, rm_header := h\<rparr>) (length d) = (rs1, rmsg1)"
    and p: "parse_rpt_data E alloc (rs1\<lparr>rs_block := b\<lparr>parsed_header := True\<rparr>\<rparr>) (d @ rest) rmsg1 =
      Some (length d, rs2, rmsg2, kRCParseResFullBlockParseOk)"
  shows "\<exists>rs'. parse_rpt_block E alloc (INIT_RPT_STATE (28 + length d) rs)
    (pack_rpt_header E (28 + length d) v h @ d @ rest) rmsg r =
    Some (28 + length d, rs', rmsg2, kRCParseResFullBlockParseOk)"
proof -
  note u = unpack_pack_rpt_header [OF ok]
  have b1: "rs_block rs1 = b" using initialize_rpt_message_block [OF i] by simp
  then have "parse_rpt_header E (INIT_RPT_STATE (28 + length d) rs)
      (pack_rpt_header E (28 + length d) v h @ d @ rest) rmsg =
      (28, rs1\<lparr>rs_block := b\<lparr>parsed_header := True\<rparr>\<rparr>, rmsg1, kRCParseResNoData)"
    using assms(3) i u
    by (simp add: parse_rpt_header_def INIT_RPT_STATE_def INIT_PDU_BLOCK_STATE_def Let_def b_def)
  moreover have "rs_block rs2 = b\<lparr>parsed_header := True\<rparr>" using parse_rpt_data_block [OF p] by simp
  ultimately show ?thesis
    using p u(1) by (simp add: parse_rpt_block_def Let_def check_for_full_parse_def b_def)
qed

lemma rpt_packed:
  assumes "etcpal_ok E" and "length cid = 16" and "length d + 51 < 2 ^ 20"
  shows "pack_rpt_header_with_rlp E (rlp_pdu cid (ACN_VECTOR_ROOT_RPT E) (28 + length d)) v h @ d =
      wire E cid (ACN_VECTOR_ROOT_RPT E) (pack_rpt_header E (28 + length d) v h @ d)"
    and "pack_rpt_header_with_rlp E (rlp_pdu cid (ACN_VECTOR_ROOT_RPT E) (28 + length d)) v h \<noteq> []"
    and "length (pack_rpt_header_with_rlp E (rlp_pdu cid (ACN_VECTOR_ROOT_RPT E) (28 + length d)) v h) = 67"
proof -
  let ?rlp = "rlp_pdu cid (ACN_VECTOR_ROOT_RPT E) (28 + length d)"
  note h = unpack_pack_rpt_header(1) [OF assms(1), of "28 + length d" v h]
  then have h': "pack_rpt_header E (28 + length d) v h \<noteq> []" by auto
  have rlp: "length (rlp_sender_cid ?rlp) = 16" "rlp_data_len ?rlp + 23 < 2 ^ 20"
    using assms by (simp_all add: rlp_pdu_def)
  note seg = preamble_segments_ok [OF assms(1) rlp]
  have eq: "pack_rpt_header_with_rlp E ?rlp v h =
      acn_pack_tcp_preamble E (51 + length d) @ acn_pack_root_layer_header E ?rlp @ pack_rpt_header E (28 + length d) v h"
    using seg h' assms(1) by (auto simp: pack_rpt_header_with_rlp_def preamble_segments_def Let_def etcpal_simps split: if_split_asm)
      (simp_all add: rlp_pdu_def)
  then show "pack_rpt_header_with_rlp E ?rlp v h @ d =
      wire E cid (ACN_VECTOR_ROOT_RPT E) (pack_rpt_header E (28 + length d) v h @ d)"
    by (simp add: wire_def h)
  show "length (pack_rpt_header_with_rlp E ?rlp v h) = 67"
    using eq h assms(1) etcpal_ok_root(2) [OF assms(1) rlp] by (simp add: etcpal_simps)
  then show "pack_rpt_header_with_rlp E ?rlp v h \<noteq> []" by auto
qed

lemma rpt_message_received:
  assumes "etcpal_ok E" and "length cid = 16" and "length d + 51 < 2 ^ 20"
    and "\<And>rs. \<exists>rs1 rmsg1 rs2. initialize_rpt_message
        (rs\<lparr>rs_block := \<lparr>block_size = 28 + length d, size_parsed = 28, consuming_bad_block = False, parsed_header = False\<rparr>\<rparr>)
        ((msg_rpt (mb_msg mb))\<lparr>rm_vector := v, rm_header := h\<rparr>) (length d) = (rs1, rmsg1) \<and>
      parse_rpt_data E alloc (rs1\<lparr>rs_block := \<lparr>block_size = 28 + length d, size_parsed = 28,
          consuming_bad_block = False, parsed_header = True\<rparr>\<rparr>) (d @ rest) rmsg1 =
        Some (length d, rs2, rmsg2, kRCParseResFullBlockParseOk)"
  shows "\<exists>mb'. rc_msg_buf_parse_data E alloc
      (fresh_buf mb (pack_rpt_header_with_rlp E (rlp_pdu cid (ACN_VECTOR_ROOT_RPT E) (28 + length d)) v h @ d @ rest)) =
      Some (kEtcPalErrOk, mb') \<and> mb_buf mb' = rest \<and> \<not> have_preamble mb' \<and>
      mb_msg mb' = (mb_msg mb)\<lparr>msg_vector := ACN_VECTOR_ROOT_RPT E, sender_cid := cid, msg_rpt := rmsg2\<rparr>"
proof -
  note hl = unpack_pack_rpt_header(1) [OF assms(1)]
  have "\<exists>rs'. parse_rpt_block E alloc (INIT_RPT_STATE (28 + length d) rs)
      (pack_rpt_header E (28 + length d) v h @ d @ rest) (msg_rpt (mb_msg mb)) kRCParseResNoData =
      Some (28 + length d, rs', rmsg2, kRCParseResFullBlockParseOk)" for rs
  proof -
    obtain rs1 rmsg1 rs2 where "initialize_rpt_message
        (rs\<lparr>rs_block := \<lparr>block_size = 28 + length d, size_parsed = 28, consuming_bad_block = False, parsed_header = False\<rparr>\<rparr>)
        ((msg_rpt (mb_msg mb))\<lparr>rm_vector := v, rm_header := h\<rparr>) (length d) = (rs1, rmsg1)"
      "parse_rpt_data E alloc (rs1\<lparr>rs_block := \<lparr>block_size = 28 + length d, size_parsed = 28,
          consuming_bad_block = False, parsed_header = True\<rparr>\<rparr>) (d @ rest) rmsg1 =
        Some (length d, rs2, rmsg2, kRCParseResFullBlockParseOk)"
      using assms(4) by blast
    with assms(1,3) show ?thesis by (intro parse_rpt_pdu) simp_all
  qed
  then show ?thesis
    using rpt_wire [of E cid "pack_rpt_header E (28 + length d) v h @ d"] assms(1-3) hl
      rpt_packed(1) [OF assms(1-3), of v h] by (simp add: append_assoc [symmetric] del: append_assoc)
qed

section \<open>RDM commands\<close>

text \<open>
  An RDM command as the sources keep it in an \<^verbatim>\<open>RdmBuffer\<close>: the start code comes first and the length
  is that of an RDM packet.
\<close>

definition valid_cmd :: "RdmBuffer \<Rightarrow> bool" where
  "valid_cmd cmd \<longleftrightarrow> 26 \<le> length cmd \<and> length cmd \<le> 257 \<and> hd cmd = VECTOR_RDM_CMD_RDM_DATA"

lemma pack_rdm_cmd:
  assumes "etcpal_ok E" and "valid_cmd cmd"
  shows "length (PACK_RDM_CMD_PDU E cmd) = RDM_CMD_PDU_LEN cmd"
    and "ACN_PDU_LENGTH E (PACK_RDM_CMD_PDU E cmd @ r) = RDM_CMD_PDU_LEN cmd"
    and "drop 3 (PACK_RDM_CMD_PDU E cmd) = cmd"
proof -
  obtain c cs where cmd: "cmd = c # cs" "c = VECTOR_RDM_CMD_RDM_DATA" using assms(2) by (cases cmd) (auto simp: valid_cmd_def)
  show "length (PACK_RDM_CMD_PDU E cmd) = RDM_CMD_PDU_LEN cmd"
    "ACN_PDU_LENGTH E (PACK_RDM_CMD_PDU E cmd @ r) = RDM_CMD_PDU_LEN cmd"
    "drop 3 (PACK_RDM_CMD_PDU E cmd) = cmd"
    using assms by (simp_all add: cmd PACK_RDM_CMD_PDU_def RDM_CMD_PDU_LEN_def pack_pdu_length_def valid_cmd_def etcpal_simps)
qed

abbreviation cmds_size :: "RdmBuffer list \<Rightarrow> nat" where
  "cmds_size cmds \<equiv> sum_list (map RDM_CMD_PDU_LEN cmds)"

lemma length_packed_cmds:
  assumes "etcpal_ok E" and "\<forall>cmd\<in>set cmds. valid_cmd cmd"
  shows "length (concat (map (PACK_RDM_CMD_PDU E) cmds)) = cmds_size cmds"
  using assms(2) pack_rdm_cmd(1) [OF assms(1)] by (induction cmds) simp_all

lemma rdm_list_loop_packed:
  assumes ok: "etcpal_ok E" and "\<forall>cmd\<in>set cmds. valid_cmd cmd" and "\<forall>n\<le>length (entries l) + length cmds. alloc n"
    and "block_size b = size_parsed b + cmds_size cmds"
  shows "\<exists>b'. rdm_list_loop E alloc (pre @ concat (map (PACK_RDM_CMD_PDU E) cmds) @ rest) b l (length pre) res =
    Some (length pre + cmds_size cmds, b', l\<lparr>entries := entries l @ cmds\<rparr>,
      if cmds = [] then res else kRCParseResFullBlockParseOk)"
  using assms(2-)
proof (induction cmds arbitrary: pre b l res)
  case Nil
  then show ?case by (simp add: rdm_list_loop.simps)
next
  case (Cons cmd cmds)
  let ?r = "concat (map (PACK_RDM_CMD_PDU E) cmds) @ rest" and ?n = "RDM_CMD_PDU_LEN cmd"
  have v: "valid_cmd cmd" using Cons.prems(1) by simp
  note pk = pack_rdm_cmd [OF ok v]
  have n: "29 \<le> ?n" "?n \<le> 260" using v by (simp_all add: valid_cmd_def RDM_CMD_PDU_LEN_def)
  let ?b = "b\<lparr>size_parsed := size_parsed b + ?n\<rparr>" and ?l = "l\<lparr>entries := entries l @ [cmd]\<rparr>"
  define r1 where "r1 = (if size_parsed ?b \<ge> block_size ?b then kRCParseResFullBlockParseOk else res)"
  have r1: "r1 = kRCParseResFullBlockParseOk" if "cmds = []" using that Cons.prems(3) by (simp add: r1_def)
  have step: "rdm_list_loop E alloc (pre @ PACK_RDM_CMD_PDU E cmd @ ?r) b l (length pre) res =
      rdm_list_loop E alloc (pre @ PACK_RDM_CMD_PDU E cmd @ ?r) ?b ?l (length pre + ?n) r1"
    using ok n pk Cons.prems(2,3)
    by (subst rdm_list_loop.simps) (simp add: r1_def RDM_CMD_PDU_MIN_SIZE_def RDM_CMD_PDU_MAX_SIZE_def RDM_CMD_PDU_LEN_def etcpal_simps Let_def)
  have "\<exists>b'. rdm_list_loop E alloc ((pre @ PACK_RDM_CMD_PDU E cmd) @ ?r) ?b ?l (length (pre @ PACK_RDM_CMD_PDU E cmd)) r1 =
    Some (length (pre @ PACK_RDM_CMD_PDU E cmd) + cmds_size cmds, b', ?l\<lparr>entries := entries ?l @ cmds\<rparr>,
      if cmds = [] then r1 else kRCParseResFullBlockParseOk)"
    using Cons.prems by (intro Cons.IH) auto
  then show ?case
    using step pk(1) r1 by (auto simp: add.assoc)
qed

lemma parse_rdm_list_packed:
  assumes ok: "etcpal_ok E" and "\<forall>cmd\<in>set cmds. valid_cmd cmd" and "cmds \<noteq> []" and "\<forall>n\<le>length cmds. alloc n"
    and "cmds_size cmds + 7 < 2 ^ 20"
    and "hdr = PACK_REQUEST_HEADER E (7 + cmds_size cmds) \<or> hdr = PACK_NOTIFICATION_HEADER E (7 + cmds_size cmds)"
  shows "\<exists>s'. parse_rdm_list E alloc (INIT_RDM_LIST_STATE (7 + cmds_size cmds))
      (hdr @ concat (map (PACK_RDM_CMD_PDU E) cmds) @ rest) \<lparr>entries = [], more_coming = False\<rparr> =
    Some (7 + cmds_size cmds, s', \<lparr>entries = cmds, more_coming = False\<rparr>, kRCParseResFullBlockParseOk)"
proof -
  let ?n = "7 + cmds_size cmds" and ?d = "concat (map (PACK_RDM_CMD_PDU E) cmds) @ rest"
  have hdr: "length hdr = 7" "ACN_PDU_LENGTH E (hdr @ ?d) = ?n" "unpack_u32b E (drop 3 (hdr @ ?d)) = 1"
    using ok assms(5,6)
    by (auto simp: PACK_REQUEST_HEADER_def PACK_NOTIFICATION_HEADER_def pack_pdu_length_def etcpal_simps)
  obtain b' where "rdm_list_loop E alloc (hdr @ ?d) (INIT_PDU_BLOCK_STATE (cmds_size cmds))
      \<lparr>entries = [], more_coming = False\<rparr> (length hdr) kRCParseResNoData =
    Some (?n, b', \<lparr>entries = cmds, more_coming = False\<rparr>, kRCParseResFullBlockParseOk)"
    using rdm_list_loop_packed [OF ok assms(2), of "\<lparr>entries = [], more_coming = False\<rparr>" alloc
        "INIT_PDU_BLOCK_STATE (cmds_size cmds)" hdr rest kRCParseResNoData] assms(3,4) hdr(1)
    by (auto simp: INIT_PDU_BLOCK_STATE_def)
  then show ?thesis
    using hdr by (simp add: parse_rdm_list_def parse_rdm_list_header_def INIT_RDM_LIST_STATE_def INIT_PDU_BLOCK_STATE_def Let_def)
qed

section \<open>Request, notification and status\<close>

lemma rdm_message_received:
  assumes ok: "etcpal_ok E" and "length cid = 16" and valid: "\<forall>cmd\<in>set cmds. valid_cmd cmd" and "cmds \<noteq> []"
    and "cmds_size cmds + 58 < 2 ^ 20" and "\<forall>n\<le>length cmds. alloc n"
    and v: "v = VECTOR_RPT_REQUEST \<or> v = VECTOR_RPT_NOTIFICATION"
    and hdr: "hdr = PACK_REQUEST_HEADER E (7 + cmds_size cmds) \<or> hdr = PACK_NOTIFICATION_HEADER E (7 + cmds_size cmds)"
  defines "d \<equiv> hdr @ concat (map (PACK_RDM_CMD_PDU E) cmds)"
  shows "length d = 7 + cmds_size cmds"
    and "\<exists>mb'. rc_msg_buf_parse_data E alloc
      (fresh_buf mb (pack_rpt_header_with_rlp E (rlp_pdu cid (ACN_VECTOR_ROOT_RPT E) (28 + length d)) v h @ d @ rest)) =
      Some (kEtcPalErrOk, mb') \<and> mb_buf mb' = rest \<and> \<not> have_preamble mb' \<and>
      mb_msg mb' = (mb_msg mb)\<lparr>msg_vector := ACN_VECTOR_ROOT_RPT E, sender_cid := cid,
        msg_rpt := (msg_rpt (mb_msg mb))\<lparr>rm_vector := v, rm_header := h,
          rm_rdm := \<lparr>entries = cmds, more_coming = False\<rparr>\<rparr>\<rparr>"
proof -
  show len: "length d = 7 + cmds_size cmds"
    using ok hdr length_packed_cmds [OF ok valid]
    by (auto simp: d_def PACK_REQUEST_HEADER_def PACK_NOTIFICATION_HEADER_def etcpal_simps)
  obtain s' where p: "parse_rdm_list E alloc (INIT_RDM_LIST_STATE (length d)) (d @ rest)
      \<lparr>entries = [], more_coming = False\<rparr> =
    Some (length d, s', \<lparr>entries = cmds, more_coming = False\<rparr>, kRCParseResFullBlockParseOk)"
    using parse_rdm_list_packed [OF ok valid assms(4,6) _ hdr, of rest] assms(5) unfolding len by (auto simp: d_def)
  show "\<exists>mb'. rc_msg_buf_parse_data E alloc
      (fresh_buf mb (pack_rpt_header_with_rlp E (rlp_pdu cid (ACN_VECTOR_ROOT_RPT E) (28 + length d)) v h @ d @ rest)) =
      Some (kEtcPalErrOk, mb') \<and> mb_buf mb' = rest \<and> \<not> have_preamble mb' \<and>
      mb_msg mb' = (mb_msg mb)\<lparr>msg_vector := ACN_VECTOR_ROOT_RPT E, sender_cid := cid,
        msg_rpt := (msg_rpt (mb_msg mb))\<lparr>rm_vector := v, rm_header := h,
          rm_rdm := \<lparr>entries = cmds, more_coming = False\<rparr>\<rparr>\<rparr>"
    using len assms(5) p v
    by (intro rpt_message_received [OF ok assms(2)])
      (auto simp: initialize_rpt_message_def parse_rpt_data_def Let_def)
qed

lemma request_packed:
  assumes "etcpal_ok E" and "length cid = 16" and "valid_cmd cmd" and "rc_rpt_get_request_buffer_size E cmd \<le> buflen"
  defines "d \<equiv> PACK_REQUEST_HEADER E (7 + cmds_size [cmd]) @ concat (map (PACK_RDM_CMD_PDU E) [cmd])"
  shows "rc_rpt_pack_request E buflen cid h cmd =
    pack_rpt_header_with_rlp E (rlp_pdu cid (ACN_VECTOR_ROOT_RPT E) (28 + length d)) VECTOR_RPT_REQUEST h @ d"
proof -
  have len: "length d = 7 + RDM_CMD_PDU_LEN cmd"
    using pack_rdm_cmd(1) [OF assms(1,3)] assms(1) by (simp add: d_def PACK_REQUEST_HEADER_def etcpal_simps)
  moreover have "RDM_CMD_PDU_LEN cmd \<le> 260" using assms(3) by (simp add: valid_cmd_def RDM_CMD_PDU_LEN_def)
  ultimately have "length d + 51 < 2 ^ 20" by simp
  from rpt_packed(2) [OF assms(1,2) this, of VECTOR_RPT_REQUEST h] show ?thesis
    using len assms(4) by (simp add: rc_rpt_pack_request_def calc_request_pdu_size_def Let_def d_def)
qed

lemma notification_packed:
  assumes "etcpal_ok E" and "length cid = 16" and "\<forall>cmd\<in>set cmds. valid_cmd cmd" and "cmds \<noteq> []"
    and "cmds_size cmds + 58 < 2 ^ 20" and "rc_rpt_get_notification_buffer_size E cmds \<le> buflen"
  defines "d \<equiv> PACK_NOTIFICATION_HEADER E (7 + cmds_size cmds) @ concat (map (PACK_RDM_CMD_PDU E) cmds)"
  shows "rc_rpt_pack_notification E buflen cid h cmds =
    pack_rpt_header_with_rlp E (rlp_pdu cid (ACN_VECTOR_ROOT_RPT E) (28 + length d)) VECTOR_RPT_NOTIFICATION h @ d"
proof -
  have len: "length d = 7 + cmds_size cmds"
    using length_packed_cmds [OF assms(1,3)] assms(1) by (simp add: d_def PACK_NOTIFICATION_HEADER_def etcpal_simps)
  then have "length d + 51 < 2 ^ 20" using assms(5) by simp
  from rpt_packed(2) [OF assms(1,2) this, of VECTOR_RPT_NOTIFICATION h] show ?thesis
    using len assms(4,6) by (simp add: rc_rpt_pack_notification_def calc_notification_pdu_size_sum Let_def d_def)
qed

definition sample_cmd :: RdmBuffer where
  "sample_cmd = VECTOR_RDM_CMD_RDM_DATA # replicate 25 3"

lemma valid_sample_cmd: "valid_cmd sample_cmd" "RDM_CMD_PDU_LEN sample_cmd = 29"
  by (simp_all add: valid_cmd_def sample_cmd_def RDM_CMD_PDU_LEN_def)

lemmas rpt_size_defs = rc_rpt_get_request_buffer_size_def calc_request_pdu_size_def rc_rpt_get_notification_buffer_size_def
  calc_notification_pdu_size_sum rc_rpt_get_status_buffer_size_def calc_status_pdu_size_def RPT_PDU_FULL_HEADER_SIZE_def

text \<open>
  C17. An RDM command packed into an RPT Request by \<^verbatim>\<open>rc_rpt_pack_request\<close>, with a buffer of the size that
  \<^verbatim>\<open>rc_rpt_get_request_buffer_size\<close> asks for, is read back by \<^verbatim>\<open>rc_msg_buf_parse_data\<close>: header, sender and
  command are those that were packed, and the bytes behind the message stay in the buffer.
\<close>

theorem rpt_request_roundtrip:
  assumes "etcpal_ok E" and "length cid = 16" and "valid_cmd cmd" and "rc_rpt_get_request_buffer_size E cmd \<le> buflen"
    and "alloc 1" and "alloc 0"
  shows "\<exists>mb'. rc_msg_buf_parse_data E alloc (fresh_buf mb (rc_rpt_pack_request E buflen cid h cmd @ rest)) =
      Some (kEtcPalErrOk, mb') \<and> mb_buf mb' = rest \<and> \<not> have_preamble mb' \<and>
      mb_msg mb' = (mb_msg mb)\<lparr>msg_vector := ACN_VECTOR_ROOT_RPT E, sender_cid := cid,
        msg_rpt := (msg_rpt (mb_msg mb))\<lparr>rm_vector := VECTOR_RPT_REQUEST, rm_header := h,
          rm_rdm := \<lparr>entries = [cmd], more_coming = False\<rparr>\<rparr>\<rparr>"
proof -
  have "RDM_CMD_PDU_LEN cmd \<le> 260" using assms(3) by (simp add: valid_cmd_def RDM_CMD_PDU_LEN_def)
  then have size: "cmds_size [cmd] + 58 < 2 ^ 20" by simp
  have mem: "\<forall>n\<le>length [cmd]. alloc n" using assms(5,6) by (auto simp: le_Suc_eq)
  show ?thesis
    unfolding request_packed [OF assms(1-4)] append_assoc
    using rdm_message_received(2) [OF assms(1,2) _ _ size mem, of VECTOR_RPT_REQUEST
        "PACK_REQUEST_HEADER E (7 + cmds_size [cmd])" mb h rest] assms(3) by simp
qed

theorem rpt_request_roundtrip_witness:
  "\<exists>mb'. rc_msg_buf_parse_data etcpal_be (\<lambda>n. n \<le> 1) (fresh_buf idle_buf
        (rc_rpt_pack_request etcpal_be 110 (replicate 16 9) blank_rpt_header sample_cmd @ [5])) =
      Some (kEtcPalErrOk, mb') \<and> mb_buf mb' = [5] \<and> \<not> have_preamble mb' \<and>
      mb_msg mb' = (mb_msg idle_buf)\<lparr>msg_vector := ACN_VECTOR_ROOT_RPT etcpal_be, sender_cid := replicate 16 9,
        msg_rpt := (msg_rpt (mb_msg idle_buf))\<lparr>rm_vector := VECTOR_RPT_REQUEST, rm_header := blank_rpt_header,
          rm_rdm := \<lparr>entries = [sample_cmd], more_coming = False\<rparr>\<rparr>\<rparr>"
  by (rule rpt_request_roundtrip) (simp_all add: valid_sample_cmd rpt_size_defs etcpal_simps)

text \<open>
  C12. The same for the RDM commands of an RPT Notification packed by \<^verbatim>\<open>rc_rpt_pack_notification\<close>: all of
  them are read back, in order, with none announced to follow.
\<close>

theorem rpt_notification_roundtrip:
  assumes "etcpal_ok E" and "length cid = 16" and "\<forall>cmd\<in>set cmds. valid_cmd cmd" and "cmds \<noteq> []"
    and "sum_list (map RDM_CMD_PDU_LEN cmds) + 58 < 2 ^ 20" and "rc_rpt_get_notification_buffer_size E cmds \<le> buflen"
    and "\<forall>n\<le>length cmds. alloc n"
  shows "\<exists>mb'. rc_msg_buf_parse_data E alloc (fresh_buf mb (rc_rpt_pack_notification E buflen cid h cmds @ rest)) =
      Some (kEtcPalErrOk, mb') \<and> mb_buf mb' = rest \<and> \<not> have_preamble mb' \<and>
      mb_msg mb' = (mb_msg mb)\<lparr>msg_vector := ACN_VECTOR_ROOT_RPT E, sender_cid := cid,
        msg_rpt := (msg_rpt (mb_msg mb))\<lparr>rm_vector := VECTOR_RPT_NOTIFICATION, rm_header := h,
          rm_rdm := \<lparr>entries = cmds, more_coming = False\<rparr>\<rparr>\<rparr>"
  unfolding notification_packed [OF assms(1-6)] append_assoc
  using rdm_message_received(2) [OF assms(1-5,7), of VECTOR_RPT_NOTIFICATION
      "PACK_NOTIFICATION_HEADER E (7 + cmds_size cmds)" mb h rest] by simp

theorem rpt_notification_roundtrip_witness:
  "\<exists>mb'. rc_msg_buf_parse_data etcpal_be (\<lambda>n. n \<le> 2) (fresh_buf idle_buf
        (rc_rpt_pack_notification etcpal_be 200 (replicate 16 9) blank_rpt_header [sample_cmd, sample_cmd] @ [5])) =
      Some (kEtcPalErrOk, mb') \<and> mb_buf mb' = [5] \<and> \<not> have_preamble mb' \<and>
      mb_msg mb' = (mb_msg idle_buf)\<lparr>msg_vector := ACN_VECTOR_ROOT_RPT etcpal_be, sender_cid := replicate 16 9,
        msg_rpt := (msg_rpt (mb_msg idle_buf))\<lparr>rm_vector := VECTOR_RPT_NOTIFICATION, rm_header := blank_rpt_header,
          rm_rdm := \<lparr>entries = [sample_cmd, sample_cmd], more_coming = False\<rparr>\<rparr>\<rparr>"
  by (rule rpt_notification_roundtrip) (simp_all add: valid_sample_cmd rpt_size_defs etcpal_simps)

text \<open>
  The status messages that can be sent: a known code, and a non-empty string without a zero byte,
  of bounded length, or none; two of the codes never carry a string.
\<close>

definition valid_status :: "RptStatusMsg \<Rightarrow> bool" where
  "valid_status st \<longleftrightarrow> 1 \<le> status_code st \<and> status_code st \<le> 9 \<and>
     (case status_string st of None \<Rightarrow> True
      | Some str \<Rightarrow> status_code st \<le> 7 \<and> str \<noteq> [] \<and> 0 \<notin> set str \<and> length str \<le> RPT_STATUS_STRING_MAXLEN)"

lemma status_codes:
  "1 \<le> c \<Longrightarrow> c \<le> (9 :: u16) \<Longrightarrow> c = 1 \<or> c = 2 \<or> c = 3 \<or> c = 4 \<or> c = 5 \<or> c = 6 \<or> c = 7 \<or> c = 8 \<or> c = 9"
  by (simp add: word_le_nat_alt word_unat_eq_iff) presburger

lemma parse_packed_status:
  assumes "etcpal_ok E" and "valid_status st" and "alloc_str (length (status_string_bytes st) + 1)"
  defines "n \<equiv> 5 + length (status_string_bytes st)"
  shows "\<exists>b'. parse_rpt_status E alloc_str (INIT_PDU_BLOCK_STATE n)
    (PACK_STATUS_HEADER E n (status_code st) @ status_string_bytes st @ rest) smsg =
    (n, b', st, kRCParseResFullBlockParseOk)"
proof -
  let ?s = "status_string_bytes st" and ?c = "status_code st"
  let ?d = "PACK_STATUS_HEADER E n ?c @ ?s @ rest"
  have n: "n < 2 ^ 20"
    using assms(2) by (auto simp: valid_status_def n_def status_string_bytes_def split: option.splits)
  have hdr: "length (PACK_STATUS_HEADER E n ?c) = 5" "ACN_PDU_LENGTH E ?d = n" "unpack_u16b E (drop 3 ?d) = ?c"
    using assms(1) n by (simp_all add: PACK_STATUS_HEADER_def pack_pdu_length_def etcpal_simps)
  have h: "parse_rpt_status_header E (INIT_PDU_BLOCK_STATE n) ?d smsg =
    (5, \<lparr>block_size = n, size_parsed = 5, consuming_bad_block = False, parsed_header = True\<rparr>, smsg\<lparr>status_code := ?c\<rparr>,
     kRCParseResNoData)"
    using hdr by (simp add: parse_rpt_status_header_def INIT_PDU_BLOCK_STATE_def Let_def n_def)
  have code: "1 \<le> ?c" "?c \<le> 9" using assms(2) by (simp_all add: valid_status_def)
  show ?thesis
  proof (cases "status_string st")
    case None
    then have "?s = []" "n = 5" "st = \<lparr>status_code = ?c, status_string = None\<rparr>"
      by (simp_all add: n_def status_string_bytes_def)
    with status_codes [OF code] h hdr(1) show ?thesis
      by (cases smsg) (auto simp: parse_rpt_status_def parse_rpt_status_data_def Let_def)
  next
    case (Some str)
    have c: "?c \<le> 7" and str: "str \<noteq> []" "0 \<notin> set str" "length str \<le> 1024"
      using assms(2) Some by (simp_all add: valid_status_def)
    have c8: "?c \<noteq> 8" "?c \<noteq> 9" using c by auto
    have tw: "takeWhile (\<lambda>c. c \<noteq> 0) str = str" using str(2) by (subst takeWhile_eq_all_conv) auto
    have s: "?s = str" "n = 5 + length str" using Some by (simp_all add: n_def status_string_bytes_def)
    have "st = smsg\<lparr>status_code := ?c, status_string := Some str\<rparr>" using Some by simp
    moreover have "parse_rpt_status_data alloc_str
        \<lparr>block_size = n, size_parsed = 5, consuming_bad_block = False, parsed_header = True\<rparr> (str @ rest)
        (smsg\<lparr>status_code := ?c\<rparr>) kRCParseResNoData =
      (length str, \<lparr>block_size = n, size_parsed = n, consuming_bad_block = False, parsed_header = True\<rparr>,
       smsg\<lparr>status_code := ?c, status_string := Some str\<rparr>, kRCParseResFullBlockParseOk)"
      using status_codes [OF code] c8 str assms(3) s tw by (simp add: parse_rpt_status_data_def Let_def)
    ultimately show ?thesis
      using h hdr(1) s by (simp add: parse_rpt_status_def)
  qed
qed

text \<open>
  C18. An RPT Status message packed by \<^verbatim>\<open>rc_rpt_pack_status\<close> is read back by \<^verbatim>\<open>rc_msg_buf_parse_data\<close> with its
  header, status code and status string.
\<close>

theorem rpt_status_roundtrip:
  assumes "etcpal_ok E" and "length cid = 16" and "valid_status st" and "rc_rpt_get_status_buffer_size E st \<le> buflen"
    and "\<forall>n. alloc n"
  shows "\<exists>mb'. rc_msg_buf_parse_data E alloc (fresh_buf mb (rc_rpt_pack_status E buflen cid h st @ rest)) =
      Some (kEtcPalErrOk, mb') \<and> mb_buf mb' = rest \<and> \<not> have_preamble mb' \<and>
      mb_msg mb' = (mb_msg mb)\<lparr>msg_vector := ACN_VECTOR_ROOT_RPT E, sender_cid := cid,
        msg_rpt := (msg_rpt (mb_msg mb))\<lparr>rm_vector := VECTOR_RPT_STATUS, rm_header := h, rm_status := st\<rparr>\<rparr>"
proof -
  define n where "n = 5 + length (status_string_bytes st)"
  define d where "d = PACK_STATUS_HEADER E n (status_code st) @ status_string_bytes st"
  have len: "length d = n" "n \<le> 1029"
    using assms(1,3) by (auto simp: d_def n_def PACK_STATUS_HEADER_def etcpal_simps valid_status_def
        status_string_bytes_def split: option.splits)
  have size: "calc_status_pdu_size st = n" by (simp add: calc_status_pdu_size_def n_def status_string_bytes_def split: option.split)
  have d51: "length d + 51 < 2 ^ 20" using len by simp
  have eq: "rc_rpt_pack_status E buflen cid h st =
      pack_rpt_header_with_rlp E (rlp_pdu cid (ACN_VECTOR_ROOT_RPT E) (28 + length d)) VECTOR_RPT_STATUS h @ d"
    using rpt_packed(2) [OF assms(1,2) d51, of VECTOR_RPT_STATUS h] assms(4) len size
    by (auto simp: rc_rpt_pack_status_def Let_def d_def n_def)
  obtain b' where p: "parse_rpt_status E alloc (INIT_PDU_BLOCK_STATE n) (d @ rest) (rm_status (msg_rpt (mb_msg mb))) =
      (n, b', st, kRCParseResFullBlockParseOk)"
    using parse_packed_status [OF assms(1,3), of alloc rest] assms(5) unfolding d_def n_def by fastforce
  show ?thesis
    unfolding eq append_assoc using len p n_def
    by (intro rpt_message_received [OF assms(1,2) d51])
      (auto simp: initialize_rpt_message_def parse_rpt_data_def Let_def)
qed

theorem rpt_status_roundtrip_witness:
  "\<exists>mb'. rc_msg_buf_parse_data etcpal_be (\<lambda>n. True) (fresh_buf idle_buf
        (rc_rpt_pack_status etcpal_be 100 (replicate 16 9) blank_rpt_header
           \<lparr>status_code = VECTOR_RPT_STATUS_RDM_TIMEOUT, status_string = Some [0x6e, 0x6f]\<rparr> @ [5])) =
      Some (kEtcPalErrOk, mb') \<and> mb_buf mb' = [5] \<and> \<not> have_preamble mb' \<and>
      mb_msg mb' = (mb_msg idle_buf)\<lparr>msg_vector := ACN_VECTOR_ROOT_RPT etcpal_be, sender_cid := replicate 16 9,
        msg_rpt := (msg_rpt (mb_msg idle_buf))\<lparr>rm_vector := VECTOR_RPT_STATUS, rm_header := blank_rpt_header,
          rm_status := \<lparr>status_code = VECTOR_RPT_STATUS_RDM_TIMEOUT, status_string = Some [0x6e, 0x6f]\<rparr>\<rparr>\<rparr>"
  by (rule rpt_status_roundtrip) (simp_all add: valid_status_def rpt_size_defs etcpal_simps)

section \<open>Sending and packing\<close>

lemma notification_header_packed:
  assumes "etcpal_ok E" and "length cid = 16" and "\<forall>cmd\<in>set cmds. valid_cmd cmd" and "cmds_size cmds + 58 < 2 ^ 20"
  shows "pack_rpt_header_with_rlp E (rlp_pdu cid (ACN_VECTOR_ROOT_RPT E) (35 + cmds_size cmds)) v h \<noteq> []"
    "length (PACK_NOTIFICATION_HEADER E (7 + cmds_size cmds) @ concat (map (PACK_RDM_CMD_PDU E) cmds)) = 7 + cmds_size cmds"
proof -
  let ?d = "PACK_NOTIFICATION_HEADER E (7 + cmds_size cmds) @ concat (map (PACK_RDM_CMD_PDU E) cmds)"
  show len: "length ?d = 7 + cmds_size cmds"
    using length_packed_cmds [OF assms(1,3)] assms(1) by (simp add: PACK_NOTIFICATION_HEADER_def etcpal_simps)
  then have "length ?d + 51 < 2 ^ 20" using assms(4) by simp
  from rpt_packed(2) [OF assms(1,2) this, of v h]
  show "pack_rpt_header_with_rlp E (rlp_pdu cid (ACN_VECTOR_ROOT_RPT E) (35 + cmds_size cmds)) v h \<noteq> []"
    unfolding len by simp
qed

text \<open>
  C26. On a socket that takes all bytes it is given, \<^verbatim>\<open>rc_rpt_send_notification\<close>, which sends a message piece
  by piece from a small buffer with headers of its own (\<^verbatim>\<open>send_rpt_header\<close>), puts the same bytes on the wire as
  \<^verbatim>\<open>rc_rpt_pack_notification\<close> packs (with \<^verbatim>\<open>pack_rpt_header_with_rlp\<close>), and reports success.
\<close>

theorem rpt_notification_send_packs:
  assumes "etcpal_ok E" and "length cid = 16" and "\<forall>cmd\<in>set cmds. valid_cmd cmd" and "cmds \<noteq> []"
    and "sum_list (map RDM_CMD_PDU_LEN cmds) + 58 < 2 ^ 20" and "rc_rpt_get_notification_buffer_size E cmds \<le> buflen"
  shows "rc_rpt_send_notification E stream_send s cid h cmds =
    Some (kEtcPalErrOk, s @ rc_rpt_pack_notification E buflen cid h cmds)"
proof -
  note hdr = notification_header_packed [OF assms(1-3,5)]
  show ?thesis
    using assms(4) hdr(2) notification_packed [OF assms(1-6), of h]
    by (simp add: rc_rpt_send_notification_def calc_notification_pdu_size_sum Let_def send_rpt_header_stream [OF hdr(1)]
        send_rdm_cmds_stream send_piece_def)
qed

theorem rpt_notification_send_packs_witness:
  "rc_rpt_send_notification etcpal_be stream_send [8] (replicate 16 9) blank_rpt_header [sample_cmd] =
    Some (kEtcPalErrOk, [8] @ rc_rpt_pack_notification etcpal_be 110 (replicate 16 9) blank_rpt_header [sample_cmd])"
  by (rule rpt_notification_send_packs) (simp_all add: valid_sample_cmd rpt_size_defs etcpal_simps)

text \<open>
  The number of bytes that a send really took is not looked at. On a socket that takes one byte per
  call, \<^verbatim>\<open>rc_rpt_send_notification\<close> sends the first byte of each piece, drops the rest, and returns
  \<^const>\<open>kEtcPalErrOk\<close>.
\<close>

lemma rpt_notification_short_send:
  assumes "etcpal_ok E" and "length cid = 16" and "\<forall>cmd\<in>set cmds. valid_cmd cmd" and "cmds \<noteq> []"
    and "sum_list (map RDM_CMD_PDU_LEN cmds) + 58 < 2 ^ 20"
  shows "\<exists>sent. rc_rpt_send_notification E short_send s cid h cmds = Some (kEtcPalErrOk, s @ sent) \<and>
    length sent = 4 + length cmds"
proof -
  let ?rlp = "rlp_pdu cid (ACN_VECTOR_ROOT_RPT E) (35 + cmds_size cmds)" and ?n = "PACK_NOTIFICATION_HEADER E (7 + cmds_size cmds)"
  obtain d where d: "send_rpt_header E short_send s ?rlp VECTOR_RPT_NOTIFICATION h = Some (kEtcPalErrOk, s @ d)" "length d = 3"
    using send_rpt_header_short [OF notification_header_packed(1) [OF assms(1-3,5)]] by blast
  obtain d' where d': "send_rdm_cmds E short_send (s @ d @ [hd ?n]) cmds = Some (kEtcPalErrOk, (s @ d @ [hd ?n]) @ d')" "length d' = length cmds"
    using send_rdm_cmds_short by blast
  have "?n \<noteq> []" using assms(1) by (auto simp: PACK_NOTIFICATION_HEADER_def etcpal_simps dest: arg_cong [of _ "[]" length])
  then have "rc_rpt_send_notification E short_send s cid h cmds = Some (kEtcPalErrOk, s @ d @ [hd ?n] @ d')"
    using assms(4) d(1) d'(1) by (simp add: rc_rpt_send_notification_def calc_notification_pdu_size_sum Let_def send_piece_short)
  then show ?thesis using d(2) d'(2) by (intro exI [of _ "d @ [hd ?n] @ d'"]) simp
qed

lemma rpt_notification_short_send_example:
  "\<exists>sent. rc_rpt_send_notification etcpal_be short_send [] (replicate 16 9) blank_rpt_header [sample_cmd] =
      Some (kEtcPalErrOk, [] @ sent) \<and> length sent = 4 + length [sample_cmd]"
  by (rule rpt_notification_short_send) (simp_all add: valid_sample_cmd)

end
