(* ===== verification/Parser_Properties.thy ===== *)
theory Parser_Properties
  imports Rpt_Roundtrip
begin

text \<open>
  What the receiving side promises for every input, well formed or not: bounds on what is consumed, the
  parse loop returns, pieces of a list can arrive separately, the receive buffer is never overfilled;
  and four malformed inputs on which the code does not do what it means to.
\<close>

lemma init_state_ok [simp]:
  "block_ok (bs_block (INIT_BROKER_STATE n bs))" "block_ok (rs_block (INIT_RPT_STATE n rs))"
  "rlp_inv E (INIT_RLP_STATE n rls) msg"
  by (simp_all add: INIT_BROKER_STATE_def INIT_RPT_STATE_def INIT_RLP_STATE_def rlp_inv_def)

section \<open>The layers keep within their blocks\<close>

text \<open>
  \<^verbatim>\<open>parse_broker_block\<close> consumes no more bytes than it is given, keeps its block counter within the block,
  and counts at least the bytes it consumed, whatever the input.
\<close>

lemma parse_broker_block_bounds:
  assumes "parse_broker_block E alloc bs data bmsg kRCParseResNoData = Some (n, bs', bmsg', r)" and "block_ok (bs_block bs)"
  shows "n \<le> length data \<and> block_ok (bs_block bs') \<and> block_size (bs_block bs') = block_size (bs_block bs) \<and>
    size_parsed (bs_block bs) + n \<le> size_parsed (bs_block bs')"
  using assms by (rule broker_layer.parse_block)

lemma empty_broker_block:
  "parse_broker_block etcpal_be (\<lambda>n. True) (INIT_BROKER_STATE 3 (rlp_broker blank_rlp_state)) [1, 2, 3, 4] blank_broker_message
     kRCParseResNoData =
   Some (3, (INIT_BROKER_STATE 3 (rlp_broker blank_rlp_state))\<lparr>bs_block := \<lparr>block_size = 3, size_parsed = 3,
       consuming_bad_block = False, parsed_header = False\<rparr>\<rparr>, blank_broker_message, kRCParseResFullBlockProtErr)"
  by (simp add: parse_broker_block_def parse_broker_header_def INIT_BROKER_STATE_def INIT_PDU_BLOCK_STATE_def
      consume_bad_block_def Let_def)

lemma parse_broker_block_bounds_example:
  "(3 :: nat) \<le> length [1, 2, 3, 4 :: byte] \<and>
   (\<exists>bs'. parse_broker_block etcpal_be (\<lambda>n. True) (INIT_BROKER_STATE 3 (rlp_broker blank_rlp_state)) [1, 2, 3, 4]
     blank_broker_message kRCParseResNoData = Some (3, bs', blank_broker_message, kRCParseResFullBlockProtErr) \<and>
     block_ok (bs_block bs'))"
  using parse_broker_block_bounds [OF empty_broker_block] by (simp add: empty_broker_block)

text \<open>
  Likewise \<^verbatim>\<open>parse_rpt_block\<close>.
\<close>

lemma parse_rpt_block_bounds:
  assumes "parse_rpt_block E alloc rs data rmsg kRCParseResNoData = Some (n, rs', rmsg', r)" and "block_ok (rs_block rs)"
  shows "n \<le> length data \<and> block_ok (rs_block rs') \<and> block_size (rs_block rs') = block_size (rs_block rs) \<and>
    size_parsed (rs_block rs) + n \<le> size_parsed (rs_block rs')"
  using assms by (rule rpt_layer.parse_block)

lemma empty_rpt_block:
  "parse_rpt_block etcpal_be (\<lambda>n. True) (INIT_RPT_STATE 3 (rlp_rpt blank_rlp_state)) [1, 2] (msg_rpt blank_message)
     kRCParseResNoData =
   Some (2, (INIT_RPT_STATE 3 (rlp_rpt blank_rlp_state))\<lparr>rs_block := \<lparr>block_size = 3, size_parsed = 2,
       consuming_bad_block = True, parsed_header = False\<rparr>\<rparr>, msg_rpt blank_message, kRCParseResNoData)"
  by (simp add: parse_rpt_block_def parse_rpt_header_def INIT_RPT_STATE_def INIT_PDU_BLOCK_STATE_def
      consume_bad_block_def Let_def)

lemma parse_rpt_block_bounds_example:
  "(2 :: nat) \<le> length [1, 2 :: byte] \<and>
   (\<exists>rs'. parse_rpt_block etcpal_be (\<lambda>n. True) (INIT_RPT_STATE 3 (rlp_rpt blank_rlp_state)) [1, 2] (msg_rpt blank_message)
     kRCParseResNoData = Some (2, rs', msg_rpt blank_message, kRCParseResNoData) \<and> block_ok (rs_block rs'))"
  using parse_rpt_block_bounds [OF empty_rpt_block] by (simp add: empty_rpt_block)

text \<open>
  C9. \<^verbatim>\<open>parse_rlp_block\<close> keeps the accounts of the root layer, and writes \<^verbatim>\<open>*result\<close> on every path that can
  be taken: neither of its two assertions can fail, so \<^verbatim>\<open>rc_msg_buf_parse_data\<close> never reads its
  uninitialised \<^verbatim>\<open>parse_res\<close>.
\<close>

theorem parse_rlp_block_writes_result:
  assumes "parse_rlp_block E alloc rs data msg = Some (n, rs', msg', r)" and "rlp_inv E rs msg"
  shows "(\<exists>res. r = Some res) \<and> rlp_inv E rs' msg'"
  using parse_rlp_block_inv [OF assms] by simp

lemma short_rlp_block:
  "parse_rlp_block etcpal_be (\<lambda>n. True) (INIT_RLP_STATE 4 blank_rlp_state) [1, 2, 3, 4, 5] blank_message =
   Some (4, (INIT_RLP_STATE 4 blank_rlp_state)\<lparr>rlp_block := \<lparr>block_size = 4, size_parsed = 4,
       consuming_bad_block = False, parsed_header = False\<rparr>\<rparr>, blank_message, Some kRCParseResFullBlockProtErr)"
  by (simp add: parse_rlp_block_def parse_rlp_header_def INIT_RLP_STATE_def INIT_PDU_BLOCK_STATE_def
      consume_bad_block_def Let_def etcpal_simps)

theorem parse_rlp_block_writes_result_witness:
  "\<exists>rs'. parse_rlp_block etcpal_be (\<lambda>n. True) (INIT_RLP_STATE 4 blank_rlp_state) [1, 2, 3, 4, 5] blank_message =
     Some (4, rs', blank_message, Some kRCParseResFullBlockProtErr) \<and> rlp_inv etcpal_be rs' blank_message"
  using parse_rlp_block_writes_result [OF short_rlp_block]
  by (simp add: short_rlp_block)

section \<open>The parser returns\<close>

text \<open>
  C1. The loop of \<^verbatim>\<open>rc_msg_buf_parse_data\<close> ends: unless some iteration faults, the call returns, with
  \<^const>\<open>kEtcPalErrOk\<close>, \<^const>\<open>kEtcPalErrNoData\<close> or \<^const>\<open>kEtcPalErrSys\<close> and never with \<^const>\<open>kEtcPalErrProtocol\<close>,
  and the buffer keeps its invariant. Every iteration that goes on consumes bytes or finishes a PDU.
\<close>

theorem parse_data_returns:
  assumes "etcpal_ok E" and "mb_inv E mb"
    and "\<And>mb'. (parse_again E alloc)\<^sup>*\<^sup>* mb mb' \<Longrightarrow> parse_data_step E alloc mb' \<noteq> None"
  shows "\<exists>res mb'. rc_msg_buf_parse_data E alloc mb = Some (res, mb') \<and> mb_inv E mb' \<and>
    res \<in> {kEtcPalErrOk, kEtcPalErrNoData, kEtcPalErrSys}"
  using assms by (rule parse_data_loop)

theorem parse_data_returns_witness:
  "\<exists>res mb'. rc_msg_buf_parse_data etcpal_be (\<lambda>n. True) (fresh_buf idle_buf [1, 2, 3]) = Some (res, mb') \<and>
    mb_inv etcpal_be mb' \<and> res \<in> {kEtcPalErrOk, kEtcPalErrNoData, kEtcPalErrSys}"
proof (rule parse_data_returns)
  let ?mb = "fresh_buf idle_buf [1, 2, 3]"
  have step: "parse_data_step etcpal_be (\<lambda>n. True) ?mb = Some (kEtcPalErrNoData, True, ?mb)"
    by (simp add: parse_data_step_def fresh_buf_def idle_buf_def etcpal_simps)
  fix mb' assume "(parse_again etcpal_be (\<lambda>n. True))\<^sup>*\<^sup>* ?mb mb'"
  then have "mb' = ?mb" by (rule converse_rtranclpE) (simp_all add: parse_again_def step)
  with step show "parse_data_step etcpal_be (\<lambda>n. True) mb' \<noteq> None" by simp
qed (simp_all add: mb_inv_def fresh_buf_def)

text \<open>
  While memory can be had, the broker layer always returns: whatever bytes arrive in whatever state,
  \<^verbatim>\<open>parse_broker_block\<close> has a result.
\<close>

lemma broker_layer_returns:
  assumes "\<forall>n. alloc n"
  shows "parse_broker_block E alloc bs data bmsg result \<noteq> None"
  using assms by (rule parse_broker_block_returns)

lemma broker_layer_returns_example:
  "parse_broker_block etcpal_be (\<lambda>n. True) (INIT_BROKER_STATE 100 (rlp_broker blank_rlp_state)) (replicate 50 255)
     blank_broker_message kRCParseResNoData \<noteq> None"
  by (rule broker_layer_returns) simp

section \<open>Errors of the root layer\<close>

text \<open>
  A root layer PDU that claims to be longer than its block makes the parser count the 23 bytes of its
  header twice. While the block is not completely in the buffer, more bytes are then counted as
  consumed than the buffer holds, the assertion of \<^verbatim>\<open>rc_msg_buf_parse_data\<close> fails, and the call returns
  \<^const>\<open>kEtcPalErrSys\<close> with nothing removed from the buffer, instead of skipping the bad block.
\<close>

lemma rlp_overrun_is_fatal:
  assumes "etcpal_ok E" and "length cid = 16" and "len + 23 < 2 ^ 20" and "23 \<le> block_len" and "block_len < 2 ^ 32"
    and "block_len < len + 23" and "23 + length rest < block_len"
  shows "\<exists>mb'. rc_msg_buf_parse_data E alloc (fresh_buf mb
      (acn_pack_tcp_preamble E block_len @ acn_pack_root_layer_header E (rlp_pdu cid v len) @ rest)) =
    Some (kEtcPalErrSys, mb') \<and> mb_buf mb' = acn_pack_root_layer_header E (rlp_pdu cid v len) @ rest"
proof -
  let ?hdr = "acn_pack_root_layer_header E (rlp_pdu cid v len)"
  let ?d = "acn_pack_tcp_preamble E block_len @ ?hdr @ rest"
  have root: "length ?hdr = 23" "acn_parse_root_layer_header E (?hdr @ rest) = Some (rlp_pdu cid v len)"
    using assms(1-3) by (simp_all add: etcpal_ok_root rlp_pdu_def)
  have loc: "locate_tcp_preamble E ?d = (block_len, ?hdr @ rest)"
  proof -
    obtain x xs where "?d = x # xs" using assms(1) by (cases ?d) (auto simp: etcpal_simps simp flip: length_0_conv)
    moreover have "acn_parse_tcp_preamble E ?d = Some block_len" "16 < length ?d" "drop 16 ?d = ?hdr @ rest"
      using assms(1,5) root by (simp_all add: etcpal_simps)
    ultimately show ?thesis using assms(1) by (simp add: etcpal_simps)
  qed
  let ?all = "block_len - 23 \<le> 23 + length rest"
  let ?r = "if ?all then kRCParseResFullBlockProtErr else kRCParseResNoData"
  have "\<exists>k b'. consume_bad_block \<lparr>block_size = block_len, size_parsed = 23, consuming_bad_block = False,
      parsed_header = False\<rparr> (23 + length rest) = (k, b', ?r) \<and> length rest < k \<and> \<not> parsed_header b'"
    using assms(4,7) by (cases ?all) (auto simp: consume_bad_block_def Let_def)
  then obtain k b' where c: "consume_bad_block \<lparr>block_size = block_len, size_parsed = 23, consuming_bad_block = False,
      parsed_header = False\<rparr> (23 + length rest) = (k, b', ?r)" "length rest < k" "\<not> parsed_header b'"
    by blast
  have p: "parse_rlp_block E alloc (INIT_RLP_STATE block_len (rlp_state mb)) (?hdr @ rest) (mb_msg mb) =
      Some (23 + k, (rlp_state mb)\<lparr>rlp_block := b'\<rparr>, mb_msg mb, Some ?r)"
    using assms(1,4,6) root c
    by (simp add: parse_rlp_block_def parse_rlp_header_def INIT_RLP_STATE_def INIT_PDU_BLOCK_STATE_def etcpal_simps Let_def)
      (simp add: rlp_pdu_def)
  have "parse_data_step E alloc (fresh_buf mb ?d) = Some (kEtcPalErrSys, True, mb\<lparr>mb_buf := ?hdr @ rest, rlp_state := (rlp_state mb)\<lparr>rlp_block := b'\<rparr>,
      have_preamble := \<not> ?all\<rparr>)"
    using loc p root c(2) assms(4) by (simp add: parse_data_step_def fresh_buf_def parse_data_block_def Let_def)
  then show ?thesis by (subst rc_msg_buf_parse_data.simps) simp
qed

lemma rlp_overrun_is_fatal_example:
  "\<exists>mb'. rc_msg_buf_parse_data etcpal_be (\<lambda>n. True) (fresh_buf idle_buf
      (acn_pack_tcp_preamble etcpal_be 30 @ acn_pack_root_layer_header etcpal_be (rlp_pdu (replicate 16 1) 9 40) @ [0, 0])) =
    Some (kEtcPalErrSys, mb') \<and> mb_buf mb' = acn_pack_root_layer_header etcpal_be (rlp_pdu (replicate 16 1) 9 40) @ [0, 0]"
  by (rule rlp_overrun_is_fatal) simp_all

section \<open>Malformed RDM command lists\<close>

lemma rpt_message_faults:
  assumes "etcpal_ok E" and "length cid = 16" and "length d + 51 < 2 ^ 20"
    and "\<And>rs. \<exists>rs1 rmsg1. initialize_rpt_message
        (rs\<lparr>rs_block := \<lparr>block_size = 28 + length d, size_parsed = 28, consuming_bad_block = False, parsed_header = False\<rparr>\<rparr>)
        ((msg_rpt (mb_msg mb))\<lparr>rm_vector := v, rm_header := h\<rparr>) (length d) = (rs1, rmsg1) \<and>
      parse_rpt_data E alloc (rs1\<lparr>rs_block := \<lparr>block_size = 28 + length d, size_parsed = 28,
          consuming_bad_block = False, parsed_header = True\<rparr>\<rparr>) (d @ rest) rmsg1 = None"
  shows "rc_msg_buf_parse_data E alloc (fresh_buf mb
    (pack_rpt_header_with_rlp E (rlp_pdu cid (ACN_VECTOR_ROOT_RPT E) (28 + length d)) v h @ d @ rest)) = None"
proof -
  let ?body = "pack_rpt_header E (28 + length d) v h @ d" and ?rlp = "rlp_pdu cid (ACN_VECTOR_ROOT_RPT E) (28 + length d)"
  let ?msg = "(mb_msg mb)\<lparr>msg_vector := ACN_VECTOR_ROOT_RPT E, sender_cid := cid\<rparr>"
  note u = unpack_pack_rpt_header [OF assms(1)]
  have ne: "ACN_VECTOR_ROOT_RPT E \<noteq> ACN_VECTOR_ROOT_BROKER E" using assms(1) by (simp add: etcpal_ok_consts)
  have root: "length (acn_pack_root_layer_header E ?rlp) = 23"
    "acn_parse_root_layer_header E (acn_pack_root_layer_header E ?rlp @ x) = Some ?rlp" for x
    using assms(1-3) by (simp_all add: etcpal_ok_root rlp_pdu_def)
  have rpt: "parse_rpt_block E alloc (INIT_RPT_STATE (28 + length d) rs) (?body @ rest)
      (msg_rpt (mb_msg mb)) kRCParseResNoData = None" for rs
  proof -
    let ?b = "\<lparr>block_size = 28 + length d, size_parsed = 28, consuming_bad_block = False, parsed_header = False\<rparr>"
    obtain rs1 rmsg1 where i: "initialize_rpt_message (rs\<lparr>rs_block := ?b\<rparr>)
        ((msg_rpt (mb_msg mb))\<lparr>rm_vector := v, rm_header := h\<rparr>) (length d) = (rs1, rmsg1)"
      and p: "parse_rpt_data E alloc (rs1\<lparr>rs_block := ?b\<lparr>parsed_header := True\<rparr>\<rparr>) (d @ rest) rmsg1 = None"
      using assms(4) [of rs] by auto
    have "rs_block rs1 = ?b" using initialize_rpt_message_block [OF i] by simp
    then have "parse_rpt_header E (INIT_RPT_STATE (28 + length d) rs) (?body @ rest) (msg_rpt (mb_msg mb)) =
        (28, rs1\<lparr>rs_block := ?b\<lparr>parsed_header := True\<rparr>\<rparr>, rmsg1, kRCParseResNoData)"
      using assms(3) i u
      by (simp add: parse_rpt_header_def INIT_RPT_STATE_def INIT_PDU_BLOCK_STATE_def Let_def)
    then show ?thesis using p u(1) by (simp add: parse_rpt_block_def)
  qed
  let ?rs = "INIT_RLP_STATE (51 + length d) (rlp_state mb)"
  have "parse_rlp_header E ?rs (acn_pack_root_layer_header E ?rlp @ ?body @ rest) (mb_msg mb) =
      (23, initialize_rdmnet_message E ((rlp_state mb)\<lparr>rlp_block := \<lparr>block_size = 51 + length d, size_parsed = 23,
         consuming_bad_block = False, parsed_header = True\<rparr>\<rparr>) ?msg (28 + length d), ?msg, kRCParseResNoData)"
    using assms(1) root
    by (simp add: parse_rlp_header_def INIT_RLP_STATE_def INIT_PDU_BLOCK_STATE_def etcpal_simps Let_def rlp_pdu_def)
  then have "parse_rlp_block E alloc ?rs (acn_pack_root_layer_header E ?rlp @ ?body @ rest) (mb_msg mb) = None"
    using rpt [simplified] root ne
    by (simp add: parse_rlp_block_def initialize_rdmnet_message_def parse_rlp_data_def)
  then have "parse_data_step E alloc (fresh_buf mb (wire E cid (ACN_VECTOR_ROOT_RPT E) ?body @ rest)) = None"
    using locate_wire [OF assms(1,2), of ?body "ACN_VECTOR_ROOT_RPT E" rest] assms(3) u(1)
    by (simp add: parse_data_step_def fresh_buf_def parse_data_block_def add.commute)
  then show ?thesis
    using rpt_packed(1) [OF assms(1-3), of v h] by (subst rc_msg_buf_parse_data.simps) (simp flip: append_assoc)
qed

text \<open>
  C38. An RPT Request or Notification in which the length field of an RDM command PDU is below 3, with
  enough bytes behind it, makes \<^verbatim>\<open>parse_rdm_list\<close> copy \<^verbatim>\<open>rdm_cmd_pdu_len - 3\<close> bytes, a number that has
  wrapped around: the copy leaves both buffers and the call has no defined result.
\<close>

theorem short_rdm_pdu_faults:
  assumes "etcpal_ok E" and "length cid = 16" and "k < 3" and "26 \<le> length junk" and "length junk < 1000000"
    and "v = VECTOR_RPT_REQUEST \<or> v = VECTOR_RPT_NOTIFICATION" and "alloc 1"
  defines "d \<equiv> PACK_REQUEST_HEADER E (10 + length junk) @ pack_pdu_length E k @ junk"
  shows "rc_msg_buf_parse_data E alloc (fresh_buf mb
    (pack_rpt_header_with_rlp E (rlp_pdu cid (ACN_VECTOR_ROOT_RPT E) (28 + length d)) v h @ d @ rest)) = None"
proof -
  have len: "length d = 10 + length junk" using assms(1) by (simp add: d_def PACK_REQUEST_HEADER_def etcpal_simps)
  have hdr: "length (PACK_REQUEST_HEADER E (10 + length junk)) = 7" "ACN_PDU_LENGTH E (d @ rest) = length d"
      "unpack_u32b E (drop 3 (d @ rest)) = VECTOR_REQUEST_RDM_CMD"
    using assms(1,5) by (simp_all add: d_def PACK_REQUEST_HEADER_def pack_pdu_length_def etcpal_simps)
  have "ACN_PDU_LENGTH E (pack_pdu_length E k @ junk @ rest) = k"
    using assms(1,3) by (simp add: pack_pdu_length_def etcpal_simps)
  moreover have "drop 7 (d @ rest) = pack_pdu_length E k @ junk @ rest" using hdr(1) by (simp add: d_def)
  ultimately have "rdm_list_loop E alloc (d @ rest) \<lparr>block_size = 3 + length junk, size_parsed = 0,
      consuming_bad_block = False, parsed_header = False\<rparr> \<lparr>entries = [], more_coming = False\<rparr> 7 kRCParseResNoData = None"
    using assms(1,3,4,7) len
    by (subst rdm_list_loop.simps) (simp add: RDM_CMD_PDU_MIN_SIZE_def RDM_CMD_PDU_MAX_SIZE_def etcpal_simps Let_def)
  then have "parse_rdm_list E alloc (INIT_RDM_LIST_STATE (length d)) (d @ rest) \<lparr>entries = [], more_coming = False\<rparr> = None"
    using hdr(2,3) len
    by (simp add: parse_rdm_list_def parse_rdm_list_header_def INIT_RDM_LIST_STATE_def INIT_PDU_BLOCK_STATE_def Let_def)
  then show ?thesis
    using assms(5,6) len
    by (intro rpt_message_faults [OF assms(1,2)]) (auto simp: initialize_rpt_message_def parse_rpt_data_def Let_def)
qed

theorem short_rdm_pdu_faults_witness:
  "rc_msg_buf_parse_data etcpal_be (\<lambda>n. True) (fresh_buf idle_buf
    (pack_rpt_header_with_rlp etcpal_be (rlp_pdu (replicate 16 1) (ACN_VECTOR_ROOT_RPT etcpal_be)
       (28 + length (PACK_REQUEST_HEADER etcpal_be (10 + length (replicate 26 (0 :: byte))) @ pack_pdu_length etcpal_be 0 @ replicate 26 0)))
       VECTOR_RPT_REQUEST blank_rpt_header @
     (PACK_REQUEST_HEADER etcpal_be (10 + length (replicate 26 (0 :: byte))) @ pack_pdu_length etcpal_be 0 @ replicate 26 0) @ [])) = None"
  by (rule short_rdm_pdu_faults) simp_all

text \<open>
  A parser that waits inside an RDM command list it has already read past the end of. In this state
  nothing is parsed any more.
\<close>

definition rdm_wedged :: "etcpal \<Rightarrow> RCMsgBuf \<Rightarrow> bool" where
  "rdm_wedged E mb \<longleftrightarrow>
     (let rs = rlp_state mb; r = rlp_rpt rs; l = rs_rdm_list r; v = rm_vector (msg_rpt (mb_msg mb)) in
      have_preamble mb \<and> msg_vector (mb_msg mb) = ACN_VECTOR_ROOT_RPT E \<and>
      ACN_VECTOR_ROOT_RPT E \<noteq> ACN_VECTOR_ROOT_BROKER E \<and>
      parsed_header (rlp_block rs) \<and> \<not> consuming_bad_block (rlp_block rs) \<and> block_ok (rlp_block rs) \<and>
      parsed_header (rs_block r) \<and> \<not> consuming_bad_block (rs_block r) \<and> block_ok (rs_block r) \<and>
      (v = VECTOR_RPT_REQUEST \<or> v = VECTOR_RPT_NOTIFICATION) \<and> parsed_request_notif_header l \<and>
      \<not> consuming_bad_block (rl_block l) \<and> block_size (rl_block l) \<le> size_parsed (rl_block l))"

lemma rdm_wedged_stays:
  assumes "rdm_wedged E mb"
  shows "rc_msg_buf_parse_data E alloc mb = Some (kEtcPalErrNoData, mb)"
proof -
  note w = assms [unfolded rdm_wedged_def Let_def]
  let ?rs = "rlp_state mb" and ?msg = "mb_msg mb" and ?d = "mb_buf mb"
  have l: "parse_rdm_list E alloc (rs_rdm_list (rlp_rpt ?rs)) ?d (rm_rdm (msg_rpt ?msg)) =
      Some (0, rs_rdm_list (rlp_rpt ?rs), rm_rdm (msg_rpt ?msg), kRCParseResNoData)"
    using w by (simp add: parse_rdm_list_def parse_rdm_list_header_def rdm_list_loop.simps)
  have "parse_rpt_block E alloc (rlp_rpt ?rs) ?d (msg_rpt ?msg) kRCParseResNoData =
      Some (0, rlp_rpt ?rs, msg_rpt ?msg, kRCParseResNoData)"
    using w l by (auto simp: parse_rpt_block_def parse_rpt_header_def parse_rpt_data_def Let_def check_for_full_parse_def block_ok_def)
  then have "parse_rlp_block E alloc ?rs ?d ?msg = Some (0, ?rs, ?msg, Some kRCParseResNoData)"
    using w by (auto simp: parse_rlp_block_def parse_rlp_header_def parse_rlp_data_def Let_def check_for_full_parse_def block_ok_def)
  then have "parse_data_step E alloc mb = Some (kEtcPalErrNoData, False, mb)"
    using w by (simp add: parse_data_step_def parse_data_block_def Let_def result_code_def)
  then show ?thesis by (subst rc_msg_buf_parse_data.simps) simp
qed

lemma rdm_overshoot_loop:
  assumes ok: "etcpal_ok E" and v: "valid_cmd cmd" and "\<forall>n. alloc n"
    and "ACN_PDU_LENGTH E (x @ rest) = len" and "x \<noteq> []" "length x < len" "len \<le> RDM_CMD_PDU_LEN cmd + length x" "len \<le> 260"
    and "len \<le> length (x @ rest)" "29 \<le> length (x @ rest)" "3 \<le> len" and "length pre = 7"
  shows "\<exists>l b' r. rdm_list_loop E alloc (pre @ PACK_RDM_CMD_PDU E cmd @ x @ rest)
      (INIT_PDU_BLOCK_STATE (RDM_CMD_PDU_LEN cmd + length x)) \<lparr>entries = [], more_coming = False\<rparr> 7 kRCParseResNoData =
    Some (7 + RDM_CMD_PDU_LEN cmd + len, b', l, r) \<and> \<not> consuming_bad_block b' \<and> block_size b' \<le> size_parsed b' \<and>
    RDM_CMD_PDU_LEN cmd + length x < RDM_CMD_PDU_LEN cmd + len"
proof -
  let ?n = "RDM_CMD_PDU_LEN cmd" and ?d = "pre @ PACK_RDM_CMD_PDU E cmd @ x @ rest"
  note pk = pack_rdm_cmd [OF ok v]
  have n: "29 \<le> ?n" "?n \<le> 260" using v by (simp_all add: valid_cmd_def RDM_CMD_PDU_LEN_def)
  let ?b = "\<lparr>block_size = ?n + length x, size_parsed = ?n, consuming_bad_block = False, parsed_header = False\<rparr>"
  have "rdm_list_loop E alloc ?d (INIT_PDU_BLOCK_STATE (?n + length x)) \<lparr>entries = [], more_coming = False\<rparr> 7 kRCParseResNoData =
    rdm_list_loop E alloc ?d ?b \<lparr>entries = [cmd], more_coming = False\<rparr> (7 + ?n) kRCParseResNoData"
    using ok n pk assms(3,5,12)
    by (subst rdm_list_loop.simps)
      (simp add: RDM_CMD_PDU_MIN_SIZE_def RDM_CMD_PDU_MAX_SIZE_def RDM_CMD_PDU_LEN_def INIT_PDU_BLOCK_STATE_def etcpal_simps Let_def)
  also have "\<dots> = rdm_list_loop E alloc ?d (?b\<lparr>size_parsed := ?n + len\<rparr>)
      \<lparr>entries = [cmd, take (len - 3) (drop 3 (x @ rest))], more_coming = False\<rparr> (7 + ?n + len) kRCParseResFullBlockParseOk"
    using ok pk assms(3-12)
    by (subst rdm_list_loop.simps) (simp add: RDM_CMD_PDU_MIN_SIZE_def RDM_CMD_PDU_MAX_SIZE_def etcpal_simps Let_def)
  also have "\<dots> = Some (7 + ?n + len, ?b\<lparr>size_parsed := ?n + len\<rparr>,
      \<lparr>entries = [cmd, take (len - 3) (drop 3 (x @ rest))], more_coming = False\<rparr>, kRCParseResFullBlockParseOk)"
    using assms(6) by (subst rdm_list_loop.simps) (simp add: Let_def)
  finally show ?thesis using assms(6) by auto
qed

lemma rdm_overshoot_block:
  assumes ok: "etcpal_ok E" and v: "valid_cmd cmd" and "\<forall>n. alloc n"
    and "ACN_PDU_LENGTH E (x @ rest) = len" and "x \<noteq> []" "length x < len" "len \<le> RDM_CMD_PDU_LEN cmd + length x" "len \<le> 260"
    and "len \<le> length (x @ rest)" "29 \<le> length (x @ rest)" "3 \<le> len"
  defines "d \<equiv> PACK_REQUEST_HEADER E (7 + RDM_CMD_PDU_LEN cmd + length x) @ PACK_RDM_CMD_PDU E cmd @ x"
  shows "length d + 51 < 2 ^ 20"
    and "\<exists>l b'. \<not> consuming_bad_block b' \<and> block_size b' \<le> size_parsed b' \<and>
      (\<forall>rs. parse_rpt_block E alloc (INIT_RPT_STATE (28 + length d) rs)
          (pack_rpt_header E (28 + length d) VECTOR_RPT_REQUEST h @ d @ rest) rmsg kRCParseResNoData =
        Some (0, rs\<lparr>rs_block := \<lparr>block_size = 28 + length d, size_parsed = 28, consuming_bad_block = False, parsed_header = True\<rparr>,
            rs_rdm_list := \<lparr>parsed_request_notif_header = True, rl_block = b'\<rparr>\<rparr>,
          rmsg\<lparr>rm_vector := VECTOR_RPT_REQUEST, rm_header := h, rm_rdm := l\<rparr>, kRCParseResNoData))"
proof -
  let ?hdr = "PACK_REQUEST_HEADER E (7 + RDM_CMD_PDU_LEN cmd + length x)"
  have n: "29 \<le> RDM_CMD_PDU_LEN cmd" "RDM_CMD_PDU_LEN cmd \<le> 260" using v by (simp_all add: valid_cmd_def RDM_CMD_PDU_LEN_def)
  have hdr: "length ?hdr = 7" "ACN_PDU_LENGTH E (d @ rest) = 7 + RDM_CMD_PDU_LEN cmd + length x"
      "unpack_u32b E (drop 3 (d @ rest)) = VECTOR_REQUEST_RDM_CMD"
    using ok n assms(6,8) by (simp_all add: d_def PACK_REQUEST_HEADER_def pack_pdu_length_def etcpal_simps)
  have len: "length d = 7 + RDM_CMD_PDU_LEN cmd + length x"
    using pack_rdm_cmd(1) [OF ok v] hdr(1) by (simp add: d_def)
  show d51: "length d + 51 < 2 ^ 20" using len n assms(6,8) by simp
  obtain l b' r where loop: "rdm_list_loop E alloc (d @ rest) (INIT_PDU_BLOCK_STATE (RDM_CMD_PDU_LEN cmd + length x))
      \<lparr>entries = [], more_coming = False\<rparr> 7 kRCParseResNoData = Some (7 + RDM_CMD_PDU_LEN cmd + len, b', l, r)"
    and b': "\<not> consuming_bad_block b'" "block_size b' \<le> size_parsed b'"
    using rdm_overshoot_loop [OF ok v assms(3-11) hdr(1)] by (auto simp: d_def)
  let ?l = "\<lparr>parsed_request_notif_header = True, rl_block = b'\<rparr>"
  have list: "parse_rdm_list E alloc (INIT_RDM_LIST_STATE (length d)) (d @ rest) \<lparr>entries = [], more_coming = False\<rparr> =
      Some (7 + RDM_CMD_PDU_LEN cmd + len, ?l, l, r)"
    using loop hdr len
    by (simp add: parse_rdm_list_def parse_rdm_list_header_def INIT_RDM_LIST_STATE_def INIT_PDU_BLOCK_STATE_def Let_def)
  have over: "7 \<le> length d" "length d < 7 + RDM_CMD_PDU_LEN cmd + len" using len assms(6) by simp_all
  have "parse_rpt_block E alloc (INIT_RPT_STATE (28 + length d) rs)
      (pack_rpt_header E (28 + length d) VECTOR_RPT_REQUEST h @ d @ rest) rmsg kRCParseResNoData =
    Some (0, rs\<lparr>rs_block := \<lparr>block_size = 28 + length d, size_parsed = 28, consuming_bad_block = False, parsed_header = True\<rparr>,
        rs_rdm_list := ?l\<rparr>, rmsg\<lparr>rm_vector := VECTOR_RPT_REQUEST, rm_header := h, rm_rdm := l\<rparr>, kRCParseResNoData)" for rs
    using list unpack_pack_rpt_header [OF ok] d51 over
    by (simp add: parse_rpt_block_def parse_rpt_header_def parse_rpt_data_def initialize_rpt_message_def
        INIT_RPT_STATE_def INIT_PDU_BLOCK_STATE_def Let_def)
  with b' show "\<exists>l b'. \<not> consuming_bad_block b' \<and> block_size b' \<le> size_parsed b' \<and>
      (\<forall>rs. parse_rpt_block E alloc (INIT_RPT_STATE (28 + length d) rs)
          (pack_rpt_header E (28 + length d) VECTOR_RPT_REQUEST h @ d @ rest) rmsg kRCParseResNoData =
        Some (0, rs\<lparr>rs_block := \<lparr>block_size = 28 + length d, size_parsed = 28, consuming_bad_block = False, parsed_header = True\<rparr>,
            rs_rdm_list := \<lparr>parsed_request_notif_header = True, rl_block = b'\<rparr>\<rparr>,
          rmsg\<lparr>rm_vector := VECTOR_RPT_REQUEST, rm_header := h, rm_rdm := l\<rparr>, kRCParseResNoData))"
    by blast
qed

text \<open>
  C39. An RPT Request whose second RDM command PDU claims to reach past the end of the list stops the
  connection's parser for good. \<^verbatim>\<open>parse_rdm_list\<close> compares that length with the size of the whole list
  instead of with what is left of it, reads on into the bytes behind the message, and the assertion of
  \<^verbatim>\<open>parse_rpt_block\<close> on the overrun leaves a state in which every later call consumes nothing and
  returns \<^const>\<open>kEtcPalErrNoData\<close>, whatever is received.
\<close>

theorem rdm_overshoot_wedges:
  assumes ok: "etcpal_ok E" and "length cid = 16" and v: "valid_cmd cmd" and "\<forall>n. alloc n"
    and "ACN_PDU_LENGTH E (x @ rest) = len" and "x \<noteq> []" "length x < len" "len \<le> RDM_CMD_PDU_LEN cmd + length x" "len \<le> 260"
    and "len \<le> length (x @ rest)" "29 \<le> length (x @ rest)" "3 \<le> len"
  defines "d \<equiv> PACK_REQUEST_HEADER E (7 + RDM_CMD_PDU_LEN cmd + length x) @ PACK_RDM_CMD_PDU E cmd @ x"
  shows "\<exists>mb'. rc_msg_buf_parse_data E alloc (fresh_buf mb
      (pack_rpt_header_with_rlp E (rlp_pdu cid (ACN_VECTOR_ROOT_RPT E) (28 + length d)) VECTOR_RPT_REQUEST h @ d @ rest)) =
    Some (kEtcPalErrNoData, mb') \<and>
    (\<forall>d'. rc_msg_buf_parse_data E alloc (mb'\<lparr>mb_buf := d'\<rparr>) = Some (kEtcPalErrNoData, mb'\<lparr>mb_buf := d'\<rparr>))"
proof -
  note d51 = rdm_overshoot_block(1) [OF ok v assms(4-12), folded d_def]
  note blk = rdm_overshoot_block(2) [OF ok v assms(4-12), of h "msg_rpt (mb_msg mb)", folded d_def]
  obtain l b' where b': "\<not> consuming_bad_block b'" "block_size b' \<le> size_parsed b'"
    and rpt: "\<forall>rs. parse_rpt_block E alloc (INIT_RPT_STATE (28 + length d) rs)
          (pack_rpt_header E (28 + length d) VECTOR_RPT_REQUEST h @ d @ rest) (msg_rpt (mb_msg mb)) kRCParseResNoData =
        Some (0, rs\<lparr>rs_block := \<lparr>block_size = 28 + length d, size_parsed = 28, consuming_bad_block = False, parsed_header = True\<rparr>,
            rs_rdm_list := \<lparr>parsed_request_notif_header = True, rl_block = b'\<rparr>\<rparr>,
          (msg_rpt (mb_msg mb))\<lparr>rm_vector := VECTOR_RPT_REQUEST, rm_header := h, rm_rdm := l\<rparr>, kRCParseResNoData)"
    using blk by blast
  let ?rlp = "rlp_pdu cid (ACN_VECTOR_ROOT_RPT E) (28 + length d)"
  let ?msg = "(mb_msg mb)\<lparr>msg_vector := ACN_VECTOR_ROOT_RPT E, sender_cid := cid, 
      msg_rpt := (msg_rpt (mb_msg mb))\<lparr>rm_vector := VECTOR_RPT_REQUEST, rm_header := h, rm_rdm := l\<rparr>\<rparr>"
  let ?rs = "\<lambda>rs. (rs :: RptState)\<lparr>rs_block := \<lparr>block_size = 28 + length d, size_parsed = 28, consuming_bad_block = False,
      parsed_header = True\<rparr>, rs_rdm_list := \<lparr>parsed_request_notif_header = True, rl_block = b'\<rparr>\<rparr>"
  let ?r = "(rlp_state mb)\<lparr>rlp_block := \<lparr>block_size = 51 + length d, size_parsed = 23, consuming_bad_block = False,
      parsed_header = True\<rparr>, rlp_rpt := ?rs (rlp_rpt (rlp_state mb))\<rparr>"
  let ?body = "pack_rpt_header E (28 + length d) VECTOR_RPT_REQUEST h @ d"
  have ne: "ACN_VECTOR_ROOT_RPT E \<noteq> ACN_VECTOR_ROOT_BROKER E" using ok by (simp add: etcpal_ok_consts)
  have root: "length (acn_pack_root_layer_header E ?rlp) = 23"
    "acn_parse_root_layer_header E (acn_pack_root_layer_header E ?rlp @ y) = Some ?rlp" for y
    using ok assms(2) d51 by (simp_all add: etcpal_ok_root rlp_pdu_def)
  have "parse_rlp_block E alloc (INIT_RLP_STATE (51 + length d) (rlp_state mb))
      (acn_pack_root_layer_header E ?rlp @ ?body @ rest) (mb_msg mb) = Some (23, ?r, ?msg, Some kRCParseResNoData)"
    using ok root ne rpt
    by (simp add: parse_rlp_block_def parse_rlp_header_def parse_rlp_data_def initialize_rdmnet_message_def rlp_pdu_def
        INIT_RLP_STATE_def INIT_PDU_BLOCK_STATE_def check_for_full_parse_def etcpal_simps Let_def)
  then have step: "parse_data_step E alloc (fresh_buf mb (wire E cid (ACN_VECTOR_ROOT_RPT E) ?body @ rest)) =
      Some (kEtcPalErrNoData, False, mb\<lparr>mb_buf := ?body @ rest, have_preamble := True, rlp_state := ?r, mb_msg := ?msg\<rparr>)"
    using locate_wire [OF ok assms(2), of ?body "ACN_VECTOR_ROOT_RPT E" rest] d51 unpack_pack_rpt_header(1) [OF ok] root(1)
    by (simp add: parse_data_step_def fresh_buf_def parse_data_block_def result_code_def Let_def)
  define mb' where "mb' = mb\<lparr>mb_buf := ?body @ rest, have_preamble := True, rlp_state := ?r, mb_msg := ?msg\<rparr>"
  have "rdm_wedged E (mb'\<lparr>mb_buf := d'\<rparr>)" for d'
    using b' ne by (simp add: mb'_def rdm_wedged_def block_ok_def)
  moreover have "rc_msg_buf_parse_data E alloc (fresh_buf mb
      (pack_rpt_header_with_rlp E ?rlp VECTOR_RPT_REQUEST h @ d @ rest)) = Some (kEtcPalErrNoData, mb')"
    using rpt_packed(1) [OF ok assms(2) d51, of VECTOR_RPT_REQUEST h] step [folded mb'_def]
    by (subst rc_msg_buf_parse_data.simps) (simp flip: append_assoc)
  ultimately show ?thesis by (intro exI [of _ mb']) (simp add: rdm_wedged_stays)
qed

definition overshoot_request :: bytes where
  "overshoot_request = PACK_REQUEST_HEADER etcpal_be (7 + RDM_CMD_PDU_LEN sample_cmd + length (pack_pdu_length etcpal_be 32)) @
     PACK_RDM_CMD_PDU etcpal_be sample_cmd @ pack_pdu_length etcpal_be 32"

theorem rdm_overshoot_wedges_witness:
  "\<exists>mb'. rc_msg_buf_parse_data etcpal_be (\<lambda>n. True) (fresh_buf idle_buf
      (pack_rpt_header_with_rlp etcpal_be (rlp_pdu (replicate 16 1) (ACN_VECTOR_ROOT_RPT etcpal_be) (28 + length overshoot_request))
         VECTOR_RPT_REQUEST blank_rpt_header @ overshoot_request @ replicate 60 0)) = Some (kEtcPalErrNoData, mb') \<and>
    (\<forall>d'. rc_msg_buf_parse_data etcpal_be (\<lambda>n. True) (mb'\<lparr>mb_buf := d'\<rparr>) = Some (kEtcPalErrNoData, mb'\<lparr>mb_buf := d'\<rparr>))"
  unfolding overshoot_request_def
  by (rule rdm_overshoot_wedges [where len = 32])
    (simp_all add: valid_sample_cmd pack_pdu_length_def etcpal_simps flip: length_0_conv)

section \<open>Pieces of a list\<close>

text \<open>
  C27. A list of dynamic UID assignments can arrive in any pieces: if the first piece ends inside the list,
  parsing what is left of it together with the next piece gives the same count, state, list and
  result as parsing both pieces at once.
\<close>

theorem assignment_list_streaming:
  assumes "etcpal_ok E" and "\<forall>n. alloc n"
    and "parse_dynamic_uid_assignment_list E alloc ls piece l = (n, ls1, l1, kRCParseResNoData)"
  shows "parse_dynamic_uid_assignment_list E alloc ls (piece @ next) l =
    (case parse_dynamic_uid_assignment_list E alloc ls1 (drop n piece @ next) l1 of (k, r) \<Rightarrow> (n + k, r))"
  using mapping_codec.list_streaming [OF assms(1), of alloc ls piece l n ls1 l1 "next"] assms(2,3)
  by (simp add: parse_dynamic_uid_assignment_list_def)

text \<open>
  Two mappings, of which the first piece has one and the beginning of the other. The first is parsed with its piece, the second
  when the rest of it has come.
\<close>

definition split_mapping :: "u8 \<Rightarrow> bytes" where
  "split_mapping k = [0x65, 0x74, 0, 0, 0, k] @ replicate 16 k @ [0, 1]"

definition split_entry :: "u8 \<Rightarrow> RdmnetDynamicUidMapping" where
  "split_entry k = unpack_mapping etcpal_be (split_mapping k)"

theorem assignment_list_streaming_witness:
  "parse_dynamic_uid_assignment_list etcpal_be (\<lambda>n. True) (INIT_GENERIC_LIST_STATE 48)
      ((split_mapping 1 @ take 10 (split_mapping 2)) @ drop 10 (split_mapping 2)) empty_list =
    (case parse_dynamic_uid_assignment_list etcpal_be (\<lambda>n. True) \<lparr>full_list_size = 48, gl_size_parsed = 24\<rparr>
        (drop 24 (split_mapping 1 @ take 10 (split_mapping 2)) @ drop 10 (split_mapping 2)) \<lparr>entries = [split_entry 1], more_coming = False\<rparr>
     of (k, r) \<Rightarrow> (24 + k, r)) \<and>
   (case parse_dynamic_uid_assignment_list etcpal_be (\<lambda>n. True) \<lparr>full_list_size = 48, gl_size_parsed = 24\<rparr>
        (drop 24 (split_mapping 1 @ take 10 (split_mapping 2)) @ drop 10 (split_mapping 2)) \<lparr>entries = [split_entry 1], more_coming = False\<rparr>
     of (k, r) \<Rightarrow> (24 + k, r)) =
    (48, \<lparr>full_list_size = 48, gl_size_parsed = 48\<rparr>, \<lparr>entries = [split_entry 1, split_entry 2], more_coming = False\<rparr>, kRCParseResFullBlockParseOk)"
proof
  have len: "length (split_mapping k) = 24" for k by (simp add: split_mapping_def)
  have unpack: "unpack_mapping etcpal_be (split_mapping k @ d) = split_entry k" for k d
    by (simp add: split_entry_def split_mapping_def unpack_mapping_def unpack_uid_def etcpal_be_def be_unpack_def)
  have first: "parse_dynamic_uid_assignment_list etcpal_be (\<lambda>n. True) (INIT_GENERIC_LIST_STATE 48) (split_mapping 1 @ take 10 (split_mapping 2)) empty_list =
      (24, \<lparr>full_list_size = 48, gl_size_parsed = 24\<rparr>, \<lparr>entries = [split_entry 1], more_coming = False\<rparr>, kRCParseResNoData)"
    by (simp add: parse_dynamic_uid_assignment_list_def parse_list_loop.simps INIT_GENERIC_LIST_STATE_def empty_list_def len unpack)
  show "parse_dynamic_uid_assignment_list etcpal_be (\<lambda>n. True) (INIT_GENERIC_LIST_STATE 48)
      ((split_mapping 1 @ take 10 (split_mapping 2)) @ drop 10 (split_mapping 2)) empty_list =
    (case parse_dynamic_uid_assignment_list etcpal_be (\<lambda>n. True) \<lparr>full_list_size = 48, gl_size_parsed = 24\<rparr>
        (drop 24 (split_mapping 1 @ take 10 (split_mapping 2)) @ drop 10 (split_mapping 2)) \<lparr>entries = [split_entry 1], more_coming = False\<rparr>
     of (k, r) \<Rightarrow> (24 + k, r))"
    by (rule assignment_list_streaming [OF _ _ first]) simp_all
  show "(case parse_dynamic_uid_assignment_list etcpal_be (\<lambda>n. True) \<lparr>full_list_size = 48, gl_size_parsed = 24\<rparr>
        (drop 24 (split_mapping 1 @ take 10 (split_mapping 2)) @ drop 10 (split_mapping 2)) \<lparr>entries = [split_entry 1], more_coming = False\<rparr>
     of (k, r) \<Rightarrow> (24 + k, r)) =
    (48, \<lparr>full_list_size = 48, gl_size_parsed = 48\<rparr>, \<lparr>entries = [split_entry 1, split_entry 2], more_coming = False\<rparr>, kRCParseResFullBlockParseOk)"
    using unpack [of 2 "[]"] by (simp add: parse_dynamic_uid_assignment_list_def parse_list_loop.simps len)
qed

section \<open>Receiving\<close>

text \<open>
  What is taken of a stream socket: \<open>incoming\<close> are the bytes that are still to come in a state of the socket. A call takes the
  first of them, no more than it asks for; a failing call takes none.
\<close>

definition stream_socket :: "('s \<Rightarrow> nat \<Rightarrow> recv_res \<times> 's) \<Rightarrow> ('s \<Rightarrow> bytes) \<Rightarrow> bool" where
  "stream_socket recv incoming \<longleftrightarrow>
     (\<forall>s n bs s'. recv s n = (Received bs, s') \<longrightarrow> length bs \<le> n \<and> incoming s = bs @ incoming s') \<and>
     (\<forall>s n e s'. recv s n = (RecvError e, s') \<longrightarrow> e \<noteq> kEtcPalErrOk \<and> incoming s' = incoming s)"

lemma recv_loop_stream:
  assumes "stream_socket recv incoming" and "length buf \<le> RC_MSG_BUF_SIZE"
  shows "\<exists>r more s'. recv_loop recv s buf = Some (r, buf @ more, s') \<and> length (buf @ more) \<le> RC_MSG_BUF_SIZE \<and>
    incoming s = more @ incoming s'"
  using assms(2)
proof (induction "RC_MSG_BUF_SIZE - length buf" arbitrary: s buf rule: less_induct)
  case less
  show ?case
  proof (cases "length buf = RC_MSG_BUF_SIZE")
    case True
    then show ?thesis by (simp add: recv_loop.simps)
  next
    case False
    obtain x s1 where rv: "recv s (RC_MSG_BUF_SIZE - length buf) = (x, s1)" by (metis prod.exhaust)
    show ?thesis
    proof (cases "\<exists>b bs. x = Received (b # bs)")
      case True
      then obtain b bs where x: "x = Received (b # bs)" by blast
      have le: "length (b # bs) \<le> RC_MSG_BUF_SIZE - length buf" "incoming s = (b # bs) @ incoming s1"
        using assms(1) rv x unfolding stream_socket_def by blast+
      with False less.prems have "\<exists>r more s'. recv_loop recv s1 (buf @ b # bs) = Some (r, (buf @ b # bs) @ more, s') \<and>
          length ((buf @ b # bs) @ more) \<le> RC_MSG_BUF_SIZE \<and> incoming s1 = more @ incoming s'"
        by (intro less.hyps) simp_all
      with rv x le False less.prems show ?thesis
        by (subst recv_loop.simps) (fastforce simp: Let_def)
    next
      case False
      then have "x = Received [] \<or> (\<exists>e. x = RecvError e)" by (cases x) (auto, metis list.exhaust)
      moreover have "incoming s1 = incoming s" using assms(1) rv calculation unfolding stream_socket_def by fastforce
      ultimately show ?thesis using rv less.prems \<open>length buf \<noteq> RC_MSG_BUF_SIZE\<close>
        by (subst recv_loop.simps) (auto simp: Let_def)
    qed
  qed
qed

lemma recv_loop_error:
  assumes "recv_loop recv s buf = Some (RecvError e, buf', s')" and "e \<noteq> kEtcPalErrWouldBlock"
  shows "\<exists>t n. recv t n = (RecvError e, s')"
  using assms(1)
proof (induction "RC_MSG_BUF_SIZE - length buf" arbitrary: s buf rule: less_induct)
  case less
  obtain x s1 where rv: "recv s (RC_MSG_BUF_SIZE - length buf) = (x, s1)" by (metis prod.exhaust)
  show ?case
  proof (cases x)
    case (Received bs)
    with less.prems rv assms(2) have "bs \<noteq> []" "length buf < RC_MSG_BUF_SIZE" "recv_loop recv s1 (buf @ bs) = Some (RecvError e, buf', s')"
      by (subst (asm) recv_loop.simps, auto simp: Let_def split: if_splits)+
    then show ?thesis by (intro less.hyps) (auto simp flip: length_greater_0_conv)
  next
    case (RecvError e')
    with less.prems rv assms(2) have "(x, s1) = (RecvError e, s')"
      by (subst (asm) recv_loop.simps) (auto simp: Let_def split: if_splits)
    with rv show ?thesis by auto
  qed
qed

text \<open>
  C28. On a stream socket \<^verbatim>\<open>rc_msg_buf_recv\<close> returns, and appends to the buffer exactly the bytes it has taken from the socket:
  the first of those that were to come, in their order, none lost or repeated. It never overfills the buffer; success means that
  bytes came in, "would block" that none did.
\<close>

theorem recv_appends:
  assumes "stream_socket recv incoming" and "length (mb_buf mb) \<le> RC_MSG_BUF_SIZE"
  shows "\<exists>e more s'. rc_msg_buf_recv recv s mb = Some (e, mb\<lparr>mb_buf := mb_buf mb @ more\<rparr>, s') \<and>
    incoming s = more @ incoming s' \<and> length (mb_buf mb @ more) \<le> RC_MSG_BUF_SIZE \<and> (e = kEtcPalErrOk \<longrightarrow> more \<noteq> []) \<and>
    (e = kEtcPalErrWouldBlock \<longrightarrow> more = [])"
proof -
  obtain r more s' where l: "recv_loop recv s (mb_buf mb) = Some (r, mb_buf mb @ more, s')"
    "length (mb_buf mb @ more) \<le> RC_MSG_BUF_SIZE" "incoming s = more @ incoming s'"
    using recv_loop_stream [OF assms, of s] by blast
  moreover have "r \<noteq> RecvError kEtcPalErrOk"
    using recv_loop_error [of recv s "mb_buf mb" kEtcPalErrOk] l(1) assms(1) unfolding stream_socket_def by fastforce
  ultimately show ?thesis
    using assms(2)
    by (intro exI [of _ "fst (the (rc_msg_buf_recv recv s mb))"] exI [of _ more] exI [of _ s'])
      (cases r; simp add: rc_msg_buf_recv_def Let_def)
qed

text \<open>A socket over a list of pieces that are still to arrive.\<close>

fun list_recv :: "bytes list \<Rightarrow> nat \<Rightarrow> recv_res \<times> bytes list" where
  "list_recv [] n = (RecvError kEtcPalErrWouldBlock, [])"
| "list_recv (p # ps) n = (Received (take n p), (if length p \<le> n then ps else drop n p # ps))"

theorem recv_appends_witness:
  "\<exists>e more s'. rc_msg_buf_recv list_recv [[1, 2], [3]] idle_buf = Some (e, idle_buf\<lparr>mb_buf := mb_buf idle_buf @ more\<rparr>, s') \<and>
    concat [[1, 2], [3]] = more @ concat s' \<and> length (mb_buf idle_buf @ more) \<le> RC_MSG_BUF_SIZE \<and> (e = kEtcPalErrOk \<longrightarrow> more \<noteq> []) \<and>
    (e = kEtcPalErrWouldBlock \<longrightarrow> more = [])"
proof (rule recv_appends)
  have "length bs \<le> n \<and> concat s = bs @ concat s'" if "list_recv s n = (Received bs, s')" for s n bs s'
    using that by (cases s) auto
  moreover have "e \<noteq> kEtcPalErrOk \<and> concat s' = concat s" if "list_recv s n = (RecvError e, s')" for s n e s'
    using that by (cases s) auto
  ultimately show "stream_socket list_recv concat" unfolding stream_socket_def by blast
qed (simp add: idle_buf_def)

end
