(* ===== verification/Ref_List.thy ===== *)
theory Ref_List
  imports Rdmnet_Prelude
begin

text \<open>
  The growing buffers and the reference lists of \<^verbatim>\<open>src/rdmnet/core/util.c\<close>, with which every module of
  the core keeps track of the objects it ticks. A \<^verbatim>\<open>void*\<close> is an element of a type \<^typ>\<open>'a\<close>; the array
  and its element count are the list of the first \<^verbatim>\<open>num_refs\<close> elements.

  Memory is the parameter \<open>grow\<close>: whether \<^verbatim>\<open>realloc\<close> gives an array of the asked number of elements.
  With \<^verbatim>\<open>RDMNET_DYNAMIC_MEM=0\<close> the arrays never grow, which is \<open>grow = (\<lambda>_. False)\<close>. A function to be
  called for each object is a transformer of a state \<^typ>\<open>'s\<close>.
\<close>

section \<open>Growing buffers\<close>

text \<open>The doubling loop of \<^verbatim>\<open>rc_check_buf_capacity\<close>, with the wrap-around of \<^verbatim>\<open>size_t\<close>.\<close>

partial_function (option) double_until :: "nat \<Rightarrow> nat \<Rightarrow> nat option" where
  "double_until new_capacity num_requested =
     (if new_capacity < num_requested then double_until (new_capacity * 2 mod SIZE_MOD) num_requested
      else Some new_capacity)"

definition rc_check_buf_capacity ::
  "(nat \<Rightarrow> bool) \<Rightarrow> 'a \<Rightarrow> 'a list \<Rightarrow> nat \<Rightarrow> nat \<Rightarrow> (bool \<times> 'a list) option" where
  "rc_check_buf_capacity grow zero buf current_num num_additional =
     (let num_requested = current_num + num_additional in
      if num_requested > length buf then do {
        new_capacity \<leftarrow> double_until (length buf * 2 mod SIZE_MOD) num_requested;
        Some (if grow new_capacity then (True, buf @ replicate (new_capacity - length buf) zero)
              else (False, buf))
      }
      else Some (True, buf))"

definition rc_init_buf :: "(nat \<Rightarrow> bool) \<Rightarrow> 'a \<Rightarrow> nat \<Rightarrow> ('a list \<times> nat) option" where
  "rc_init_buf grow zero initial_capacity =
     (if grow initial_capacity then Some (replicate initial_capacity zero, 0) else None)"

section \<open>Reference lists\<close>

record 'a RCRefList =
  refs :: "'a list"
  refs_capacity :: nat

record 'a RCRefLists =
  active :: "'a RCRefList"
  pending :: "'a RCRefList"
  to_remove :: "'a RCRefList"

abbreviation (input) INITIAL_REF_CAPACITY :: nat where "INITIAL_REF_CAPACITY \<equiv> 8"

definition rc_ref_list_init :: "(nat \<Rightarrow> bool) \<Rightarrow> 'a RCRefList option" where
  "rc_ref_list_init grow =
     (if grow INITIAL_REF_CAPACITY then Some \<lparr>refs = [], refs_capacity = INITIAL_REF_CAPACITY\<rparr> else None)"

definition rc_ref_list_cleanup :: "'a RCRefList \<Rightarrow> 'a RCRefList" where
  "rc_ref_list_cleanup l = l\<lparr>refs := [], refs_capacity := 0\<rparr>"

definition rc_ref_lists_init :: "(nat \<Rightarrow> bool) \<Rightarrow> 'a RCRefLists option" where
  "rc_ref_lists_init grow = do {
     a \<leftarrow> rc_ref_list_init grow;
     p \<leftarrow> rc_ref_list_init grow;
     r \<leftarrow> rc_ref_list_init grow;
     Some \<lparr>active = a, pending = p, to_remove = r\<rparr>
   }"

definition rc_ref_lists_cleanup :: "'a RCRefLists \<Rightarrow> 'a RCRefLists" where
  "rc_ref_lists_cleanup ls =
     ls\<lparr>active := rc_ref_list_cleanup (active ls), pending := rc_ref_list_cleanup (pending ls),
        to_remove := rc_ref_list_cleanup (to_remove ls)\<rparr>"

text \<open>
  Adding a reference gives whether there was room. It faults if the array has no room for the
  element after it has been doubled.
\<close>

definition rc_ref_list_add_ref :: "(nat \<Rightarrow> bool) \<Rightarrow> 'a RCRefList \<Rightarrow> 'a \<Rightarrow> (bool \<times> 'a RCRefList) option" where
  "rc_ref_list_add_ref grow l x =
     (if length (refs l) < refs_capacity l then Some (True, l\<lparr>refs := refs l @ [x]\<rparr>)
      else
        (let new_capacity = refs_capacity l * 2 in
         if \<not> grow new_capacity then Some (False, l)
         else if length (refs l) < new_capacity
         then Some (True, l\<lparr>refs := refs l @ [x], refs_capacity := new_capacity\<rparr>)
         else None))"

fun find_index :: "'a list \<Rightarrow> 'a \<Rightarrow> int \<Rightarrow> int" where
  "find_index [] to_find i = -1"
| "find_index (r # rs) to_find i = (if r = to_find then i else find_index rs to_find (i + 1))"

definition rc_ref_list_find_ref_index :: "'a RCRefList \<Rightarrow> 'a \<Rightarrow> int" where
  "rc_ref_list_find_ref_index l to_find = find_index (refs l) to_find 0"

definition rc_ref_list_remove_ref :: "'a RCRefList \<Rightarrow> 'a \<Rightarrow> 'a RCRefList" where
  "rc_ref_list_remove_ref l x =
     (if refs l = [] then l
      else
        (let index = rc_ref_list_find_ref_index l x in
         if index \<ge> 0 then l\<lparr>refs := take (nat index) (refs l) @ drop (nat index + 1) (refs l)\<rparr>
         else l))"

fun rc_ref_list_find_ref :: "'a list \<Rightarrow> ('a \<Rightarrow> bool) \<Rightarrow> 'a option" where
  "rc_ref_list_find_ref [] predicate = None"
| "rc_ref_list_find_ref (r # rs) predicate = (if predicate r then Some r else rc_ref_list_find_ref rs predicate)"

fun rc_ref_list_for_each :: "'a list \<Rightarrow> ('a \<Rightarrow> 's \<Rightarrow> 's) \<Rightarrow> 's \<Rightarrow> 's" where
  "rc_ref_list_for_each [] fn s = s"
| "rc_ref_list_for_each (r # rs) fn s = rc_ref_list_for_each rs fn (fn r s)"

definition rc_ref_list_remove_all :: "'a RCRefList \<Rightarrow> ('a \<Rightarrow> 's \<Rightarrow> 's) \<Rightarrow> 's \<Rightarrow> 'a RCRefList \<times> 's" where
  "rc_ref_list_remove_all l on_remove s =
     (l\<lparr>refs := []\<rparr>, rc_ref_list_for_each (refs l) on_remove s)"

text \<open>
  The result of adding a pending reference to the active list is not looked at: without room the
  reference is dropped.
\<close>

fun add_refs :: "(nat \<Rightarrow> bool) \<Rightarrow> 'a RCRefList \<Rightarrow> 'a list \<Rightarrow> 'a RCRefList option" where
  "add_refs grow l [] = Some l"
| "add_refs grow l (x # xs) = do {
     (_, l') \<leftarrow> rc_ref_list_add_ref grow l x;
     add_refs grow l' xs
   }"

definition rc_ref_lists_add_pending :: "(nat \<Rightarrow> bool) \<Rightarrow> 'a RCRefLists \<Rightarrow> 'a RCRefLists option" where
  "rc_ref_lists_add_pending grow ls = do {
     a \<leftarrow> add_refs grow (active ls) (refs (pending ls));
     Some (ls\<lparr>active := a, pending := (pending ls)\<lparr>refs := []\<rparr>\<rparr>)
   }"

fun remove_each ::
  "('a \<Rightarrow> 's \<Rightarrow> 's) \<Rightarrow> 'a list \<Rightarrow> 'a RCRefList \<Rightarrow> 'a RCRefList \<Rightarrow> 's \<Rightarrow> 'a RCRefList \<times> 'a RCRefList \<times> 's" where
  "remove_each on_remove [] a p s = (a, p, s)"
| "remove_each on_remove (x # xs) a p s =
     (if rc_ref_list_find_ref_index a x \<noteq> -1 \<or> rc_ref_list_find_ref_index p x \<noteq> -1
      then remove_each on_remove xs (rc_ref_list_remove_ref a x) (rc_ref_list_remove_ref p x) (on_remove x s)
      else remove_each on_remove xs a p s)"

definition rc_ref_lists_remove_marked ::
  "'a RCRefLists \<Rightarrow> ('a \<Rightarrow> 's \<Rightarrow> 's) \<Rightarrow> 's \<Rightarrow> 'a RCRefLists \<times> 's" where
  "rc_ref_lists_remove_marked ls on_remove s =
     (case remove_each on_remove (refs (to_remove ls)) (active ls) (pending ls) s of
        (a, p, s') \<Rightarrow> (ls\<lparr>active := a, pending := p, to_remove := (to_remove ls)\<lparr>refs := []\<rparr>\<rparr>, s'))"

definition rc_ref_lists_remove_all ::
  "'a RCRefLists \<Rightarrow> ('a \<Rightarrow> 's \<Rightarrow> 's) \<Rightarrow> 's \<Rightarrow> 'a RCRefLists \<times> 's" where
  "rc_ref_lists_remove_all ls on_remove s =
     (let (ls1, s1) = rc_ref_lists_remove_marked ls on_remove s;
          (p, s2) = rc_ref_list_remove_all (pending ls1) on_remove s1;
          (a, s3) = rc_ref_list_remove_all (active ls1) on_remove s2 in
      (ls1\<lparr>pending := p, active := a\<rparr>, s3))"

section \<open>Single lists\<close>

definition list_ok :: "'a RCRefList \<Rightarrow> bool" where
  "list_ok l \<longleftrightarrow> length (refs l) \<le> refs_capacity l \<and> 0 < refs_capacity l"

lemma rc_ref_list_init_ok: "rc_ref_list_init grow = Some l \<Longrightarrow> list_ok l \<and> refs l = []"
  by (auto simp: rc_ref_list_init_def list_ok_def split: if_splits)

lemma add_ref_ok:
  assumes "list_ok l"
  obtains ok l' where "rc_ref_list_add_ref grow l x = Some (ok, l')" and "list_ok l'"
    and "refs l' = (if ok then refs l @ [x] else refs l)"
    and "ok \<longleftrightarrow> length (refs l) < refs_capacity l \<or> grow (refs_capacity l * 2)"
proof -
  have "\<exists>ok l'. rc_ref_list_add_ref grow l x = Some (ok, l') \<and> list_ok l' \<and>
      refs l' = (if ok then refs l @ [x] else refs l) \<and>
      (ok \<longleftrightarrow> length (refs l) < refs_capacity l \<or> grow (refs_capacity l * 2))"
    using assms by (auto simp: rc_ref_list_add_ref_def list_ok_def Let_def)
  with that show thesis by blast
qed

lemma find_index_none: "0 \<le> i \<Longrightarrow> find_index rs x i = -1 \<longleftrightarrow> x \<notin> set rs"
  by (induction rs arbitrary: i) auto

lemma find_index_split:
  "0 \<le> i \<Longrightarrow> x \<in> set rs \<Longrightarrow>
   i \<le> find_index rs x i \<and> take (nat (find_index rs x i - i)) rs @ drop (nat (find_index rs x i - i) + 1) rs = remove1 x rs"
proof (induction rs arbitrary: i)
  case (Cons r rs)
  show ?case
  proof (cases "r = x")
    case False
    with Cons.prems Cons.IH [of "i + 1"] have "i + 1 \<le> find_index rs x (i + 1)"
      and *: "take (nat (find_index rs x (i + 1) - (i + 1))) rs @
              drop (nat (find_index rs x (i + 1) - (i + 1)) + 1) rs = remove1 x rs" by auto
    moreover from this(1) have "nat (find_index rs x (i + 1) - i) = Suc (nat (find_index rs x (i + 1) - (i + 1)))"
      by simp
    ultimately show ?thesis using False by simp
  qed simp
qed simp

lemma find_ref_index_none [simp]: "rc_ref_list_find_ref_index l x = -1 \<longleftrightarrow> x \<notin> set (refs l)"
  by (simp add: rc_ref_list_find_ref_index_def find_index_none)

lemma refs_remove_ref [simp]: "refs (rc_ref_list_remove_ref l x) = remove1 x (refs l)"
proof (cases "x \<in> set (refs l)")
  case True
  then show ?thesis using find_index_split [of 0 x "refs l"]
    by (auto simp: rc_ref_list_remove_ref_def rc_ref_list_find_ref_index_def)
next
  case False
  then have "\<not> 0 \<le> rc_ref_list_find_ref_index l x" using find_ref_index_none [of l x] by linarith
  with False show ?thesis by (simp add: rc_ref_list_remove_ref_def remove1_idem)
qed

lemma refs_capacity_remove_ref [simp]: "refs_capacity (rc_ref_list_remove_ref l x) = refs_capacity l"
  by (simp add: rc_ref_list_remove_ref_def Let_def)

lemma rc_ref_list_for_each_fold: "rc_ref_list_for_each rs fn s = fold fn rs s"
  by (induction rs arbitrary: s) simp_all

lemma rc_ref_list_find_ref_find: "rc_ref_list_find_ref rs predicate = List.find predicate rs"
  by (induction rs) simp_all

lemma double_until_returns:
  assumes "0 < c" and "c \<le> n" and "n \<le> 2 ^ 62"
  shows "\<exists>c'. double_until c n = Some c' \<and> n \<le> c' \<and> c' \<le> 2 * n"
  using assms
proof (induction "n - c" arbitrary: c rule: less_induct)
  case less
  show ?case
  proof (cases "c < n")
    case True
    then have small: "c * 2 mod SIZE_MOD = c * 2" using less.prems by (simp add: SIZE_MOD_def)
    show ?thesis
    proof (cases "c * 2 \<le> n")
      case True
      with \<open>c < n\<close> less.prems less.hyps [of "c * 2"] small show ?thesis by (subst double_until.simps) simp
    next
      case False
      with \<open>c < n\<close> less.prems small show ?thesis
        by (subst double_until.simps) (simp add: double_until.simps [of "c * 2"])
    qed
  qed (use less.prems in \<open>simp add: double_until.simps\<close>)
qed

lemma double_until_zero: "0 < n \<Longrightarrow> double_until 0 n = None"
proof -
  have "c = 0 \<longrightarrow> n = 0" if "double_until c n = Some y" for c y
    by (rule double_until.raw_induct [OF _ that, where P = "\<lambda>c n y. c = 0 \<longrightarrow> n = 0"]) (auto split: if_splits)
  then show "0 < n \<Longrightarrow> double_until 0 n = None" by fastforce
qed

section \<open>Objects are removed once\<close>

text \<open>
  The objects a module knows are those on the active and the pending list. No object is on both or
  twice on one of them.
\<close>

definition lists_ok :: "'a RCRefLists \<Rightarrow> bool" where
  "lists_ok ls \<longleftrightarrow> list_ok (active ls) \<and> list_ok (pending ls) \<and> list_ok (to_remove ls) \<and>
     distinct (refs (active ls) @ refs (pending ls))"

definition known :: "'a RCRefLists \<Rightarrow> 'a set" where
  "known ls = set (refs (active ls)) \<union> set (refs (pending ls))"

text \<open>The first occurrences of the marked objects that are known.\<close>

fun firsts :: "'a list \<Rightarrow> 'a set \<Rightarrow> 'a list" where
  "firsts [] live = []"
| "firsts (x # xs) live = (if x \<in> live then x # firsts xs (live - {x}) else firsts xs live)"

lemma set_firsts: "set (firsts xs live) = set xs \<inter> live"
  by (induction xs arbitrary: live) auto

lemma distinct_firsts: "distinct (firsts xs live)"
  by (induction xs arbitrary: live) (auto simp: set_firsts)

lemma remove_each_spec:
  assumes "distinct (refs a)" and "distinct (refs p)"
  shows "\<exists>a' p'. remove_each f xs a p s = (a', p', fold f (firsts xs (set (refs a) \<union> set (refs p))) s) \<and>
     refs a' = filter (\<lambda>x. x \<notin> set xs) (refs a) \<and> refs p' = filter (\<lambda>x. x \<notin> set xs) (refs p) \<and>
     refs_capacity a' = refs_capacity a \<and> refs_capacity p' = refs_capacity p"
  using assms
proof (induction xs arbitrary: a p s)
  case (Cons x xs)
  show ?case
  proof (cases "x \<in> set (refs a) \<union> set (refs p)")
    case True
    let ?a = "rc_ref_list_remove_ref a x" and ?p = "rc_ref_list_remove_ref p x"
    have filt: "filter (\<lambda>y. y \<notin> set xs) (remove1 x rs) = filter (\<lambda>y. y \<notin> set (x # xs)) rs"
      if "distinct rs" for rs :: "'a list"
      using that by (auto simp: distinct_remove1_removeAll removeAll_filter_not_eq intro: filter_cong)
    show ?thesis using True Cons.prems Cons.IH [of ?a ?p "f x s"]
      by (simp add: filt Un_Diff)
  next
    case False
    then have "filter (\<lambda>y. y \<notin> set xs) (refs a) = filter (\<lambda>y. y \<notin> set (x # xs)) (refs a)"
      "filter (\<lambda>y. y \<notin> set xs) (refs p) = filter (\<lambda>y. y \<notin> set (x # xs)) (refs p)"
      by (auto intro: filter_cong)
    with False Cons.prems Cons.IH [of a p s] show ?thesis by simp
  qed
qed simp

lemma add_refs_grow:
  assumes "list_ok l"
  shows "\<exists>l'. add_refs (\<lambda>_. True) l xs = Some l' \<and> list_ok l' \<and> refs l' = refs l @ xs"
  using assms
proof (induction xs arbitrary: l)
  case (Cons x xs)
  from Cons.prems obtain ok l' where *: "rc_ref_list_add_ref (\<lambda>_. True) l x = Some (ok, l')" "list_ok l'"
    "refs l' = (if ok then refs l @ [x] else refs l)" "ok"
    by (rule add_ref_ok [of l "\<lambda>_. True" x]) simp
  with Cons.IH [of l'] show ?case by simp
qed simp

text \<open>
  C25. Every object that is marked for removal and known to the module is handed to \<^verbatim>\<open>on_remove\<close> exactly
  once, however often it has been marked and on whichever list it is, in the order of the first
  marks. No other object is. Afterwards exactly the unmarked objects are known, in their old order,
  and nothing is marked any more.
\<close>

theorem remove_marked_once:
  assumes "lists_ok ls" and "rc_ref_lists_remove_marked ls on_remove s = (ls', s')"
  shows "\<exists>gone. s' = fold on_remove gone s \<and> distinct gone \<and> set gone = set (refs (to_remove ls)) \<inter> known ls \<and>
     refs (active ls') = filter (\<lambda>x. x \<notin> set gone) (refs (active ls)) \<and>
     refs (pending ls') = filter (\<lambda>x. x \<notin> set gone) (refs (pending ls)) \<and>
     refs (to_remove ls') = [] \<and> lists_ok ls' \<and> known ls' = known ls - set (refs (to_remove ls))"
proof -
  define gone where "gone = firsts (refs (to_remove ls)) (known ls)"
  have filt: "filter (\<lambda>x. x \<notin> set gone) rs = filter (\<lambda>x. x \<notin> set (refs (to_remove ls))) rs"
    if "set rs \<subseteq> known ls" for rs
    using that by (auto simp: gone_def set_firsts intro: filter_cong)
  from assms(1) have d: "distinct (refs (active ls))" "distinct (refs (pending ls))"
    by (simp_all add: lists_ok_def)
  from remove_each_spec [OF d, of on_remove "refs (to_remove ls)" s] obtain a p where
    *: "remove_each on_remove (refs (to_remove ls)) (active ls) (pending ls) s = (a, p, fold on_remove gone s)"
      "refs a = filter (\<lambda>x. x \<notin> set (refs (to_remove ls))) (refs (active ls))"
      "refs p = filter (\<lambda>x. x \<notin> set (refs (to_remove ls))) (refs (pending ls))"
      "refs_capacity a = refs_capacity (active ls)" "refs_capacity p = refs_capacity (pending ls)"
    by (auto simp: gone_def known_def)
  have ls': "ls' = ls\<lparr>active := a, pending := p, to_remove := (to_remove ls)\<lparr>refs := []\<rparr>\<rparr>"
    and s': "s' = fold on_remove gone s"
    using assms(2) * by (simp_all add: rc_ref_lists_remove_marked_def)
  have "lists_ok ls'" using assms(1) *(2-5)
    by (auto simp: ls' lists_ok_def list_ok_def intro: order_trans [OF length_filter_le])
  moreover have "known ls' = known ls - set (refs (to_remove ls))" using * by (auto simp: ls' known_def)
  moreover have "refs (active ls') = filter (\<lambda>x. x \<notin> set gone) (refs (active ls))"
    "refs (pending ls') = filter (\<lambda>x. x \<notin> set gone) (refs (pending ls))" "refs (to_remove ls') = []"
    using * by (simp_all add: ls' filt known_def)
  moreover have "distinct gone" "set gone = set (refs (to_remove ls)) \<inter> known ls"
    by (simp_all add: gone_def set_firsts distinct_firsts)
  ultimately show ?thesis using s' by blast
qed

definition marked_twice :: "nat RCRefLists" where
  "marked_twice =
     \<lparr>active = \<lparr>refs = [1, 2], refs_capacity = 8\<rparr>, pending = \<lparr>refs = [3], refs_capacity = 8\<rparr>,
      to_remove = \<lparr>refs = [3, 1, 3, 4], refs_capacity = 8\<rparr>\<rparr>"

theorem remove_marked_once_witness:
  "lists_ok marked_twice \<and>
   (\<exists>gone. snd (rc_ref_lists_remove_marked marked_twice (#) []) = fold (#) gone [] \<and> distinct gone \<and>
     set gone = {1, 3})"
proof -
  have ok: "lists_ok marked_twice" by (simp add: marked_twice_def lists_ok_def list_ok_def)
  have sets: "set (refs (to_remove marked_twice)) \<inter> known marked_twice = {1, 3}"
    by (auto simp: marked_twice_def known_def)
  from remove_marked_once [OF ok prod.collapse [symmetric], of "(#)" "[]"] ok sets show ?thesis by metis
qed

text \<open>
  With memory to be had, every pending object becomes active and none is lost.
\<close>

lemma add_pending_keeps:
  assumes "lists_ok ls"
  obtains ls' where "rc_ref_lists_add_pending (\<lambda>_. True) ls = Some ls'" and "lists_ok ls'"
    and "refs (active ls') = refs (active ls) @ refs (pending ls)" and "refs (pending ls') = []"
    and "to_remove ls' = to_remove ls"
proof -
  from assms add_refs_grow [of "active ls" "refs (pending ls)"] obtain a where
    *: "add_refs (\<lambda>_. True) (active ls) (refs (pending ls)) = Some a" "list_ok a"
      "refs a = refs (active ls) @ refs (pending ls)" by (auto simp: lists_ok_def)
  with assms show thesis
    by (intro that [of "ls\<lparr>active := a, pending := (pending ls)\<lparr>refs := []\<rparr>\<rparr>"])
      (simp_all add: rc_ref_lists_add_pending_def lists_ok_def list_ok_def)
qed

text \<open>
  Without room on the active list a pending object is dropped: it is on no list any more, so it is
  never ticked and a later removal does not find it.
\<close>

lemma add_pending_loses:
  assumes "length (refs (active ls)) = refs_capacity (active ls)"
  shows "\<exists>ls'. rc_ref_lists_add_pending (\<lambda>_. False) ls = Some ls' \<and> known ls' = set (refs (active ls))"
proof -
  have "add_refs (\<lambda>_. False) (active ls) xs = Some (active ls)" for xs
    using assms by (induction xs) (simp_all add: rc_ref_list_add_ref_def Let_def)
  then show ?thesis by (simp add: rc_ref_lists_add_pending_def known_def)
qed

end
