(* ===== verification/Connection.thy ===== *)
theory Connection
  imports Broker_Prot Msg_Buf Ref_List
begin

text \<open>
  The client side of an RDMnet connection, \<^verbatim>\<open>src/rdmnet/core/connection.c\<close>: the connection state machine,
  its timers and its backoff, receiving and dispatching messages, and the events delivered to the
  owner of the connection.

  The operating system, the EtcPal timers, \<^verbatim>\<open>rand\<close> and the owner's callbacks are a parameter \<open>env\<close> that
  works on a state of the world \<^typ>\<open>'w\<close>. A callback gives the calls it makes back into this module; a
  callback that is not set is one that makes none. A function that sends may wait forever
  (\<^const>\<open>rc_send\<close>), which is the result \<^const>\<open>None\<close>. Taking the lock of a connection succeeds. What a
  function does to the outside is recorded in a trace: the events delivered and the messages freed.
\<close>

section \<open>Types\<close>

datatype rc_client_conn_state_t =
    kRCConnStateNotStarted | kRCConnStateConnectPending | kRCConnStateBackoff
  | kRCConnStateTCPConnPending | kRCConnStateRDMnetConnPending | kRCConnStateHeartbeat
  | kRCConnStateDisconnectPending | kRCConnStateReconnectPending | kRCConnStateMarkedForDestruction

datatype rc_message_action_t = kRCMessageActionRetryLater | kRCMessageActionProcessNext

datatype rdmnet_connect_fail_event_t =
    kRdmnetConnectFailSocketFailure | kRdmnetConnectFailTcpLevel | kRdmnetConnectFailNoReply
  | kRdmnetConnectFailRejected

datatype rdmnet_disconnect_event_t =
    kRdmnetDisconnectAbruptClose | kRdmnetDisconnectNoHeartbeat | kRdmnetDisconnectRedirected
  | kRdmnetDisconnectGracefulRemoteInitiated | kRdmnetDisconnectGracefulLocalInitiated

text \<open>A socket address; \<^verbatim>\<open>ETCPAL_IP_SET_INVALID\<close> is the absence of one.\<close>

record EtcPalSockAddr =
  sa_ip :: EtcPalIpAddr
  sa_port :: u16

record RCConnectedInfo =
  ci_broker_cid :: EtcPalUuid
  ci_broker_uid :: RdmUid
  ci_client_uid :: RdmUid
  ci_connected_addr :: "EtcPalSockAddr option"

record RCConnectFailedInfo =
  cf_event :: rdmnet_connect_fail_event_t
  cf_socket_err :: etcpal_error_t
  cf_rdmnet_reason :: u16

record RCDisconnectedInfo =
  di_event :: rdmnet_disconnect_event_t
  di_socket_err :: etcpal_error_t
  di_rdmnet_reason :: u16

text \<open>
  An event is initialised to zeros; a field that the code does not write before it delivers the
  event is therefore \<^const>\<open>kEtcPalErrOk\<close> or 0.
\<close>

datatype RCConnEvent =
    ConnEventNone
  | ConnEventConnected RCConnectedInfo
  | ConnEventConnectFailed RCConnectFailedInfo
  | ConnEventDisconnected RCDisconnectedInfo
  | ConnEventMsgReceived RdmnetMessage

record RCConnection =
  local_cid :: EtcPalUuid
  sock :: "nat option"
  remote_addr :: "EtcPalSockAddr option"
  conn_state :: rc_client_conn_state_t
  conn_data :: BrokerClientConnectMsg
  backoff_timer :: EtcPalTimer
  rdmnet_conn_failed :: bool
  sent_connected_notification :: bool
  send_timer :: EtcPalTimer
  hb_timer :: EtcPalTimer
  recv_buf :: RCMsgBuf
  retry_current_message :: bool

datatype conn_effect = Delivered RCConnEvent | Freed "msg_block list" RdmnetMessage | MarkedForRemoval | Destroyed

text \<open>A connection with the world it runs in and what it has done.\<close>

record 'w conn = RCConnection +
  world :: 'w
  trace :: "conn_effect list"

datatype conn_call =
    CallConnect EtcPalSockAddr BrokerClientConnectMsg
  | CallReconnect EtcPalSockAddr BrokerClientConnectMsg u16
  | CallDisconnect u16
  | CallUnregister "u16 option"

text \<open>
  \<open>e_union_broker\<close> is what reading the broker member of the message union gives while another member
  was written last.
\<close>

record 'w conn_env =
  e_socket :: "bool \<Rightarrow> 'w \<Rightarrow> etcpal_error_t \<times> nat option \<times> 'w"
  e_setblocking :: "nat option \<Rightarrow> 'w \<Rightarrow> etcpal_error_t \<times> 'w"
  e_connect :: "nat option \<Rightarrow> EtcPalSockAddr option \<Rightarrow> 'w \<Rightarrow> etcpal_error_t \<times> 'w"
  e_close :: "nat \<Rightarrow> 'w \<Rightarrow> 'w"
  e_poll_add :: "nat option \<Rightarrow> 'w \<Rightarrow> etcpal_error_t \<times> 'w"
  e_poll_modify :: "nat option \<Rightarrow> 'w \<Rightarrow> 'w"
  e_poll_remove :: "nat \<Rightarrow> 'w \<Rightarrow> 'w"
  e_send :: "nat option \<Rightarrow> 'w \<Rightarrow> bytes \<Rightarrow> (etcpal_error_t + nat) \<times> 'w"
  e_recv :: "nat option \<Rightarrow> 'w \<Rightarrow> nat \<Rightarrow> recv_res \<times> 'w"
  e_rand :: "'w \<Rightarrow> nat \<times> 'w"
  e_timer_start :: "u32 \<Rightarrow> 'w \<Rightarrow> EtcPalTimer"
  e_timer_reset :: "EtcPalTimer \<Rightarrow> 'w \<Rightarrow> EtcPalTimer"
  e_timer_is_expired :: "EtcPalTimer \<Rightarrow> 'w \<Rightarrow> bool"
  e_alloc :: "nat \<Rightarrow> bool"
  e_union_broker :: "RdmnetMessage \<Rightarrow> BrokerMessage"
  cb_connected :: "RCConnectedInfo \<Rightarrow> 'w \<Rightarrow> conn_call list \<times> 'w"
  cb_connect_failed :: "RCConnectFailedInfo \<Rightarrow> 'w \<Rightarrow> conn_call list \<times> 'w"
  cb_disconnected :: "RCDisconnectedInfo \<Rightarrow> 'w \<Rightarrow> conn_call list \<times> 'w"
  cb_message_received :: "RdmnetMessage \<Rightarrow> 'w \<Rightarrow> rc_message_action_t \<times> conn_call list \<times> 'w"
  cb_destroyed :: "'w \<Rightarrow> 'w"

abbreviation (input) E133_HEARTBEAT_TIMEOUT_SEC :: u32 where "E133_HEARTBEAT_TIMEOUT_SEC \<equiv> 45"
abbreviation (input) E133_TCP_HEARTBEAT_INTERVAL_SEC :: u32 where "E133_TCP_HEARTBEAT_INTERVAL_SEC \<equiv> 15"

section \<open>Calls of the owner\<close>

definition rc_conn_unregister :: "etcpal \<Rightarrow> 'w conn_env \<Rightarrow> 'w conn \<Rightarrow> u16 option \<Rightarrow> 'w conn option" where
  "rc_conn_unregister E env c reason = do {
     w \<leftarrow> (if conn_state c = kRCConnStateHeartbeat \<and> reason \<noteq> None
          then map_option snd
                 (rc_broker_send_disconnect E (e_send env (sock c)) (world c) (local_cid c) (the reason))
          else Some (world c));
     Some (c\<lparr>world := w, conn_state := kRCConnStateMarkedForDestruction, trace := trace c @ [MarkedForRemoval]\<rparr>)
   }"

definition rc_conn_connect ::
  "'w conn \<Rightarrow> EtcPalSockAddr \<Rightarrow> BrokerClientConnectMsg \<Rightarrow> etcpal_error_t \<times> 'w conn" where
  "rc_conn_connect c addr connect_data =
     (if conn_state c \<noteq> kRCConnStateNotStarted \<and> conn_state c \<noteq> kRCConnStateDisconnectPending
      then (kEtcPalErrIsConn, c)
      else (kEtcPalErrOk,
            c\<lparr>remote_addr := Some addr, conn_data := connect_data,
              conn_state := if conn_state c = kRCConnStateNotStarted then kRCConnStateConnectPending
                            else kRCConnStateReconnectPending\<rparr>))"

definition rc_conn_reconnect ::
  "etcpal \<Rightarrow> 'w conn_env \<Rightarrow> 'w conn \<Rightarrow> EtcPalSockAddr \<Rightarrow> BrokerClientConnectMsg \<Rightarrow> u16
   \<Rightarrow> (etcpal_error_t \<times> 'w conn) option" where
  "rc_conn_reconnect E env c new_addr new_data reason =
     (if conn_state c = kRCConnStateNotStarted \<or> conn_state c = kRCConnStateMarkedForDestruction \<or>
         conn_state c = kRCConnStateDisconnectPending
      then Some (kEtcPalErrSys, c)
      else do {
        w \<leftarrow> (if conn_state c = kRCConnStateHeartbeat
             then map_option snd
                    (rc_broker_send_disconnect E (e_send env (sock c)) (world c) (local_cid c) reason)
             else Some (world c));
        Some (kEtcPalErrOk,
              c\<lparr>world := w, remote_addr := Some new_addr, conn_data := new_data,
                conn_state := if conn_state c = kRCConnStateBackoff then kRCConnStateConnectPending
                              else kRCConnStateReconnectPending\<rparr>)
      })"

definition rc_conn_disconnect ::
  "etcpal \<Rightarrow> 'w conn_env \<Rightarrow> 'w conn \<Rightarrow> u16 \<Rightarrow> (etcpal_error_t \<times> 'w conn) option" where
  "rc_conn_disconnect E env c reason =
     (if conn_state c = kRCConnStateNotStarted \<or> conn_state c = kRCConnStateMarkedForDestruction
      then Some (kEtcPalErrSys, c)
      else do {
        w \<leftarrow> (if conn_state c = kRCConnStateHeartbeat
             then map_option snd
                    (rc_broker_send_disconnect E (e_send env (sock c)) (world c) (local_cid c) reason)
             else Some (world c));
        Some (kEtcPalErrOk,
              c\<lparr>world := w,
                conn_state := if conn_state c = kRCConnStateConnectPending \<or> conn_state c = kRCConnStateBackoff
                              then kRCConnStateNotStarted else kRCConnStateDisconnectPending\<rparr>)
      })"

fun do_conn_call :: "etcpal \<Rightarrow> 'w conn_env \<Rightarrow> 'w conn \<Rightarrow> conn_call \<Rightarrow> 'w conn option" where
  "do_conn_call E env c (CallConnect addr d) = Some (snd (rc_conn_connect c addr d))"
| "do_conn_call E env c (CallReconnect addr d r) = map_option snd (rc_conn_reconnect E env c addr d r)"
| "do_conn_call E env c (CallDisconnect r) = map_option snd (rc_conn_disconnect E env c r)"
| "do_conn_call E env c (CallUnregister r) = rc_conn_unregister E env c r"

fun conn_calls :: "etcpal \<Rightarrow> 'w conn_env \<Rightarrow> 'w conn \<Rightarrow> conn_call list \<Rightarrow> 'w conn option" where
  "conn_calls E env c [] = Some c"
| "conn_calls E env c (k # ks) = do { c' \<leftarrow> do_conn_call E env c k; conn_calls E env c' ks }"

section \<open>The state machine\<close>

text \<open>The addition is that of \<^verbatim>\<open>uint32_t\<close>.\<close>

definition update_backoff :: "nat \<Rightarrow> u32 \<Rightarrow> u32" where
  "update_backoff rnd previous_backoff =
     (let result = (of_nat (rnd mod 4001 + 1000) :: u32) + previous_backoff in
      if result > 30000 then 30000 else result)"

definition free_current_message :: "etcpal \<Rightarrow> 'w conn \<Rightarrow> 'w conn" where
  "free_current_message E c =
     (case rc_free_message_resources E (mb_msg (recv_buf c)) of
        (blocks, msg) \<Rightarrow> c\<lparr>recv_buf := (recv_buf c)\<lparr>mb_msg := msg\<rparr>, trace := trace c @ [Freed blocks (mb_msg (recv_buf c))]\<rparr>)"

definition cleanup_connection_resources :: "etcpal \<Rightarrow> 'w conn_env \<Rightarrow> 'w conn \<Rightarrow> 'w conn" where
  "cleanup_connection_resources E env c =
     (let c1 = (case sock c of
                  None \<Rightarrow> c
                | Some sk \<Rightarrow> c\<lparr>world := e_close env sk (e_poll_remove env sk (world c)), sock := None\<rparr>) in
      if retry_current_message c1 then free_current_message E c1 else c1)"

definition reset_connection :: "etcpal \<Rightarrow> 'w conn_env \<Rightarrow> 'w conn \<Rightarrow> 'w conn" where
  "reset_connection E env c =
     (let c1 = cleanup_connection_resources E env c in
      c1\<lparr>recv_buf := rc_msg_buf_init (recv_buf c1), retry_current_message := False,
         conn_state := kRCConnStateNotStarted\<rparr>)"

definition retry_connection :: "etcpal \<Rightarrow> 'w conn_env \<Rightarrow> 'w conn \<Rightarrow> 'w conn" where
  "retry_connection E env c =
     (let c1 = cleanup_connection_resources E env c in
      c1\<lparr>recv_buf := rc_msg_buf_init (recv_buf c1), retry_current_message := False,
         conn_state := kRCConnStateConnectPending\<rparr>)"

definition destroy_connection :: "etcpal \<Rightarrow> 'w conn_env \<Rightarrow> 'w conn \<Rightarrow> 'w conn" where
  "destroy_connection E env c =
     (let c1 = cleanup_connection_resources E env c in
      c1\<lparr>world := cb_destroyed env (world c1), trace := trace c1 @ [Destroyed]\<rparr>)"

definition start_rdmnet_connection :: "etcpal \<Rightarrow> 'w conn_env \<Rightarrow> 'w conn \<Rightarrow> 'w conn option" where
  "start_rdmnet_connection E env c = do {
     (_, w) \<leftarrow> rc_broker_send_client_connect E (e_send env (sock c)) (e_poll_modify env (sock c) (world c))
       (local_cid c) (conn_data c);
     Some (c\<lparr>conn_state := kRCConnStateRDMnetConnPending, world := w,
             hb_timer := e_timer_start env (E133_HEARTBEAT_TIMEOUT_SEC * 1000) w,
             send_timer := e_timer_start env (E133_TCP_HEARTBEAT_INTERVAL_SEC * 1000) w\<rparr>)
   }"

definition connect_failed :: "rdmnet_connect_fail_event_t \<Rightarrow> etcpal_error_t \<Rightarrow> u16 \<Rightarrow> RCConnEvent" where
  "connect_failed ev err reason =
     ConnEventConnectFailed \<lparr>cf_event = ev, cf_socket_err = err, cf_rdmnet_reason = reason\<rparr>"

definition disconnected :: "rdmnet_disconnect_event_t \<Rightarrow> etcpal_error_t \<Rightarrow> u16 \<Rightarrow> RCConnEvent" where
  "disconnected ev err reason =
     ConnEventDisconnected \<lparr>di_event = ev, di_socket_err = err, di_rdmnet_reason = reason\<rparr>"

definition start_tcp_connection ::
  "etcpal \<Rightarrow> 'w conn_env \<Rightarrow> 'w conn \<Rightarrow> RCConnEvent \<Rightarrow> (RCConnEvent \<times> 'w conn) option" where
  "start_tcp_connection E env c event =
     (let is_v6 = (case remote_addr c of Some a \<Rightarrow> (case sa_ip a of IpV6 _ \<Rightarrow> True | IpV4 _ \<Rightarrow> False) | None \<Rightarrow> False);
          (res, sk, w1) = e_socket env is_v6 (world c);
          c1 = c\<lparr>sock := sk, world := w1\<rparr> in
      if res \<noteq> kEtcPalErrOk
      then Some (connect_failed kRdmnetConnectFailSocketFailure res 0, reset_connection E env c1)
      else
        (let (res, w2) = e_setblocking env (sock c1) (world c1);
             c2 = c1\<lparr>world := w2\<rparr> in
         if res \<noteq> kEtcPalErrOk
         then Some (connect_failed kRdmnetConnectFailSocketFailure res 0, reset_connection E env c2)
         else
           (let (res, w3) = e_connect env (sock c2) (remote_addr c2) (world c2);
                c3 = c2\<lparr>rdmnet_conn_failed := False, world := w3\<rparr> in
            if res = kEtcPalErrOk then map_option (Pair event) (start_rdmnet_connection E env c3)
            else if res = kEtcPalErrInProgress \<or> res = kEtcPalErrWouldBlock then
              (let (add_res, w4) = e_poll_add env (sock c3) (world c3);
                   c4 = c3\<lparr>conn_state := kRCConnStateTCPConnPending, world := w4\<rparr> in
               if add_res \<noteq> kEtcPalErrOk
               then Some (connect_failed kRdmnetConnectFailSocketFailure add_res 0, reset_connection E env c4)
               else Some (event, c4))
            else
              Some (connect_failed
                      (if res = kEtcPalErrHostUnreach then kRdmnetConnectFailTcpLevel else kRdmnetConnectFailSocketFailure)
                      res 0,
                    reset_connection E env c3))))"

definition start_connection ::
  "etcpal \<Rightarrow> 'w conn_env \<Rightarrow> 'w conn \<Rightarrow> RCConnEvent \<Rightarrow> (RCConnEvent \<times> 'w conn) option" where
  "start_connection E env c event =
     (if rdmnet_conn_failed c \<or> timer_interval (backoff_timer c) \<noteq> 0
      then
        (let c1 = (if rdmnet_conn_failed c
                   then (case e_rand env (world c) of
                           (rnd, w) \<Rightarrow>
                             c\<lparr>world := w,
                               backoff_timer := e_timer_start env (update_backoff rnd (timer_interval (backoff_timer c))) w\<rparr>)
                   else c) in
         Some (event, c1\<lparr>conn_state := kRCConnStateBackoff\<rparr>))
      else start_tcp_connection E env c event)"

section \<open>Events and messages\<close>

definition deliver_event_callback ::
  "etcpal \<Rightarrow> 'w conn_env \<Rightarrow> 'w conn \<Rightarrow> RCConnEvent \<Rightarrow> (rc_message_action_t \<times> 'w conn) option" where
  "deliver_event_callback E env c event =
     (let c1 = c\<lparr>trace := trace c @ [Delivered event]\<rparr> in
      case event of
        ConnEventNone \<Rightarrow> Some (kRCMessageActionProcessNext, c)
      | ConnEventConnected info \<Rightarrow>
          (let (calls, w) = cb_connected env info (world c) in
           map_option (Pair kRCMessageActionProcessNext) (conn_calls E env (c1\<lparr>world := w\<rparr>) calls))
      | ConnEventConnectFailed info \<Rightarrow>
          (let (calls, w) = cb_connect_failed env info (world c) in
           map_option (Pair kRCMessageActionProcessNext) (conn_calls E env (c1\<lparr>world := w\<rparr>) calls))
      | ConnEventDisconnected info \<Rightarrow>
          (let (calls, w) = cb_disconnected env info (world c) in
           map_option (Pair kRCMessageActionProcessNext) (conn_calls E env (c1\<lparr>world := w\<rparr>) calls))
      | ConnEventMsgReceived msg \<Rightarrow>
          (let (action, calls, w) = cb_message_received env msg (world c) in
           do {
             c2 \<leftarrow> conn_calls E env (c1\<lparr>world := w\<rparr>) calls;
             Some (action, if action = kRCMessageActionProcessNext then free_current_message E c2 else c2)
           }))"

definition handle_rdmnet_message :: "etcpal \<Rightarrow> 'w conn_env \<Rightarrow> 'w conn \<Rightarrow> RCConnEvent \<times> 'w conn" where
  "handle_rdmnet_message E env c =
     (let c1 = c\<lparr>hb_timer := e_timer_reset env (hb_timer c) (world c)\<rparr>;
          msg = mb_msg (recv_buf c);
          bmsg = msg_broker msg in
      if msg_vector msg \<noteq> ACN_VECTOR_ROOT_BROKER E then (ConnEventMsgReceived msg, c1)
      else if bm_vector bmsg = VECTOR_BROKER_CONNECT_REPLY \<or> bm_vector bmsg = VECTOR_BROKER_NULL
      then (ConnEventNone, free_current_message E c1)
      else if bm_vector bmsg = VECTOR_BROKER_DISCONNECT
      then (disconnected kRdmnetDisconnectGracefulRemoteInitiated kEtcPalErrOk (disconnect_reason bmsg),
            free_current_message E (reset_connection E env c1))
      else (ConnEventMsgReceived msg, c1))"

definition handle_rdmnet_connect_result :: "etcpal \<Rightarrow> 'w conn_env \<Rightarrow> 'w conn \<Rightarrow> RCConnEvent \<times> 'w conn" where
  "handle_rdmnet_connect_result E env c =
     (let msg = mb_msg (recv_buf c);
          bmsg = (if msg_vector msg = ACN_VECTOR_ROOT_BROKER E then msg_broker msg else e_union_broker env msg);
          reply = connect_reply bmsg;
          (event, c1) =
            (if bm_vector bmsg = VECTOR_BROKER_CONNECT_REPLY then
               (if cr_connect_status reply = kRdmnetConnectOk
                then (ConnEventConnected
                        \<lparr>ci_broker_cid = sender_cid msg, ci_broker_uid = cr_broker_uid reply,
                         ci_client_uid = cr_client_uid reply, ci_connected_addr = remote_addr c\<rparr>,
                      c\<lparr>conn_state := kRCConnStateHeartbeat, sent_connected_notification := True,
                        backoff_timer := e_timer_start env 0 (world c)\<rparr>)
                else (connect_failed kRdmnetConnectFailRejected kEtcPalErrOk (cr_connect_status reply),
                      (reset_connection E env c)\<lparr>rdmnet_conn_failed := True\<rparr>))
             else if bm_vector bmsg = VECTOR_BROKER_REDIRECT_V4 \<or> bm_vector bmsg = VECTOR_BROKER_REDIRECT_V6 then
               (ConnEventNone,
                retry_connection E env
                  (c\<lparr>remote_addr := Some \<lparr>sa_ip = redirect_ip (client_redirect bmsg),
                                         sa_port = redirect_port (client_redirect bmsg)\<rparr>\<rparr>))
             else (ConnEventNone, c)) in
      (event, free_current_message E c1))"

definition handle_message :: "etcpal \<Rightarrow> 'w conn_env \<Rightarrow> 'w conn \<Rightarrow> RCConnEvent \<times> 'w conn" where
  "handle_message E env c =
     (if conn_state c = kRCConnStateRDMnetConnPending then handle_rdmnet_connect_result E env c
      else handle_rdmnet_message E env c)"

definition process_message :: "etcpal \<Rightarrow> 'w conn_env \<Rightarrow> 'w conn \<Rightarrow> (rc_message_action_t \<times> 'w conn) option" where
  "process_message E env c =
     (let (event, c1) =
        (if conn_state c = kRCConnStateHeartbeat \<or> conn_state c = kRCConnStateRDMnetConnPending
         then handle_message E env c else (ConnEventNone, c)) in
      deliver_event_callback E env c1 event)"

definition handle_tcp_connection_established :: "etcpal \<Rightarrow> 'w conn_env \<Rightarrow> 'w conn \<Rightarrow> 'w conn option" where
  "handle_tcp_connection_established E env c = start_rdmnet_connection E env c"

definition handle_socket_error :: "etcpal \<Rightarrow> 'w conn_env \<Rightarrow> 'w conn \<Rightarrow> etcpal_error_t \<Rightarrow> 'w conn option" where
  "handle_socket_error E env c socket_err =
     (let (event, c1) =
        (if conn_state c = kRCConnStateTCPConnPending \<or> conn_state c = kRCConnStateRDMnetConnPending
         then (connect_failed kRdmnetConnectFailTcpLevel socket_err 0,
               reset_connection E env
                 (if conn_state c = kRCConnStateRDMnetConnPending then c\<lparr>rdmnet_conn_failed := True\<rparr> else c))
         else if conn_state c = kRCConnStateHeartbeat
         then (disconnected kRdmnetDisconnectAbruptClose socket_err 0, reset_connection E env c)
         else (ConnEventNone, c)) in
      map_option snd (deliver_event_callback E env c1 event))"

text \<open>
  The loops of \<^verbatim>\<open>receive_and_process_messages\<close>. The action is \<^const>\<open>kRCMessageActionProcessNext\<close> whenever a
  loop is entered.
\<close>

partial_function (option) process_loop ::
  "etcpal \<Rightarrow> 'w conn_env \<Rightarrow> bool \<Rightarrow> 'w conn \<Rightarrow> (rc_message_action_t \<times> 'w conn) option" where
  "process_loop E env retry c =
     (case (if retry then Some (kEtcPalErrOk, recv_buf c) else rc_msg_buf_parse_data E (e_alloc env) (recv_buf c)) of
        None \<Rightarrow> None
      | Some (parse_res, mb) \<Rightarrow>
          if parse_res \<noteq> kEtcPalErrOk then Some (kRCMessageActionProcessNext, c\<lparr>recv_buf := mb\<rparr>)
          else
            (case process_message E env (c\<lparr>recv_buf := mb\<rparr>) of
               None \<Rightarrow> None
             | Some (action, c1) \<Rightarrow>
                 if action = kRCMessageActionProcessNext then process_loop E env False c1
                 else Some (action, c1)))"

partial_function (option) receive_loop ::
  "etcpal \<Rightarrow> 'w conn_env \<Rightarrow> bool \<Rightarrow> 'w conn \<Rightarrow> (rc_message_action_t \<times> 'w conn) option" where
  "receive_loop E env retry c =
     (case rc_msg_buf_recv (e_recv env (sock c)) (world c) (recv_buf c) of
        None \<Rightarrow> None
      | Some (recv_res, mb, w) \<Rightarrow>
          (case (if recv_res = kEtcPalErrOk \<or> retry
                 then process_loop E env retry (c\<lparr>recv_buf := mb, world := w\<rparr>)
                 else map_option (Pair kRCMessageActionProcessNext)
                   (if recv_res \<noteq> kEtcPalErrWouldBlock
                    then handle_socket_error E env (c\<lparr>recv_buf := mb, world := w\<rparr>) recv_res
                    else Some (c\<lparr>recv_buf := mb, world := w\<rparr>))) of
             None \<Rightarrow> None
           | Some (action, c1) \<Rightarrow>
               if recv_res = kEtcPalErrOk \<and> action = kRCMessageActionProcessNext
               then receive_loop E env False c1
               else Some (action, c1)))"

definition receive_and_process_messages :: "etcpal \<Rightarrow> 'w conn_env \<Rightarrow> 'w conn \<Rightarrow> 'w conn option" where
  "receive_and_process_messages E env c = do {
     (action, c1) \<leftarrow> receive_loop E env (retry_current_message c) c;
     Some (c1\<lparr>retry_current_message := (action = kRCMessageActionRetryLater)\<rparr>)
   }"

datatype poll_event = PollErr etcpal_error_t | PollIn | PollConnect | PollOther

fun socket_activity_callback :: "etcpal \<Rightarrow> 'w conn_env \<Rightarrow> 'w conn \<Rightarrow> poll_event \<Rightarrow> 'w conn option" where
  "socket_activity_callback E env c (PollErr err) = handle_socket_error E env c err"
| "socket_activity_callback E env c PollIn = receive_and_process_messages E env c"
| "socket_activity_callback E env c PollConnect = handle_tcp_connection_established E env c"
| "socket_activity_callback E env c PollOther = Some c"

section \<open>The periodic tick\<close>

definition report_local_disconnect :: "'w conn \<Rightarrow> RCConnEvent \<times> 'w conn" where
  "report_local_disconnect c =
     (if sent_connected_notification c
      then (disconnected kRdmnetDisconnectGracefulLocalInitiated kEtcPalErrOk 0, c\<lparr>sent_connected_notification := False\<rparr>)
      else (ConnEventNone, c))"

definition tick_state :: "etcpal \<Rightarrow> 'w conn_env \<Rightarrow> 'w conn \<Rightarrow> (RCConnEvent \<times> 'w conn) option" where
  "tick_state E env c =
     (case conn_state c of
        kRCConnStateConnectPending \<Rightarrow> start_connection E env c ConnEventNone
      | kRCConnStateBackoff \<Rightarrow>
          if e_timer_is_expired env (backoff_timer c) (world c) then start_tcp_connection E env c ConnEventNone
          else Some (ConnEventNone, c)
      | kRCConnStateRDMnetConnPending \<Rightarrow>
          if e_timer_is_expired env (hb_timer c) (world c)
          then Some (connect_failed kRdmnetConnectFailNoReply kEtcPalErrOk 0, reset_connection E env c)
          else Some (ConnEventNone, c)
      | kRCConnStateHeartbeat \<Rightarrow>
          if e_timer_is_expired env (hb_timer c) (world c)
          then Some (disconnected kRdmnetDisconnectNoHeartbeat kEtcPalErrOk 0, reset_connection E env c)
          else if e_timer_is_expired env (send_timer c) (world c)
          then do {
            (_, w) \<leftarrow> rc_broker_send_null E (e_send env (sock c)) (world c) (local_cid c);
            Some (ConnEventNone, c\<lparr>world := w, send_timer := e_timer_reset env (send_timer c) w\<rparr>)
          }
          else Some (ConnEventNone, c)
      | kRCConnStateReconnectPending \<Rightarrow>
          (let c1 = cleanup_connection_resources E env c;
               c2 = c1\<lparr>recv_buf := rc_msg_buf_init (recv_buf c1), retry_current_message := False\<rparr>;
               (event, c3) = report_local_disconnect c2 in
           start_connection E env c3 event)
      | kRCConnStateDisconnectPending \<Rightarrow>
          (let (event, c1) = report_local_disconnect c in Some (event, reset_connection E env c1))
      | _ \<Rightarrow> Some (ConnEventNone, c))"

definition process_connection_state :: "etcpal \<Rightarrow> 'w conn_env \<Rightarrow> 'w conn \<Rightarrow> 'w conn option" where
  "process_connection_state E env c = do {
     c1 \<leftarrow> receive_and_process_messages E env c;
     (event, c2) \<leftarrow> tick_state E env c1;
     map_option snd (deliver_event_callback E env c2 event)
   }"

text \<open>The fields that \<^verbatim>\<open>rc_conn_register\<close> initialises.\<close>

definition register_fields :: "'w conn_env \<Rightarrow> 'w conn \<Rightarrow> 'w conn" where
  "register_fields env c =
     c\<lparr>sock := None, remote_addr := None, conn_state := kRCConnStateNotStarted,
       backoff_timer := e_timer_start env 0 (world c), rdmnet_conn_failed := False,
       sent_connected_notification := False, recv_buf := rc_msg_buf_init (recv_buf c),
       retry_current_message := False\<rparr>"

section \<open>The module\<close>

text \<open>
  The connections of the module: the lists of \<^verbatim>\<open>connections\<close>, which hold the indices of the
  registered connections, the connections themselves, and the world they share. A connection that
  marks itself for removal while it is processed, through a callback, shows it in its trace.
\<close>

record 'w conn_module =
  connections :: "nat RCRefLists"
  conn_of :: "nat \<Rightarrow> 'w conn"
  shared_world :: 'w

definition with_conn :: "nat \<Rightarrow> 'w conn_module \<Rightarrow> 'w conn \<Rightarrow> 'w conn_module" where
  "with_conn i m c = m\<lparr>conn_of := (conn_of m)(i := c), shared_world := world c\<rparr>"

definition get_conn :: "nat \<Rightarrow> 'w conn_module \<Rightarrow> 'w conn" where
  "get_conn i m = (conn_of m i)\<lparr>world := shared_world m\<rparr>"

definition rc_conn_module_init :: "(nat \<Rightarrow> bool) \<Rightarrow> 'w conn_module \<Rightarrow> etcpal_error_t \<times> 'w conn_module" where
  "rc_conn_module_init grow m =
     (case rc_ref_lists_init grow of
        None \<Rightarrow> (kEtcPalErrNoMem, m)
      | Some ls \<Rightarrow> (kEtcPalErrOk, m\<lparr>connections := ls\<rparr>))"

definition destroy_one :: "etcpal \<Rightarrow> 'w conn_env \<Rightarrow> nat \<Rightarrow> 'w conn_module \<Rightarrow> 'w conn_module" where
  "destroy_one E env i m = with_conn i m (destroy_connection E env (get_conn i m))"

definition rc_conn_module_deinit :: "etcpal \<Rightarrow> 'w conn_env \<Rightarrow> 'w conn_module \<Rightarrow> 'w conn_module" where
  "rc_conn_module_deinit E env m =
     (case rc_ref_lists_remove_all (connections m) (destroy_one E env) m of
        (ls, m') \<Rightarrow> m'\<lparr>connections := rc_ref_lists_cleanup ls\<rparr>)"

definition rc_conn_register ::
  "(nat \<Rightarrow> bool) \<Rightarrow> bool \<Rightarrow> 'w conn_env \<Rightarrow> 'w conn_module \<Rightarrow> nat \<Rightarrow> (etcpal_error_t \<times> 'w conn_module) option" where
  "rc_conn_register grow initialized env m i =
     (if \<not> initialized then Some (kEtcPalErrNotInit, m)
      else do {
        (ok, l) \<leftarrow> rc_ref_list_add_ref grow (pending (connections m)) i;
        let m' = m\<lparr>connections := (connections m)\<lparr>pending := l\<rparr>\<rparr>;
        Some (if \<not> ok then (kEtcPalErrNoMem, m')
              else (kEtcPalErrOk, with_conn i m' (register_fields env (get_conn i m'))))
      })"

definition add_marks :: "(nat \<Rightarrow> bool) \<Rightarrow> nat \<Rightarrow> 'w conn \<Rightarrow> 'w conn \<Rightarrow> 'w conn_module \<Rightarrow> 'w conn_module option" where
  "add_marks grow i c c' m = do {
     l \<leftarrow> add_refs grow (to_remove (connections m))
           (replicate (length (filter ((=) MarkedForRemoval) (drop (length (trace c)) (trace c')))) i);
     Some ((with_conn i m c')\<lparr>connections := (connections m)\<lparr>to_remove := l\<rparr>\<rparr>)
   }"

definition unregister_one ::
  "(nat \<Rightarrow> bool) \<Rightarrow> etcpal \<Rightarrow> 'w conn_env \<Rightarrow> 'w conn_module \<Rightarrow> nat \<Rightarrow> u16 option \<Rightarrow> 'w conn_module option" where
  "unregister_one grow E env m i reason = do {
     c' \<leftarrow> rc_conn_unregister E env (get_conn i m) reason;
     add_marks grow i (get_conn i m) c' m
   }"

fun process_each ::
  "(nat \<Rightarrow> bool) \<Rightarrow> etcpal \<Rightarrow> 'w conn_env \<Rightarrow> nat list \<Rightarrow> 'w conn_module \<Rightarrow> 'w conn_module option" where
  "process_each grow E env [] m = Some m"
| "process_each grow E env (i # is) m = do {
     c' \<leftarrow> process_connection_state E env (get_conn i m);
     m' \<leftarrow> add_marks grow i (get_conn i m) c' m;
     process_each grow E env is m'
   }"

definition rc_conn_module_tick ::
  "(nat \<Rightarrow> bool) \<Rightarrow> etcpal \<Rightarrow> 'w conn_env \<Rightarrow> 'w conn_module \<Rightarrow> 'w conn_module option" where
  "rc_conn_module_tick grow E env m = do {
     let (ls, m1) = rc_ref_lists_remove_marked (connections m) (destroy_one E env) m;
     ls' \<leftarrow> rc_ref_lists_add_pending grow ls;
     process_each grow E env (refs (active ls')) (m1\<lparr>connections := ls'\<rparr>)
   }"

end
