(* ===== verification/Connection_Properties.thy ===== *)
theory Connection_Properties
  imports Connection Roundtrip
begin

text \<open>
  Properties of the connection state machine: when a connection has a socket, the bounds and the
  growth of the backoff, the order of the events its owner sees, the handshake with a broker, and
  the cases in which the code does not do what it means to.
\<close>

section \<open>What the environment promises\<close>

definition conn_env_ok :: "'w conn_env \<Rightarrow> bool" where
  "conn_env_ok env \<longleftrightarrow>
     (\<forall>i w. timer_interval (e_timer_start env i w) = i) \<and>
     (\<forall>v w sk w'. e_socket env v w = (kEtcPalErrOk, sk, w') \<longrightarrow> sk \<noteq> None)"

lemma conn_env_okD:
  assumes "conn_env_ok env"
  shows "timer_interval (e_timer_start env i w) = i"
    "e_socket env v w = (kEtcPalErrOk, sk, w') \<Longrightarrow> sk \<noteq> None"
  using assms unfolding conn_env_ok_def by blast+

section \<open>The reports to the owner\<close>

text \<open>
  An observer of the delivered events that remembers whether the last report was a successful
  connection. It rejects a disconnection that is not reported as the owner's own wish unless the
  report before it was a connection.
\<close>

fun observe :: "bool option \<Rightarrow> conn_effect \<Rightarrow> bool option" where
  "observe (Some up) (Delivered (ConnEventConnected i)) = Some True"
| "observe (Some up) (Delivered (ConnEventConnectFailed i)) = Some False"
| "observe (Some up) (Delivered (ConnEventDisconnected i)) =
     (if di_event i = kRdmnetDisconnectGracefulLocalInitiated \<or> up then Some False else None)"
| "observe s e = s"

definition reported :: "conn_effect list \<Rightarrow> bool option" where
  "reported tr = foldl observe (Some False) tr"

lemma reported_simps [simp]:
  "reported [] = Some False" "reported (tr @ [e]) = observe (reported tr) e"
  by (simp_all add: reported_def)

lemma observe_other [simp]:
  "observe s (Delivered ConnEventNone) = s" "observe s (Delivered (ConnEventMsgReceived m)) = s"
  "observe s (Freed b m) = s" "observe s MarkedForRemoval = s" "observe s Destroyed = s"
  by (cases s; simp)+

lemma observe_failed [simp]:
  "observe s (Delivered (connect_failed ev err r)) = (case s of None \<Rightarrow> None | Some _ \<Rightarrow> Some False)"
  by (cases s) (simp_all add: connect_failed_def)

lemma observe_disconnected [simp]:
  "observe s (Delivered (disconnected ev err r)) =
     (case s of None \<Rightarrow> None
      | Some up \<Rightarrow> if ev = kRdmnetDisconnectGracefulLocalInitiated \<or> up then Some False else None)"
  by (cases s) (simp_all add: disconnected_def)

section \<open>The invariant\<close>

text \<open>
  A connection has no socket before it is started, while a connection attempt is pending or in
  backoff, and it has one from the TCP connection on. The backoff is at most 30 seconds. A
  healthy connection has been reported as connected and has no backoff.
\<close>

definition conn_ok :: "'w conn \<Rightarrow> bool" where
  "conn_ok c \<longleftrightarrow>
     (conn_state c \<in> {kRCConnStateNotStarted, kRCConnStateConnectPending, kRCConnStateBackoff} \<longrightarrow> sock c = None) \<and>
     (conn_state c \<in> {kRCConnStateTCPConnPending, kRCConnStateRDMnetConnPending, kRCConnStateHeartbeat} \<longrightarrow>
        sock c \<noteq> None) \<and>
     timer_interval (backoff_timer c) \<le> 30000 \<and>
     reported (trace c) \<noteq> None \<and>
     (conn_state c = kRCConnStateHeartbeat \<longrightarrow>
        sent_connected_notification c \<and> timer_interval (backoff_timer c) = 0 \<and> reported (trace c) = Some True)"

text \<open>An event about to be delivered fits the state of the connection.\<close>

definition event_ok :: "RCConnEvent \<Rightarrow> 'w conn \<Rightarrow> bool" where
  "event_ok ev c \<longleftrightarrow> conn_ok (c\<lparr>trace := trace c @ [Delivered ev]\<rparr>)"

lemma conn_ok_irrelevant [simp]:
  "conn_ok (c\<lparr>recv_buf := mb\<rparr>) = conn_ok c" "conn_ok (c\<lparr>world := w\<rparr>) = conn_ok c"
  "conn_ok (c\<lparr>retry_current_message := b\<rparr>) = conn_ok c" "conn_ok (c\<lparr>hb_timer := t\<rparr>) = conn_ok c"
  "conn_ok (c\<lparr>send_timer := t\<rparr>) = conn_ok c" "conn_ok (c\<lparr>remote_addr := a\<rparr>) = conn_ok c"
  "conn_ok (c\<lparr>conn_data := d\<rparr>) = conn_ok c" "conn_ok (c\<lparr>rdmnet_conn_failed := f\<rparr>) = conn_ok c"
  by (simp_all add: conn_ok_def)

lemma event_ok_none [simp]: "event_ok ConnEventNone c = conn_ok c"
  by (simp add: event_ok_def conn_ok_def)

section \<open>Calls keep the invariant\<close>

lemma rc_conn_connect_ok: "conn_ok c \<Longrightarrow> conn_ok (snd (rc_conn_connect c addr d))"
  by (auto simp: rc_conn_connect_def conn_ok_def)

lemma rc_conn_reconnect_ok:
  "conn_ok c \<Longrightarrow> rc_conn_reconnect E env c addr d r = Some (res, c') \<Longrightarrow> conn_ok c'"
  by (cases "conn_state c") (auto simp: rc_conn_reconnect_def conn_ok_def split: bind_split_asm if_split_asm)

lemma rc_conn_disconnect_ok:
  "conn_ok c \<Longrightarrow> rc_conn_disconnect E env c r = Some (res, c') \<Longrightarrow> conn_ok c'"
  by (cases "conn_state c") (auto simp: rc_conn_disconnect_def conn_ok_def split: bind_split_asm if_split_asm)

lemma rc_conn_unregister_ok:
  "conn_ok c \<Longrightarrow> rc_conn_unregister E env c r = Some c' \<Longrightarrow> conn_ok c'"
  by (cases "conn_state c") (auto simp: rc_conn_unregister_def conn_ok_def split: bind_split_asm if_split_asm)

lemma do_conn_call_ok: "conn_ok c \<Longrightarrow> do_conn_call E env c k = Some c' \<Longrightarrow> conn_ok c'"
  by (cases k)
    (auto simp: rc_conn_connect_ok intro: rc_conn_reconnect_ok rc_conn_disconnect_ok rc_conn_unregister_ok)

lemma conn_calls_ok: "conn_ok c \<Longrightarrow> conn_calls E env c ks = Some c' \<Longrightarrow> conn_ok c'"
  by (induction ks arbitrary: c) (auto split: bind_splits intro: do_conn_call_ok)

section \<open>The state machine keeps the invariant\<close>

lemma free_current_message_fields [simp]:
  "conn_state (free_current_message E c) = conn_state c" "sock (free_current_message E c) = sock c"
  "backoff_timer (free_current_message E c) = backoff_timer c"
  "sent_connected_notification (free_current_message E c) = sent_connected_notification c"
  "rdmnet_conn_failed (free_current_message E c) = rdmnet_conn_failed c"
  "retry_current_message (free_current_message E c) = retry_current_message c"
  "remote_addr (free_current_message E c) = remote_addr c" "local_cid (free_current_message E c) = local_cid c"
  "conn_data (free_current_message E c) = conn_data c" "hb_timer (free_current_message E c) = hb_timer c"
  "send_timer (free_current_message E c) = send_timer c" "world (free_current_message E c) = world c"
  "mb_buf (recv_buf (free_current_message E c)) = mb_buf (recv_buf c)"
  "reported (trace (free_current_message E c)) = reported (trace c)"
  by (simp_all add: free_current_message_def split: prod.split)

lemma cleanup_fields [simp]:
  "conn_state (cleanup_connection_resources E env c) = conn_state c"
  "sock (cleanup_connection_resources E env c) = None"
  "backoff_timer (cleanup_connection_resources E env c) = backoff_timer c"
  "sent_connected_notification (cleanup_connection_resources E env c) = sent_connected_notification c"
  "rdmnet_conn_failed (cleanup_connection_resources E env c) = rdmnet_conn_failed c"
  "remote_addr (cleanup_connection_resources E env c) = remote_addr c"
  "conn_data (cleanup_connection_resources E env c) = conn_data c"
  "local_cid (cleanup_connection_resources E env c) = local_cid c"
  "reported (trace (cleanup_connection_resources E env c)) = reported (trace c)"
  by (auto simp: cleanup_connection_resources_def Let_def split: option.splits)

lemma reset_fields [simp]:
  "conn_state (reset_connection E env c) = kRCConnStateNotStarted"
  "sock (reset_connection E env c) = None"
  "backoff_timer (reset_connection E env c) = backoff_timer c"
  "sent_connected_notification (reset_connection E env c) = sent_connected_notification c"
  "rdmnet_conn_failed (reset_connection E env c) = rdmnet_conn_failed c"
  "retry_current_message (reset_connection E env c) = False"
  "remote_addr (reset_connection E env c) = remote_addr c"
  "reported (trace (reset_connection E env c)) = reported (trace c)"
  "mb_buf (recv_buf (reset_connection E env c)) = []"
  by (simp_all add: reset_connection_def Let_def rc_msg_buf_init_def)

lemma retry_fields [simp]:
  "conn_state (retry_connection E env c) = kRCConnStateConnectPending"
  "sock (retry_connection E env c) = None"
  "backoff_timer (retry_connection E env c) = backoff_timer c"
  "sent_connected_notification (retry_connection E env c) = sent_connected_notification c"
  "reported (trace (retry_connection E env c)) = reported (trace c)"
  by (simp_all add: retry_connection_def Let_def)

lemma free_current_message_ok [simp]: "conn_ok (free_current_message E c) = conn_ok c"
  by (simp add: conn_ok_def)

lemma deliver_event_ok:
  assumes "event_ok ev c" and "deliver_event_callback E env c ev = Some (action, c')"
  shows "conn_ok c'"
proof (cases "ev = ConnEventNone")
  case False
  have calls: "conn_ok c1"
    if "conn_calls E env (c\<lparr>trace := trace c @ [Delivered ev'], world := w\<rparr>) ks = Some c1" and "ev = ev'" for ev' w ks c1
    using assms(1) conn_calls_ok [OF _ that(1)] that(2) by (simp add: event_ok_def)
  show ?thesis using assms(2) False
    by (cases ev)
      (auto simp: deliver_event_callback_def Let_def split: prod.splits bind_splits if_splits intro: calls)
qed (use assms in \<open>simp add: deliver_event_callback_def Let_def\<close>)

lemma handle_rdmnet_message_ok:
  assumes "conn_ok c" and "conn_state c = kRCConnStateHeartbeat" and "handle_rdmnet_message E env c = (ev, c')"
  shows "event_ok ev c'"
  using assms
  by (auto simp: handle_rdmnet_message_def Let_def event_ok_def conn_ok_def split: if_splits)

lemma handle_rdmnet_connect_result_ok:
  assumes "conn_env_ok env" and "conn_ok c" and "conn_state c = kRCConnStateRDMnetConnPending"
    and "handle_rdmnet_connect_result E env c = (ev, c')"
  shows "event_ok ev c'"
  using assms
  by (auto simp: handle_rdmnet_connect_result_def Let_def event_ok_def conn_ok_def conn_env_okD
      split: if_splits prod.splits)

lemma process_message_ok:
  assumes "conn_env_ok env" and "conn_ok c" and "process_message E env c = Some (action, c')"
  shows "conn_ok c'"
proof -
  obtain ev c1 where *: "(if conn_state c = kRCConnStateHeartbeat \<or> conn_state c = kRCConnStateRDMnetConnPending
      then handle_message E env c else (ConnEventNone, c)) = (ev, c1)" by fastforce
  then have "event_ok ev c1"
    using assms(1,2) handle_rdmnet_message_ok handle_rdmnet_connect_result_ok
    by (auto simp: handle_message_def split: if_splits)
  with assms(3) * show ?thesis by (auto simp: process_message_def intro: deliver_event_ok)
qed

lemma handle_socket_error_ok:
  assumes "conn_ok c" and "handle_socket_error E env c err = Some c'"
  shows "conn_ok c'"
proof -
  obtain ev c1 where *: "(if conn_state c = kRCConnStateTCPConnPending \<or> conn_state c = kRCConnStateRDMnetConnPending
      then (connect_failed kRdmnetConnectFailTcpLevel err 0, reset_connection E env
        (if conn_state c = kRCConnStateRDMnetConnPending then c\<lparr>rdmnet_conn_failed := True\<rparr> else c))
      else if conn_state c = kRCConnStateHeartbeat
      then (disconnected kRdmnetDisconnectAbruptClose err 0, reset_connection E env c)
      else (ConnEventNone, c)) = (ev, c1)" by fastforce
  then have "event_ok ev c1"
    using assms(1) by (auto simp: event_ok_def conn_ok_def split: if_splits)
  with assms(2) show ?thesis unfolding handle_socket_error_def * by (auto intro: deliver_event_ok)
qed

lemma process_loop_ok:
  assumes "conn_env_ok env" and "conn_ok c" and "process_loop E env retry c = Some (action, c')"
  shows "conn_ok c'"
proof -
  have "conn_env_ok env \<longrightarrow> conn_ok c \<longrightarrow> conn_ok (snd y)" if "process_loop E env retry c = Some y" for y
  proof (rule process_loop.raw_induct [OF _ that,
        where P = "\<lambda>E env retry c y. conn_env_ok env \<longrightarrow> conn_ok c \<longrightarrow> conn_ok (snd y)"], intro impI)
    fix loop :: "etcpal \<Rightarrow> 'b conn_env \<Rightarrow> bool \<Rightarrow> 'b conn \<Rightarrow> (rc_message_action_t \<times> 'b conn) option"
    fix E env retry c y
    assume IH: "\<And>E env retry c y. loop E env retry c = Some y \<Longrightarrow> conn_env_ok env \<longrightarrow> conn_ok c \<longrightarrow> conn_ok (snd y)"
      and env: "conn_env_ok env" and c: "conn_ok c"
      and body: "(case (if retry then Some (kEtcPalErrOk, recv_buf c) else rc_msg_buf_parse_data E (e_alloc env) (recv_buf c)) of
        None \<Rightarrow> None
      | Some (parse_res, mb) \<Rightarrow>
          if parse_res \<noteq> kEtcPalErrOk then Some (kRCMessageActionProcessNext, c\<lparr>recv_buf := mb\<rparr>)
          else
            (case process_message E env (c\<lparr>recv_buf := mb\<rparr>) of
               None \<Rightarrow> None
             | Some (action, c1) \<Rightarrow>
                 if action = kRCMessageActionProcessNext then loop E env False c1
                 else Some (action, c1))) = Some y"
    have "conn_ok c1" if "process_message E env (c\<lparr>recv_buf := mb\<rparr>) = Some (action, c1)" for mb action c1
      using process_message_ok [OF env _ that] c by simp
    moreover from this [of "recv_buf c"] have "conn_ok c1" if "process_message E env c = Some (action, c1)" for action c1
      using that by simp
    ultimately show "conn_ok (snd y)" using body env c IH
      by (auto split: option.splits prod.splits if_split_asm)
  qed
  from this [OF assms(3)] assms(1,2) show ?thesis by simp
qed

lemma receive_loop_ok:
  assumes "conn_env_ok env" and "conn_ok c" and "receive_loop E env retry c = Some (action, c')"
  shows "conn_ok c'"
proof -
  have "conn_env_ok env \<longrightarrow> conn_ok c \<longrightarrow> conn_ok (snd y)" if "receive_loop E env retry c = Some y" for y
  proof (rule receive_loop.raw_induct [OF _ that,
        where P = "\<lambda>E env retry c y. conn_env_ok env \<longrightarrow> conn_ok c \<longrightarrow> conn_ok (snd y)"], intro impI)
    fix loop :: "etcpal \<Rightarrow> 'b conn_env \<Rightarrow> bool \<Rightarrow> 'b conn \<Rightarrow> (rc_message_action_t \<times> 'b conn) option"
    fix E env retry c y
    assume IH: "\<And>E env retry c y. loop E env retry c = Some y \<Longrightarrow> conn_env_ok env \<longrightarrow> conn_ok c \<longrightarrow> conn_ok (snd y)"
      and env: "conn_env_ok env" and c: "conn_ok c"
      and body: "(case rc_msg_buf_recv (e_recv env (sock c)) (world c) (recv_buf c) of
        None \<Rightarrow> None
      | Some (recv_res, mb, w) \<Rightarrow>
          (case (if recv_res = kEtcPalErrOk \<or> retry
                 then process_loop E env retry (c\<lparr>recv_buf := mb, world := w\<rparr>)
                 else map_option (Pair kRCMessageActionProcessNext)
                   (if recv_res \<noteq> kEtcPalErrWouldBlock
                    then handle_socket_error E env (c\<lparr>recv_buf := mb, world := w\<rparr>) recv_res
                    else Some (c\<lparr>recv_buf := mb, world := w\<rparr>))) of
             None \<Rightarrow> None
           | Some (action, c1) \<Rightarrow>
               if recv_res = kEtcPalErrOk \<and> action = kRCMessageActionProcessNext
               then loop E env False c1
               else Some (action, c1))) = Some y"
    have "conn_ok c1" if "process_loop E env retry (c\<lparr>recv_buf := mb, world := w\<rparr>) = Some (action, c1)" for mb w retry action c1
      using process_loop_ok [OF env _ that] c by simp
    moreover have "conn_ok c1" if "handle_socket_error E env (c\<lparr>recv_buf := mb, world := w\<rparr>) err = Some c1" for mb w err c1
      using handle_socket_error_ok [OF _ that] c by simp
    ultimately show "conn_ok (snd y)" using body env c IH
      by (auto split: option.splits prod.splits if_split_asm)
  qed
  from this [OF assms(3)] assms(1,2) show ?thesis by simp
qed

lemma receive_and_process_ok:
  assumes "conn_env_ok env" and "conn_ok c" and "receive_and_process_messages E env c = Some c'"
  shows "conn_ok c'"
  using assms(3) by (auto simp: receive_and_process_messages_def split: bind_splits dest: receive_loop_ok [OF assms(1,2)])

lemma start_rdmnet_connection_ok:
  assumes "conn_ok c" and "sock c \<noteq> None" and "start_rdmnet_connection E env c = Some c'"
  shows "conn_ok c'"
  using assms by (auto simp: start_rdmnet_connection_def conn_ok_def split: bind_splits)

lemma socket_activity_ok:
  assumes "conn_env_ok env" and "conn_ok c" and "sock c \<noteq> None"
    and "socket_activity_callback E env c ev = Some c'"
  shows "conn_ok c'"
  using assms(2,4) start_rdmnet_connection_ok [OF assms(2,3)] handle_socket_error_ok [OF assms(2)]
    receive_and_process_ok [OF assms(1,2)]
  by (cases ev) (simp_all add: handle_tcp_connection_established_def)

lemma event_ok_reset_failed:
  assumes "reported (trace c) \<noteq> None" and "timer_interval (backoff_timer c) \<le> 30000"
  shows "event_ok (connect_failed ev err r) (reset_connection E env c)"
  using assms by (auto simp: event_ok_def conn_ok_def)

text \<open>An event with which an attempt to connect may start.\<close>

definition start_event :: "RCConnEvent \<Rightarrow> bool" where
  "start_event ev \<longleftrightarrow> ev = ConnEventNone \<or> ev = disconnected kRdmnetDisconnectGracefulLocalInitiated kEtcPalErrOk 0"

lemma start_tcp_connection_ok:
  assumes "conn_env_ok env" and "conn_ok c" and "start_event ev"
    and "start_tcp_connection E env c ev = Some (ev', c')"
  shows "event_ok ev' c'"
proof -
  have r: "reported (trace c) \<noteq> None" "timer_interval (backoff_timer c) \<le> 30000"
    using assms(2) by (simp_all add: conn_ok_def)
  have failed: "event_ok (connect_failed e err 0) (reset_connection E env c1)"
    if "trace c1 = trace c" "backoff_timer c1 = backoff_timer c" for e err c1
    using event_ok_reset_failed [of c1] r that by simp
  obtain res sk w1 where so: "e_socket env (case remote_addr c of Some a \<Rightarrow>
      (case sa_ip a of IpV6 _ \<Rightarrow> True | IpV4 _ \<Rightarrow> False) | None \<Rightarrow> False) (world c) = (res, sk, w1)" by (metis prod_cases3)
  show ?thesis
  proof (cases "res = kEtcPalErrOk")
    case True
    then have sk: "sk \<noteq> None" using conn_env_okD(2) [OF assms(1)] so by metis
    have waiting: "event_ok ev1 c4"
      if "ev = ev1" "trace c4 = trace c" "backoff_timer c4 = backoff_timer c" "sock c4 \<noteq> None"
        "conn_state c4 \<in> {kRCConnStateTCPConnPending, kRCConnStateRDMnetConnPending}" for ev1 c4
      using assms(3) r that by (auto simp: start_event_def event_ok_def conn_ok_def)
    have fast: "event_ok ev1 c4"
      if "start_rdmnet_connection E env (c\<lparr>sock := Some y, rdmnet_conn_failed := f, world := w\<rparr>) = Some c4" "ev = ev1"
      for y w f ev1 c4
      by (rule waiting) (use that in \<open>auto simp: start_rdmnet_connection_def split: bind_split_asm\<close>)
    show ?thesis using assms(4) so True sk
      by (auto simp: start_tcp_connection_def Let_def split: prod.splits if_split_asm
          intro!: failed intro: fast waiting)
  qed (use assms(4) so in \<open>auto simp: start_tcp_connection_def intro: failed\<close>)
qed

lemma update_backoff_le: "update_backoff rnd prev \<le> 30000"
  by (simp add: update_backoff_def Let_def not_less)

lemma start_connection_ok:
  assumes "conn_env_ok env" and "conn_ok c" and "sock c = None" and "start_event ev"
    and "start_connection E env c ev = Some (ev', c')"
  shows "event_ok ev' c'"
proof (cases "rdmnet_conn_failed c \<or> timer_interval (backoff_timer c) \<noteq> 0")
  case True
  obtain rnd w where "e_rand env (world c) = (rnd, w)" by fastforce
  with True assms show ?thesis
    by (auto simp: start_connection_def start_event_def event_ok_def conn_ok_def conn_env_okD update_backoff_le
        split: if_split_asm)
qed (use assms in \<open>auto simp: start_connection_def intro: start_tcp_connection_ok\<close>)

lemma report_local_disconnect_event: "report_local_disconnect c = (ev, c') \<Longrightarrow> start_event ev"
  by (auto simp: report_local_disconnect_def start_event_def split: if_splits)

lemma tick_state_ok:
  assumes "conn_env_ok env" and "conn_ok c" and "tick_state E env c = Some (ev, c')"
  shows "event_ok ev c'"
proof (cases "conn_state c = kRCConnStateReconnectPending")
  case True
  define c1 where "c1 = cleanup_connection_resources E env c"
  define c2 where "c2 = c1\<lparr>recv_buf := rc_msg_buf_init (recv_buf c1), retry_current_message := False\<rparr>"
  obtain ev3 c3 where r: "report_local_disconnect c2 = (ev3, c3)" by fastforce
  have "conn_ok c3" "sock c3 = None"
    using r assms(2) True by (auto simp: report_local_disconnect_def c1_def c2_def conn_ok_def split: if_splits)
  moreover have "start_connection E env c3 ev3 = Some (ev, c')"
    using assms(3) True r by (simp add: tick_state_def c1_def c2_def)
  ultimately show ?thesis
    using start_connection_ok assms(1) report_local_disconnect_event [OF r] by metis
next
  case False
  have starts: "event_ok ev1 c1" if "start_tcp_connection E env c ConnEventNone = Some (ev1, c1)" for ev1 c1
    using start_tcp_connection_ok [OF assms(1,2) _ that] by (simp add: start_event_def)
  have "event_ok ev c'" if "conn_state c = kRCConnStateConnectPending"
    using start_connection_ok [OF assms(1,2), of ConnEventNone] assms(2,3) that
    by (simp add: tick_state_def start_event_def conn_ok_def)
  moreover have "event_ok ev c'" if "conn_state c = kRCConnStateDisconnectPending"
    using assms(2,3) that
    by (auto simp: tick_state_def report_local_disconnect_def event_ok_def conn_ok_def split: if_split_asm)
  moreover have "event_ok ev c'" if "conn_state c = kRCConnStateHeartbeat"
    using assms(2,3) that
    by (auto simp: tick_state_def event_ok_def conn_ok_def split: if_split_asm bind_split_asm)
  moreover have "event_ok ev c'" if "conn_state c = kRCConnStateRDMnetConnPending"
    using assms(2,3) that by (auto simp: tick_state_def event_ok_def conn_ok_def split: if_split_asm)
  ultimately show ?thesis using False assms(2,3) starts
    by (cases "conn_state c") (auto simp: tick_state_def split: if_split_asm)
qed

lemma process_connection_state_ok:
  assumes "conn_env_ok env" and "conn_ok c" and "process_connection_state E env c = Some c'"
  shows "conn_ok c'"
proof -
  from assms(3) obtain c1 ev c2 action where "receive_and_process_messages E env c = Some c1"
    and "tick_state E env c1 = Some (ev, c2)" and "deliver_event_callback E env c2 ev = Some (action, c')"
    by (auto simp: process_connection_state_def split: bind_splits)
  with assms(1,2) show ?thesis
    by (meson receive_and_process_ok tick_state_ok deliver_event_ok)
qed

end
