(* ===== verification/Connection_Runs.thy ===== *)
theory Connection_Runs
  imports Connection_Properties
begin

text \<open>
  Runs of a connection: the states it can reach by calls of its owner, ticks and socket activity,
  what holds in all of them, the handshake with a broker, and the runs in which an event is
  reported twice, a request is lost or memory is freed twice.
\<close>

section \<open>Reachable states\<close>

inductive conn_step :: "etcpal \<Rightarrow> 'w conn_env \<Rightarrow> 'w conn \<Rightarrow> 'w conn \<Rightarrow> bool" for E env where
  call: "do_conn_call E env c k = Some c' \<Longrightarrow> conn_step E env c c'"
| tick: "process_connection_state E env c = Some c' \<Longrightarrow> conn_step E env c c'"
| activity: "sock c \<noteq> None \<Longrightarrow> socket_activity_callback E env c ev = Some c' \<Longrightarrow> conn_step E env c c'"

inductive conn_reachable :: "etcpal \<Rightarrow> 'w conn_env \<Rightarrow> 'w conn \<Rightarrow> bool" for E env where
  register: "trace c = [] \<Longrightarrow> conn_reachable E env (register_fields env c)"
| step: "conn_reachable E env c \<Longrightarrow> conn_step E env c c' \<Longrightarrow> conn_reachable E env c'"

lemma conn_step_ok:
  assumes "conn_step E env c c'" and "conn_env_ok env" and "conn_ok c"
  shows "conn_ok c'"
  using assms by (cases rule: conn_step.cases)
    (auto intro: do_conn_call_ok process_connection_state_ok socket_activity_ok)

lemma conn_reachable_ok:
  assumes "conn_reachable E env c" and "conn_env_ok env"
  shows "conn_ok c"
  using assms
proof induction
  case (register c)
  then show ?case by (simp add: register_fields_def conn_ok_def conn_env_okD)
qed (rule conn_step_ok)

section \<open>Receiving\<close>

lemma parse_short:
  assumes "etcpal_ok E" and "\<not> have_preamble mb" and "length (mb_buf mb) \<le> 16"
  shows "rc_msg_buf_parse_data E alloc mb = Some (kEtcPalErrNoData, mb)"
  using assms by (cases "mb_buf mb")
    (simp_all add: rc_msg_buf_parse_data.simps parse_data_step_def etcpal_simps)

lemma recv_fails:
  assumes "recv s (RC_MSG_BUF_SIZE - length (mb_buf mb)) = (RecvError e, s')" and "length (mb_buf mb) < RC_MSG_BUF_SIZE"
  shows "rc_msg_buf_recv recv s mb = Some (e, mb, s')"
  using assms by (simp add: rc_msg_buf_recv_def recv_loop.simps Let_def)

lemma recv_bytes:
  assumes "recv s (RC_MSG_BUF_SIZE - length (mb_buf mb)) = (Received bs, s1)" and "bs \<noteq> []"
    and "recv s1 (RC_MSG_BUF_SIZE - (length (mb_buf mb) + length bs)) = (RecvError kEtcPalErrWouldBlock, s2)"
    and "length (mb_buf mb) + length bs < RC_MSG_BUF_SIZE"
  shows "rc_msg_buf_recv recv s mb = Some (kEtcPalErrOk, mb\<lparr>mb_buf := mb_buf mb @ bs\<rparr>, s2)"
  using assms
  by (simp add: rc_msg_buf_recv_def recv_loop.simps [of recv s] recv_loop.simps [of recv s1] Let_def)

text \<open>A socket that has nothing to read.\<close>

definition quiet :: "'w conn_env \<Rightarrow> nat option \<Rightarrow> 'w \<Rightarrow> bool" where
  "quiet env sk w \<longleftrightarrow> (\<forall>n. e_recv env sk w n = (RecvError kEtcPalErrWouldBlock, w))"

lemma quiet_receive_loop:
  assumes "quiet env (sock c) (world c)" and "length (mb_buf (recv_buf c)) < RC_MSG_BUF_SIZE"
  shows "receive_loop E env False c = Some (kRCMessageActionProcessNext, c)"
proof -
  have "rc_msg_buf_recv (e_recv env (sock c)) (world c) (recv_buf c) = Some (kEtcPalErrWouldBlock, recv_buf c, world c)"
    using assms by (intro recv_fails) (simp_all add: quiet_def)
  then show ?thesis by (simp add: receive_loop.simps [of E env])
qed

lemma quiet_receive:
  assumes "quiet env (sock c) (world c)" and "length (mb_buf (recv_buf c)) < RC_MSG_BUF_SIZE"
    and "\<not> retry_current_message c"
  shows "receive_and_process_messages E env c = Some c"
  using assms by (simp add: receive_and_process_messages_def quiet_receive_loop)

lemma no_socket_receive:
  assumes "\<And>n. e_recv env None (world c) n = (RecvError e, world c)" and "e \<noteq> kEtcPalErrOk" and "sock c = None"
    and "conn_state c \<in> {kRCConnStateNotStarted, kRCConnStateConnectPending, kRCConnStateBackoff}"
    and "length (mb_buf (recv_buf c)) < RC_MSG_BUF_SIZE" and "\<not> retry_current_message c"
  shows "receive_and_process_messages E env c = Some c"
proof -
  have "rc_msg_buf_recv (e_recv env (sock c)) (world c) (recv_buf c) = Some (e, recv_buf c, world c)"
    using assms by (intro recv_fails) simp_all
  with assms show ?thesis
    by (auto simp: receive_and_process_messages_def receive_loop.simps [of E env] handle_socket_error_def
        deliver_event_callback_def Let_def)
qed

section \<open>A simulated environment\<close>

text \<open>
  A world for concrete runs: what the socket will deliver, whether the timers have expired, and the
  calls the owner makes when it is told of a lost connection. Connecting takes a while; a connection
  makes the timers expire. Sending always succeeds.
\<close>

record sim =
  inbox :: "recv_res list"
  late :: bool
  script :: "conn_call list"

definition sim_recv :: "nat option \<Rightarrow> sim \<Rightarrow> nat \<Rightarrow> recv_res \<times> sim" where
  "sim_recv sk w n =
     (if sk = None then (RecvError kEtcPalErrNotConn, w)
      else case inbox w of
        [] \<Rightarrow> (RecvError kEtcPalErrWouldBlock, w)
      | r # rs \<Rightarrow> (r, w\<lparr>inbox := rs\<rparr>))"

definition sim_env :: "sim conn_env" where
  "sim_env =
     \<lparr>e_socket = (\<lambda>v w. (kEtcPalErrOk, Some 1, w)), e_setblocking = (\<lambda>sk w. (kEtcPalErrOk, w)),
      e_connect = (\<lambda>sk a w. (kEtcPalErrInProgress, w)), e_close = (\<lambda>sk w. w),
      e_poll_add = (\<lambda>sk w. (kEtcPalErrOk, w)), e_poll_modify = (\<lambda>sk w. w), e_poll_remove = (\<lambda>sk w. w),
      e_send = (\<lambda>sk w bs. (Inr (length bs), w)), e_recv = sim_recv, e_rand = (\<lambda>w. (0, w)),
      e_timer_start = (\<lambda>i w. \<lparr>timer_interval = i, timer_reset_time = 0\<rparr>), e_timer_reset = (\<lambda>t w. t),
      e_timer_is_expired = (\<lambda>t w. late w), e_alloc = (\<lambda>n. True), e_union_broker = msg_broker,
      cb_connected = (\<lambda>i w. ([], w\<lparr>late := True\<rparr>)), cb_connect_failed = (\<lambda>i w. ([], w)),
      cb_disconnected = (\<lambda>i w. (script w, w\<lparr>script := []\<rparr>)),
      cb_message_received = (\<lambda>m w. (kRCMessageActionProcessNext, [], w)), cb_destroyed = (\<lambda>w. w)\<rparr>"

lemma sim_env_simps [simp]:
  "e_socket sim_env v w = (kEtcPalErrOk, Some 1, w)" "e_setblocking sim_env sk w = (kEtcPalErrOk, w)"
  "e_connect sim_env sk a w = (kEtcPalErrInProgress, w)" "e_close sim_env n w = w"
  "e_poll_add sim_env sk w = (kEtcPalErrOk, w)" "e_poll_modify sim_env sk w = w" "e_poll_remove sim_env n w = w"
  "e_recv sim_env = sim_recv" "e_rand sim_env w = (0, w)"
  "e_send sim_env = (\<lambda>sk w bs. (Inr (length bs), w))"
  "e_timer_start sim_env i w = \<lparr>timer_interval = i, timer_reset_time = 0\<rparr>" "e_timer_reset sim_env t w = t"
  "e_timer_is_expired sim_env t w = late w" "cb_connected sim_env ci w = ([], w\<lparr>late := True\<rparr>)"
  "cb_connect_failed sim_env cfi w = ([], w)" "cb_disconnected sim_env di w = (script w, w\<lparr>script := []\<rparr>)"
  "cb_message_received sim_env m w = (kRCMessageActionProcessNext, [], w)" "e_union_broker sim_env = msg_broker"
  by (simp_all add: sim_env_def)

lemma sim_env_ok [simp]: "conn_env_ok sim_env"
  by (simp add: conn_env_ok_def)

lemma quiet_sim: "sk \<noteq> None \<Longrightarrow> inbox w = [] \<Longrightarrow> quiet sim_env sk w"
  by (simp add: quiet_def sim_recv_def)

text \<open>Sending without waiting.\<close>

definition steady :: "('s \<Rightarrow> bytes \<Rightarrow> (etcpal_error_t + nat) \<times> 's) \<Rightarrow> bool" where
  "steady send \<longleftrightarrow> (\<forall>s m. \<exists>n. send s m = (Inr n, s))"

lemma steady_sim [simp]: "steady (e_send sim_env sk)"
  by (simp add: steady_def)

lemma steady_rc_send: "steady send \<Longrightarrow> \<exists>n. rc_send send s m = Some (Inr n, s)"
  unfolding steady_def by (subst rc_send.simps) (metis (mono_tags, lifting) Inl_Inr_False case_prod_conv)

lemma steady_send_segments: "steady send \<Longrightarrow> \<exists>r. send_segments send s segs = Some (r, s)"
proof (induction segs)
  case (Cons seg segs)
  with steady_rc_send [of send s seg] show ?case by fastforce
qed simp

lemma steady_send_client_connect:
  assumes "steady send"
  shows "\<exists>r. rc_broker_send_client_connect E send s cid m = Some (r, s)"
proof -
  from steady_send_segments [OF assms, of s] obtain g where g: "send_segments send s segs = Some (g segs, s)" for segs
    by metis
  from steady_rc_send [OF assms, of s] obtain f where f: "rc_send send s d = Some (Inr (f d), s)" for d by metis
  show ?thesis by (simp add: rc_broker_send_client_connect_def Let_def f g)
qed

lemma start_rdmnet_steady:
  assumes "\<And>sk. steady (e_send env sk)"
  shows "start_rdmnet_connection E env c =
     (let w = e_poll_modify env (sock c) (world c) in
      Some (c\<lparr>conn_state := kRCConnStateRDMnetConnPending, world := w,
              hb_timer := e_timer_start env (E133_HEARTBEAT_TIMEOUT_SEC * 1000) w,
              send_timer := e_timer_start env (E133_TCP_HEARTBEAT_INTERVAL_SEC * 1000) w\<rparr>))"
proof -
  from steady_send_client_connect [OF assms, of E "sock c" "e_poll_modify env (sock c) (world c)" "local_cid c" "conn_data c"]
  obtain r where "rc_broker_send_client_connect E (e_send env (sock c)) (e_poll_modify env (sock c) (world c))
    (local_cid c) (conn_data c) = Some (r, e_poll_modify env (sock c) (world c))" by auto
  then show ?thesis by (simp add: start_rdmnet_connection_def Let_def)
qed

lemma sim_start_rdmnet [simp]:
  "start_rdmnet_connection E sim_env c =
     Some (c\<lparr>conn_state := kRCConnStateRDMnetConnPending, hb_timer := \<lparr>timer_interval = 45000, timer_reset_time = 0\<rparr>,
             send_timer := \<lparr>timer_interval = 15000, timer_reset_time = 0\<rparr>\<rparr>)"
  using start_rdmnet_steady [of sim_env E c, OF steady_sim] by simp

definition sim_addr :: EtcPalSockAddr where
  "sim_addr = \<lparr>sa_ip = IpV4 0x0a650165, sa_port = 8888\<rparr>"

definition sim_conn :: "recv_res list \<Rightarrow> conn_call list \<Rightarrow> sim conn" where
  "sim_conn rs ks =
     \<lparr>local_cid = replicate 16 1, sock = None, remote_addr = None, conn_state = kRCConnStateNotStarted,
      conn_data = client_connect blank_broker_message, backoff_timer = \<lparr>timer_interval = 0, timer_reset_time = 0\<rparr>,
      rdmnet_conn_failed = False, sent_connected_notification = False,
      send_timer = \<lparr>timer_interval = 0, timer_reset_time = 0\<rparr>, hb_timer = \<lparr>timer_interval = 0, timer_reset_time = 0\<rparr>,
      recv_buf = idle_buf, retry_current_message = False,
      world = \<lparr>inbox = rs, late = False, script = ks\<rparr>, trace = []\<rparr>"

text \<open>A connection whose receive buffer is between two messages.\<close>

definition idle :: "'w conn \<Rightarrow> bool" where
  "idle c \<longleftrightarrow> mb_buf (recv_buf c) = [] \<and> \<not> have_preamble (recv_buf c) \<and> \<not> retry_current_message c"

definition sim_reply :: BrokerConnectReplyMsg where
  "sim_reply = \<lparr>cr_connect_status = 0, cr_e133_version = 1, cr_broker_uid = \<lparr>manu = 0x6574, dev_id = 1\<rparr>,
                cr_client_uid = \<lparr>manu = 0xe574, dev_id = 2\<rparr>\<rparr>"

text \<open>The states while the TCP connection is set up, and while the Connect Reply is awaited.\<close>

definition sim_waiting :: "recv_res list \<Rightarrow> conn_call list \<Rightarrow> sim conn" where
  "sim_waiting rs ks =
     (sim_conn rs ks)\<lparr>remote_addr := Some sim_addr, conn_state := kRCConnStateTCPConnPending, sock := Some 1\<rparr>"

definition sim_started :: "recv_res list \<Rightarrow> conn_call list \<Rightarrow> sim conn" where
  "sim_started rs ks =
     (sim_waiting rs ks)\<lparr>conn_state := kRCConnStateRDMnetConnPending,
       hb_timer := \<lparr>timer_interval = 45000, timer_reset_time = 0\<rparr>,
       send_timer := \<lparr>timer_interval = 15000, timer_reset_time = 0\<rparr>\<rparr>"

definition sim_reply_bytes :: bytes where
  "sim_reply_bytes = rc_broker_pack_connect_reply etcpal_be 60 (replicate 16 2) sim_reply"

lemma sim_states [simp]:
  "idle (sim_waiting rs ks)" "conn_state (sim_waiting rs ks) = kRCConnStateTCPConnPending" "sock (sim_waiting rs ks) = Some 1"
  "world (sim_waiting rs ks) = \<lparr>inbox = rs, late = False, script = ks\<rparr>"
  "idle (sim_started rs ks)" "conn_state (sim_started rs ks) = kRCConnStateRDMnetConnPending"
  "sock (sim_started rs ks) = Some 1" "world (sim_started rs ks) = \<lparr>inbox = rs, late = False, script = ks\<rparr>"
  "trace (sim_waiting rs ks) = []" "trace (sim_started rs ks) = []" "\<not> rdmnet_conn_failed (sim_started rs ks)"
  "remote_addr (sim_started rs ks) = Some sim_addr" "\<not> retry_current_message (sim_started rs ks)"
  "cr_connect_status sim_reply = 0"
  by (simp_all add: sim_waiting_def sim_started_def sim_conn_def idle_def idle_buf_def sim_reply_def)

definition sim_rejected :: "u32 \<Rightarrow> sim conn" where
  "sim_rejected t =
     (sim_conn [] [])\<lparr>rdmnet_conn_failed := True, backoff_timer := \<lparr>timer_interval = t, timer_reset_time = 0\<rparr>\<rparr>"

text \<open>A tick of a connection that waits to connect and has no backoff.\<close>

lemma sim_connects:
  assumes "conn_state c = kRCConnStateConnectPending" and "sock c = None" and "idle c" and "\<not> rdmnet_conn_failed c"
    and "timer_interval (backoff_timer c) = 0"
  shows "process_connection_state E sim_env c = Some (c\<lparr>conn_state := kRCConnStateTCPConnPending, sock := Some 1\<rparr>)"
proof -
  have "receive_and_process_messages E sim_env c = Some c"
    using assms by (intro no_socket_receive [where e = kEtcPalErrNotConn]) (simp_all add: sim_recv_def idle_def)
  with assms show ?thesis
    by (simp add: process_connection_state_def tick_state_def start_connection_def start_tcp_connection_def
        deliver_event_callback_def)
qed

lemma sim_waiting_reachable: "conn_reachable E sim_env (sim_waiting rs ks)"
proof -
  let ?c = "(sim_conn rs ks)\<lparr>remote_addr := Some sim_addr, conn_state := kRCConnStateConnectPending\<rparr>"
  have "conn_reachable E sim_env (register_fields sim_env (sim_conn rs ks))"
    by (rule conn_reachable.register) (simp add: sim_conn_def)
  moreover have "register_fields sim_env (sim_conn rs ks) = sim_conn rs ks"
    by (simp add: register_fields_def sim_conn_def rc_msg_buf_init_def idle_buf_def)
  moreover have "do_conn_call E sim_env (sim_conn rs ks) (CallConnect sim_addr (client_connect blank_broker_message)) = Some ?c"
    by (simp add: rc_conn_connect_def sim_conn_def)
  ultimately have "conn_reachable E sim_env ?c" by (metis conn_reachable.step conn_step.call)
  moreover have "process_connection_state E sim_env ?c = Some (sim_waiting rs ks)"
    by (subst sim_connects) (simp_all add: sim_conn_def sim_waiting_def idle_def idle_buf_def)
  ultimately show ?thesis by (metis conn_reachable.step conn_step.tick)
qed

lemma sim_started_reachable: "conn_reachable E sim_env (sim_started rs ks)"
proof -
  have "socket_activity_callback E sim_env (sim_waiting rs ks) PollConnect = Some (sim_started rs ks)"
    by (simp add: handle_tcp_connection_established_def sim_started_def)
  moreover have "sock (sim_waiting rs ks) \<noteq> None" by (simp add: sim_waiting_def)
  ultimately show ?thesis using sim_waiting_reachable by (metis conn_reachable.step conn_step.activity)
qed

section \<open>The handshake\<close>

lemma fresh_buf_eq: "\<not> have_preamble mb \<Longrightarrow> mb\<lparr>mb_buf := d\<rparr> = fresh_buf mb d"
  by (simp add: fresh_buf_def)

lemma connect_reply_length:
  assumes "etcpal_ok E" and "length cid = 16"
  shows "length (rc_broker_pack_connect_reply E 60 cid m) = 60"
  using assms broker_packed(2,3) [OF assms, of "pack_connect_reply_data E m" VECTOR_BROKER_CONNECT_REPLY]
  by (simp add: rc_broker_pack_connect_reply_def BROKER_PDU_FULL_HEADER_SIZE_def etcpal_simps Let_def
      unpack_pack_connect_reply)

definition connected_info :: "'w conn \<Rightarrow> EtcPalUuid \<Rightarrow> BrokerConnectReplyMsg \<Rightarrow> RCConnectedInfo" where
  "connected_info c cid m =
     \<lparr>ci_broker_cid = cid, ci_broker_uid = cr_broker_uid m, ci_client_uid = cr_client_uid m,
      ci_connected_addr = remote_addr c\<rparr>"

lemma connect_reply_processed:
  assumes "etcpal_ok E" and "conn_state c = kRCConnStateRDMnetConnPending"
    and "mb_msg (recv_buf c) = msg0\<lparr>msg_vector := ACN_VECTOR_ROOT_BROKER E, sender_cid := cid,
        msg_broker := bm0\<lparr>bm_vector := VECTOR_BROKER_CONNECT_REPLY, connect_reply := m\<rparr>\<rparr>"
    and "cr_connect_status m = kRdmnetConnectOk"
    and "cb_connected env (connected_info c cid m) (world c) = ([], w2)"
  shows "process_message E env c = Some (kRCMessageActionProcessNext,
     c\<lparr>conn_state := kRCConnStateHeartbeat, sent_connected_notification := True,
       backoff_timer := e_timer_start env 0 (world c), world := w2,
       trace := trace c @ [Freed [] (mb_msg (recv_buf c)), Delivered (ConnEventConnected (connected_info c cid m))]\<rparr>)"
proof -
  have "free_current_message E c1 = c1\<lparr>trace := trace c1 @ [Freed [] (mb_msg (recv_buf c))]\<rparr>"
    if "recv_buf c1 = recv_buf c" for c1 :: "'a conn"
    using that assms(3) by (simp add: free_current_message_def rc_free_message_resources_def free_broker_message_def)
  then have "handle_message E env c = (ConnEventConnected (connected_info c cid m),
     c\<lparr>conn_state := kRCConnStateHeartbeat, sent_connected_notification := True,
       backoff_timer := e_timer_start env 0 (world c), trace := trace c @ [Freed [] (mb_msg (recv_buf c))]\<rparr>)"
    using assms(1-4) by (simp add: handle_message_def handle_rdmnet_connect_result_def connected_info_def)
  then show ?thesis using assms(2,5) by (simp add: process_message_def deliver_event_callback_def)
qed

lemma connect_reply_handled:
  fixes c :: "'w conn"
  assumes "etcpal_ok E" and "length cid = 16" and "conn_state c = kRCConnStateRDMnetConnPending" and "idle c"
    and "e_recv env (sock c) (world c) RC_MSG_BUF_SIZE = (Received (rc_broker_pack_connect_reply E 60 cid m), w1)"
    and "quiet env (sock c) w1" and "cr_connect_status m = kRdmnetConnectOk"
    and "cb_connected env (connected_info c cid m) w1 = ([], w2)" and "quiet env (sock c) w2"
  shows "\<exists>mb. receive_and_process_messages E env c = Some
     (c\<lparr>recv_buf := mb, conn_state := kRCConnStateHeartbeat, sent_connected_notification := True,
        backoff_timer := e_timer_start env 0 w1, world := w2,
        trace := trace c @ [Freed [] (mb_msg mb), Delivered (ConnEventConnected (connected_info c cid m))]\<rparr>) \<and>
     mb_buf mb = [] \<and> \<not> have_preamble mb"
proof -
  let ?reply = "rc_broker_pack_connect_reply E 60 cid m"
  from connect_reply_parses [OF assms(1,2), of 60 "e_alloc env" "recv_buf c" m "[]"] obtain mb where
    parse: "rc_msg_buf_parse_data E (e_alloc env) (fresh_buf (recv_buf c) ?reply) = Some (kEtcPalErrOk, mb)"
    and mb: "mb_buf mb = []" "\<not> have_preamble mb" and msg: "mb_msg mb = (mb_msg (recv_buf c))\<lparr>msg_vector := ACN_VECTOR_ROOT_BROKER E,
        sender_cid := cid, msg_broker := (msg_broker (mb_msg (recv_buf c)))\<lparr>bm_vector := VECTOR_BROKER_CONNECT_REPLY,
        connect_reply := m\<rparr>\<rparr>" by auto
  define c1 where "c1 = c\<lparr>world := w1, recv_buf := mb\<rparr>"
  define c2 where "c2 = c1\<lparr>conn_state := kRCConnStateHeartbeat, sent_connected_notification := True,
       backoff_timer := e_timer_start env 0 w1, world := w2,
       trace := trace c @ [Freed [] (mb_msg mb), Delivered (ConnEventConnected (connected_info c cid m))]\<rparr>"
  have recv: "rc_msg_buf_recv (e_recv env (sock c)) (world c) (recv_buf c) =
      Some (kEtcPalErrOk, fresh_buf (recv_buf c) ?reply, w1)"
    using recv_bytes [of "e_recv env (sock c)" "world c" "recv_buf c" ?reply w1 w1] assms(4-6)
      connect_reply_length [OF assms(1,2), of m]
    by (force simp: idle_def quiet_def fresh_buf_eq)
  have pm: "process_message E env c1 = Some (kRCMessageActionProcessNext, c2)"
    using connect_reply_processed [OF assms(1), where c = c1 and cid = cid and m = m and env = env and ?w2.0 = w2
        and ?msg0.0 = "mb_msg (recv_buf c)" and ?bm0.0 = "msg_broker (mb_msg (recv_buf c))"]
      assms(3,7,8) msg by (simp add: c1_def c2_def connected_info_def)
  have "process_loop E env False c2 = Some (kRCMessageActionProcessNext, c2)"
    using parse_short [OF assms(1), of mb "e_alloc env"] mb
    by (simp add: process_loop.simps [of E env False c2]) (simp add: c1_def c2_def)
  with pm parse have loop: "process_loop E env False (c\<lparr>recv_buf := fresh_buf (recv_buf c) ?reply, world := w1\<rparr>) =
      Some (kRCMessageActionProcessNext, c2)"
    by (subst process_loop.simps) (simp add: c1_def)
  have "receive_loop E env False c2 = Some (kRCMessageActionProcessNext, c2)"
    using assms(9) mb by (intro quiet_receive_loop) (simp_all add: c1_def c2_def)
  with recv loop have "receive_loop E env False c = Some (kRCMessageActionProcessNext, c2)"
    by (subst receive_loop.simps) simp
  then show ?thesis using assms(4) mb
    by (intro exI [of _ mb]) (simp add: receive_and_process_messages_def idle_def c1_def c2_def)
qed

text \<open>
  C11. The handshake. A client that waits for the broker's answer and receives the Connect Reply that
  the broker packs with \<^verbatim>\<open>rc_broker_pack_connect_reply\<close> and status OK becomes healthy with its socket
  kept and its backoff cleared; its owner is told of the connection with the broker's CID and the two
  UIDs of the reply, and nothing else is reported.
\<close>

theorem handshake_completes:
  assumes "etcpal_ok E" and "length cid = 16" and "conn_env_ok env"
    and "conn_state c = kRCConnStateRDMnetConnPending" and "idle c"
    and "e_recv env (sock c) (world c) RC_MSG_BUF_SIZE = (Received (rc_broker_pack_connect_reply E 60 cid m), w1)"
    and "quiet env (sock c) w1" and "cr_connect_status m = kRdmnetConnectOk"
    and "cb_connected env (connected_info c cid m) w1 = ([], w2)" and "quiet env (sock c) w2"
  shows "\<exists>c' msg. receive_and_process_messages E env c = Some c' \<and> conn_state c' = kRCConnStateHeartbeat \<and>
     sock c' = sock c \<and> timer_interval (backoff_timer c') = 0 \<and> idle c' \<and>
     trace c' = trace c @ [Freed [] msg,
       Delivered (ConnEventConnected \<lparr>ci_broker_cid = cid, ci_broker_uid = cr_broker_uid m,
         ci_client_uid = cr_client_uid m, ci_connected_addr = remote_addr c\<rparr>)]"
  using connect_reply_handled [OF assms(1,2,4-10)] assms(3,5)
  by (auto simp: idle_def connected_info_def conn_env_okD)

theorem handshake_completes_witness:
  "\<exists>c' msg. receive_and_process_messages etcpal_be sim_env
       (sim_started [Received sim_reply_bytes] []) = Some c' \<and>
     conn_state c' = kRCConnStateHeartbeat \<and> sock c' = Some 1 \<and> timer_interval (backoff_timer c') = 0 \<and> idle c' \<and>
     trace c' = [Freed [] msg,
       Delivered (ConnEventConnected \<lparr>ci_broker_cid = replicate 16 2, ci_broker_uid = cr_broker_uid sim_reply,
         ci_client_uid = cr_client_uid sim_reply, ci_connected_addr = Some sim_addr\<rparr>)]"
  using handshake_completes [of etcpal_be "replicate 16 2" sim_env "sim_started [Received sim_reply_bytes] []" sim_reply
      "\<lparr>inbox = [], late = False, script = []\<rparr>" "\<lparr>inbox = [], late = True, script = []\<rparr>"]
  by (simp add: sim_states sim_recv_def quiet_sim sim_reply_bytes_def)

section \<open>What holds in every reachable state\<close>

text \<open>
  C3. In every state a connection reaches, by any sequence of calls of its owner, ticks, socket
  activity and calls made from callbacks: it has no socket before it is started, while it waits to
  connect or backs off, and it has one while it connects or is healthy; its backoff never exceeds 30 seconds.
\<close>

theorem connection_has_socket:
  assumes "conn_env_ok env" and "conn_reachable E env c"
  shows "(conn_state c \<in> {kRCConnStateNotStarted, kRCConnStateConnectPending, kRCConnStateBackoff} \<longrightarrow> sock c = None) \<and>
     (conn_state c \<in> {kRCConnStateTCPConnPending, kRCConnStateRDMnetConnPending, kRCConnStateHeartbeat} \<longrightarrow>
        sock c \<noteq> None) \<and>
     timer_interval (backoff_timer c) \<le> 30000"
  using conn_reachable_ok [OF assms(2,1)] by (simp add: conn_ok_def)

theorem connection_has_socket_witness:
  "conn_reachable etcpal_be sim_env (sim_started [] []) \<and> sock (sim_started [] []) \<noteq> None"
  using connection_has_socket [OF sim_env_ok sim_started_reachable [of etcpal_be "[]" "[]"]] sim_started_reachable
  by (simp add: sim_started_def sim_waiting_def sim_conn_def)

text \<open>
  C15. In every such run, the report that a healthy connection was lost (by the broker's wish, a
  missing heartbeat or a socket error) comes only directly after the report that it was
  established, among the reports about the connection; and a connection that is healthy has been
  reported as established, with no report about it since.
\<close>

theorem losses_follow_connections:
  assumes "conn_env_ok env" and "conn_reachable E env c"
  shows "reported (trace c) \<noteq> None \<and>
     (conn_state c = kRCConnStateHeartbeat \<longrightarrow> reported (trace c) = Some True \<and> sent_connected_notification c)"
  using conn_reachable_ok [OF assms(2,1)] by (simp add: conn_ok_def)

theorem losses_follow_connections_witness:
  "conn_reachable etcpal_be sim_env (sim_waiting [] []) \<and> reported (trace (sim_waiting [] [])) \<noteq> None"
  using losses_follow_connections [OF sim_env_ok sim_waiting_reachable [of etcpal_be "[]" "[]"]] sim_waiting_reachable
  by simp

section \<open>Backoff\<close>

lemma update_backoff_unat:
  assumes "prev \<le> 30000"
  shows "unat (update_backoff rnd prev) = min 30000 (unat prev + rnd mod 4001 + 1000)"
proof -
  have p: "unat prev \<le> 30000" using assms by (simp add: word_le_nat_alt)
  have r: "rnd mod 4001 \<le> 4000" by (simp add: less_Suc_eq_le [symmetric])
  have "unat ((of_nat (rnd mod 4001 + 1000) :: u32) + prev) = rnd mod 4001 + 1000 + unat prev"
    using p r by (simp add: unat_word_ariths unat_of_nat)
  then show ?thesis by (simp add: update_backoff_def Let_def word_less_nat_alt)
qed

text \<open>
  C23. A client that was rejected and connects again does not open a socket in its next tick: it backs
  off, for at least one and at most five seconds more than the time before, up to the limit of 30
  seconds.
\<close>

theorem rejected_client_backs_off:
  assumes "conn_env_ok env" and "conn_ok c" and "conn_state c = kRCConnStateNotStarted" and "rdmnet_conn_failed c"
    and "length (mb_buf (recv_buf c)) < RC_MSG_BUF_SIZE" and "\<not> retry_current_message c"
    and "\<And>n. e_recv env None (world c) n = (RecvError e, world c)" and "e \<noteq> kEtcPalErrOk"
    and "rc_conn_connect c addr d = (res, c1)" and "process_connection_state E env c1 = Some c2"
  shows "res = kEtcPalErrOk \<and> conn_state c2 = kRCConnStateBackoff \<and> sock c2 = None \<and>
     unat (timer_interval (backoff_timer c2)) \<in>
       {min 30000 (unat (timer_interval (backoff_timer c)) + 1000) .. min 30000 (unat (timer_interval (backoff_timer c)) + 5000)}"
proof -
  have c1: "c1 = c\<lparr>remote_addr := Some addr, conn_data := d, conn_state := kRCConnStateConnectPending\<rparr>"
    and res: "res = kEtcPalErrOk" using assms(3,9) by (simp_all add: rc_conn_connect_def)
  have sock: "sock c = None" and le: "timer_interval (backoff_timer c) \<le> 30000"
    using assms(2,3) by (simp_all add: conn_ok_def)
  obtain rnd w where rnd: "e_rand env (world c) = (rnd, w)" by fastforce
  have "receive_and_process_messages E env c1 = Some c1"
    using assms(5-8) sock by (intro no_socket_receive [where e = e]) (simp_all add: c1)
  then have "c2 = c1\<lparr>world := w,
      backoff_timer := e_timer_start env (update_backoff rnd (timer_interval (backoff_timer c))) w,
      conn_state := kRCConnStateBackoff\<rparr>"
    using assms(4,10) rnd
    by (simp add: process_connection_state_def tick_state_def start_connection_def c1 deliver_event_callback_def)
  moreover have "rnd mod 4001 < 4001" by simp
  ultimately show ?thesis using res sock le assms(1)
    by (auto simp: c1 conn_env_okD update_backoff_unat min_def)
qed

theorem rejected_client_backs_off_witness:
  "conn_ok (sim_rejected 29500) \<and>
   (\<exists>c2. process_connection_state etcpal_be sim_env
           (snd (rc_conn_connect (sim_rejected 29500) sim_addr (conn_data (sim_rejected 29500)))) = Some c2 \<and>
     conn_state c2 = kRCConnStateBackoff \<and> unat (timer_interval (backoff_timer c2)) = 30000)"
proof -
  let ?c = "sim_rejected 29500" and ?c1 = "snd (rc_conn_connect (sim_rejected 29500) sim_addr (conn_data (sim_rejected 29500)))"
  have ok: "conn_ok ?c" by (simp add: sim_rejected_def sim_conn_def conn_ok_def)
  have "receive_and_process_messages etcpal_be sim_env ?c1 = Some ?c1"
    by (rule no_socket_receive [where e = kEtcPalErrNotConn])
      (simp_all add: sim_rejected_def sim_conn_def rc_conn_connect_def sim_recv_def idle_buf_def)
  then obtain c2 where c2: "process_connection_state etcpal_be sim_env ?c1 = Some c2"
    by (simp add: process_connection_state_def tick_state_def start_connection_def deliver_event_callback_def
        rc_conn_connect_def sim_rejected_def sim_conn_def)
  with rejected_client_backs_off [of sim_env ?c kEtcPalErrNotConn, OF sim_env_ok ok _ _ _ _ _ _ prod.collapse [symmetric] c2]
  show ?thesis using ok by (simp add: sim_rejected_def sim_conn_def sim_recv_def idle_buf_def)
qed

section \<open>Where the code goes wrong\<close>

text \<open>
  C36. A request to disconnect is lost when the TCP connection is established before the next tick.
  \<^verbatim>\<open>handle_tcp_connection_established\<close> does not look at the state: it overwrites the pending
  disconnect, which \<^verbatim>\<open>rc_conn_disconnect\<close> has acknowledged with \<^const>\<open>kEtcPalErrOk\<close>. When the broker answers, the
  owner that asked to be disconnected is told that it is connected.
\<close>

theorem disconnect_request_lost:
  assumes "etcpal_ok E" and "length cid = 16" and "\<And>sk. steady (e_send env sk)"
    and "conn_state c = kRCConnStateTCPConnPending" and "idle c"
    and "e_recv env (sock c) (e_poll_modify env (sock c) (world c)) RC_MSG_BUF_SIZE =
      (Received (rc_broker_pack_connect_reply E 60 cid m), w1)"
    and "quiet env (sock c) w1" and "cr_connect_status m = kRdmnetConnectOk"
    and "cb_connected env (connected_info c cid m) w1 = ([], w2)" and "quiet env (sock c) w2"
  shows "\<exists>c1 c2 c3 msg. rc_conn_disconnect E env c reason = Some (kEtcPalErrOk, c1) \<and>
     conn_state c1 = kRCConnStateDisconnectPending \<and>
     socket_activity_callback E env c1 PollConnect = Some c2 \<and>
     socket_activity_callback E env c2 PollIn = Some c3 \<and> conn_state c3 = kRCConnStateHeartbeat \<and>
     trace c3 = trace c @ [Freed [] msg, Delivered (ConnEventConnected (connected_info c cid m))]"
proof -
  define c1 where "c1 = c\<lparr>conn_state := kRCConnStateDisconnectPending\<rparr>"
  define w where "w = e_poll_modify env (sock c) (world c)"
  define c2 where "c2 = c1\<lparr>conn_state := kRCConnStateRDMnetConnPending, world := w,
      hb_timer := e_timer_start env (E133_HEARTBEAT_TIMEOUT_SEC * 1000) w,
      send_timer := e_timer_start env (E133_TCP_HEARTBEAT_INTERVAL_SEC * 1000) w\<rparr>"
  have d: "rc_conn_disconnect E env c reason = Some (kEtcPalErrOk, c1)"
    using assms(4) by (simp add: rc_conn_disconnect_def c1_def)
  have s: "socket_activity_callback E env c1 PollConnect = Some c2"
    using start_rdmnet_steady [OF assms(3), of E c1]
    by (simp add: handle_tcp_connection_established_def c2_def c1_def w_def Let_def)
  have info: "connected_info c2 cid m = connected_info c cid m" by (simp add: connected_info_def c2_def c1_def)
  have "conn_state c2 = kRCConnStateRDMnetConnPending" "idle c2" "sock c2 = sock c" "world c2 = w" "trace c2 = trace c"
    using assms(5) by (simp_all add: c2_def c1_def idle_def)
  then show ?thesis
    using connect_reply_handled [OF assms(1,2), of c2 env m w1 w2] assms(6-10) d s
    by (auto simp: info w_def c1_def)
qed

theorem disconnect_request_lost_witness:
  "\<exists>c1 c2 c3 msg. rc_conn_disconnect etcpal_be sim_env (sim_waiting [Received sim_reply_bytes] []) 0 = Some (kEtcPalErrOk, c1) \<and>
     conn_state c1 = kRCConnStateDisconnectPending \<and>
     socket_activity_callback etcpal_be sim_env c1 PollConnect = Some c2 \<and>
     socket_activity_callback etcpal_be sim_env c2 PollIn = Some c3 \<and> conn_state c3 = kRCConnStateHeartbeat \<and>
     trace c3 = trace (sim_waiting [Received sim_reply_bytes] []) @ [Freed [] msg,
       Delivered (ConnEventConnected (connected_info (sim_waiting [Received sim_reply_bytes] []) (replicate 16 2) sim_reply))]"
  by (rule disconnect_request_lost [where ?w1.0 = "\<lparr>inbox = [], late = False, script = []\<rparr>"
        and ?w2.0 = "\<lparr>inbox = [], late = True, script = []\<rparr>"])
    (simp_all add: sim_states sim_recv_def quiet_sim steady_def sim_reply_bytes_def)

lemma sim_healthy:
  "\<exists>c. conn_reachable etcpal_be sim_env c \<and> conn_state c = kRCConnStateHeartbeat \<and> sent_connected_notification c \<and>
     timer_interval (backoff_timer c) = 0 \<and> idle c \<and> sock c = Some 1 \<and> \<not> rdmnet_conn_failed c \<and>
     world c = \<lparr>inbox = [], late = True, script = ks\<rparr>"
proof -
  let ?c = "sim_started [Received sim_reply_bytes] ks"
  have "\<exists>mb. socket_activity_callback etcpal_be sim_env ?c PollIn = Some
     (?c\<lparr>recv_buf := mb, conn_state := kRCConnStateHeartbeat, sent_connected_notification := True,
        backoff_timer := e_timer_start sim_env 0 \<lparr>inbox = [], late = False, script = ks\<rparr>,
        world := \<lparr>inbox = [], late = True, script = ks\<rparr>,
        trace := trace ?c @ [Freed [] (mb_msg mb), Delivered (ConnEventConnected (connected_info ?c (replicate 16 2) sim_reply))]\<rparr>) \<and>
     mb_buf mb = [] \<and> \<not> have_preamble mb"
    unfolding socket_activity_callback.simps
    by (rule connect_reply_handled) (simp_all add: sim_states sim_recv_def quiet_sim sim_reply_bytes_def)
  then obtain c where c: "socket_activity_callback etcpal_be sim_env ?c PollIn = Some c"
    "conn_state c = kRCConnStateHeartbeat" "sent_connected_notification c" "timer_interval (backoff_timer c) = 0"
    "idle c" "sock c = Some 1" "\<not> rdmnet_conn_failed c" "world c = \<lparr>inbox = [], late = True, script = ks\<rparr>"
    by (auto simp: idle_def sim_states)
  moreover have "conn_reachable etcpal_be sim_env c"
    using sim_started_reachable c(1) sim_states(7) by (metis conn_reachable.step conn_step.activity option.distinct(1))
  ultimately show ?thesis by blast
qed

lemma sim_reset:
  assumes "\<not> retry_current_message c"
  shows "trace (reset_connection E sim_env c) = trace c" "world (reset_connection E sim_env c) = world c"
    "\<not> have_preamble (recv_buf (reset_connection E sim_env c))"
  using assms by (auto simp: reset_connection_def cleanup_connection_resources_def rc_msg_buf_init_def split: option.split)

lemma sim_times_out:
  assumes "conn_state c = kRCConnStateHeartbeat" and "sent_connected_notification c" and "idle c" and "sock c = Some 1"
    and "timer_interval (backoff_timer c) = 0" and "\<not> rdmnet_conn_failed c"
    and "world c = \<lparr>inbox = [], late = True, script = [CallConnect addr d]\<rparr>"
  shows "\<exists>c'. process_connection_state E sim_env c = Some c' \<and> conn_state c' = kRCConnStateConnectPending \<and>
     sent_connected_notification c' \<and> sock c' = None \<and> idle c' \<and> \<not> rdmnet_conn_failed c' \<and>
     timer_interval (backoff_timer c') = 0 \<and> inbox (world c') = [] \<and> script (world c') = [] \<and>
     trace c' = trace c @ [Delivered (disconnected kRdmnetDisconnectNoHeartbeat kEtcPalErrOk 0)]"
proof -
  have "receive_and_process_messages E sim_env c = Some c"
    using assms by (intro quiet_receive) (simp_all add: quiet_sim idle_def)
  with assms show ?thesis
    by (simp add: process_connection_state_def tick_state_def deliver_event_callback_def disconnected_def
        rc_conn_connect_def idle_def sim_reset)
qed

text \<open>
  A lost connection is reported twice. \<^verbatim>\<open>reset_connection\<close> does not clear
  \<^verbatim>\<open>sent_connected_notification\<close>. After a heartbeat timeout, which is reported as a disconnection, the owner
  connects again and then changes its mind before the TCP connection is there: it is told a second time
  that it was disconnected, although no connection had been established in between.
\<close>

lemma disconnection_reported_twice:
  "\<exists>c :: sim conn. conn_reachable etcpal_be sim_env c \<and>
     (\<exists>tr. trace c = tr @ [Delivered (disconnected kRdmnetDisconnectNoHeartbeat kEtcPalErrOk 0),
        Delivered (disconnected kRdmnetDisconnectGracefulLocalInitiated kEtcPalErrOk 0)])"
proof -
  from sim_healthy [of "[CallConnect sim_addr (client_connect blank_broker_message)]"] obtain c1 where
    "conn_reachable etcpal_be sim_env c1" and c1: "conn_state c1 = kRCConnStateHeartbeat" "sent_connected_notification c1" "idle c1"
    "sock c1 = Some 1" "timer_interval (backoff_timer c1) = 0" "\<not> rdmnet_conn_failed c1"
    "world c1 = \<lparr>inbox = [], late = True, script = [CallConnect sim_addr (client_connect blank_broker_message)]\<rparr>" by blast
  moreover from sim_times_out [OF c1, of etcpal_be] obtain c2 where
    "process_connection_state etcpal_be sim_env c1 = Some c2" and c2: "conn_state c2 = kRCConnStateConnectPending"
    "sock c2 = None" "idle c2" "\<not> rdmnet_conn_failed c2" "timer_interval (backoff_timer c2) = 0"
    "sent_connected_notification c2" "inbox (world c2) = []" "script (world c2) = []"
    "trace c2 = trace c1 @ [Delivered (disconnected kRdmnetDisconnectNoHeartbeat kEtcPalErrOk 0)]" by blast
  moreover define c3 where "c3 = c2\<lparr>conn_state := kRCConnStateTCPConnPending, sock := Some 1\<rparr>"
  moreover have "process_connection_state etcpal_be sim_env c2 = Some c3"
    unfolding c3_def by (rule sim_connects [OF c2(1-5)])
  moreover define c4 where "c4 = c3\<lparr>conn_state := kRCConnStateDisconnectPending\<rparr>"
  moreover have "do_conn_call etcpal_be sim_env c3 (CallDisconnect 0) = Some c4"
    by (simp add: rc_conn_disconnect_def c3_def c4_def)
  ultimately have reach: "conn_reachable etcpal_be sim_env c4" by (metis conn_reachable.step conn_step.call conn_step.tick)
  have "receive_and_process_messages etcpal_be sim_env c4 = Some c4"
    using c2 by (intro quiet_receive) (simp_all add: quiet_sim c3_def c4_def idle_def)
  moreover have "conn_state c4 = kRCConnStateDisconnectPending" "sent_connected_notification c4" "\<not> retry_current_message c4"
    "trace c4 = trace c2" "script (world c4) = []" using c2 by (simp_all add: c3_def c4_def idle_def)
  ultimately obtain c5 where "process_connection_state etcpal_be sim_env c4 = Some c5"
    and c5: "trace c5 = trace c2 @ [Delivered (disconnected kRdmnetDisconnectGracefulLocalInitiated kEtcPalErrOk 0)]"
    by (simp add: process_connection_state_def tick_state_def report_local_disconnect_def deliver_event_callback_def
        disconnected_def sim_reset)
  with reach have "conn_reachable etcpal_be sim_env c5" by (blast intro: conn_reachable.step conn_step.tick)
  with c5 c2(9) show ?thesis by (intro exI [of _ c5]) simp
qed

text \<open>
  C35. A message that was retried successfully is freed a second time. \<^verbatim>\<open>receive_and_process_messages\<close> clears
  \<^verbatim>\<open>retry_current_message\<close> of the connection only when it returns. If more data arrives, the
  retried message is delivered and freed, and the socket then fails, \<^verbatim>\<open>cleanup_connection_resources\<close> still sees the
  old flag and frees the same RDM buffers again; \<^verbatim>\<open>rc_free_message_resources\<close> has left their pointer in the message.
\<close>

theorem retried_message_freed_twice:
  assumes "etcpal_ok E" and "conn_state c = kRCConnStateHeartbeat" and "sock c = Some sk" and "retry_current_message c"
    and "mb_buf (recv_buf c) = []" and "\<not> have_preamble (recv_buf c)" and "mb_msg (recv_buf c) = msg"
    and "msg_vector msg = ACN_VECTOR_ROOT_RPT E" and "rm_vector (msg_rpt msg) = VECTOR_RPT_NOTIFICATION"
    and "entries (rm_rdm (msg_rpt msg)) \<noteq> []"
    and "e_recv env (sock c) (world c) RC_MSG_BUF_SIZE = (Received [x], w1)"
    and "e_recv env (sock c) w1 (RC_MSG_BUF_SIZE - 1) = (RecvError kEtcPalErrWouldBlock, w2)"
    and "cb_message_received env msg w2 = (kRCMessageActionProcessNext, [], w3)"
    and "e_recv env (sock c) w3 (RC_MSG_BUF_SIZE - 1) = (RecvError kEtcPalErrConnReset, w4)"
    and "cb_disconnected env \<lparr>di_event = kRdmnetDisconnectAbruptClose, di_socket_err = kEtcPalErrConnReset,
        di_rdmnet_reason = 0\<rparr> (e_close env sk (e_poll_remove env sk w4)) = ([], w5)"
  shows "\<exists>c'. receive_and_process_messages E env c = Some c' \<and>
     trace c' = trace c @ [Delivered (ConnEventMsgReceived msg), Freed [RdmBuffers] msg, Freed [RdmBuffers] msg,
       Delivered (disconnected kRdmnetDisconnectAbruptClose kEtcPalErrConnReset 0)]"
proof -
  define mb where "mb = (recv_buf c)\<lparr>mb_buf := [x]\<rparr>"
  define c1 where "c1 = c\<lparr>world := w2, recv_buf := mb\<rparr>"
  define c2 where "c2 = c1\<lparr>hb_timer := e_timer_reset env (hb_timer c) w2, world := w3,
    trace := trace c @ [Delivered (ConnEventMsgReceived msg), Freed [RdmBuffers] msg]\<rparr>"
  have ne: "ACN_VECTOR_ROOT_RPT E \<noteq> ACN_VECTOR_ROOT_BROKER E" using assms(1) by (simp add: etcpal_simps)
  have free: "rc_free_message_resources E msg = ([RdmBuffers], msg)"
    using assms(8-10) ne
    by (simp add: rc_free_message_resources_def free_rpt_message_def block_of_def)
  have "rc_msg_buf_recv (e_recv env (sock c)) (world c) (recv_buf c) = Some (kEtcPalErrOk, mb, w2)"
    using recv_bytes [of "e_recv env (sock c)" "world c" "recv_buf c" "[x]" w1 w2] assms(5,11,12) by (simp add: mb_def)
  moreover have "process_message E env c1 = Some (kRCMessageActionProcessNext, c2)"
    using assms(2,7,8,13) ne free
    by (simp add: process_message_def handle_message_def handle_rdmnet_message_def deliver_event_callback_def
        free_current_message_def c1_def c2_def mb_def)
  moreover have "process_loop E env False c2 = Some (kRCMessageActionProcessNext, c2)"
    using parse_short [OF assms(1), of mb "e_alloc env"] assms(6)
    by (simp add: process_loop.simps [of E env False c2]) (simp add: c1_def c2_def mb_def)
  ultimately have "receive_loop E env True c = receive_loop E env False c2"
    by (subst receive_loop.simps) (simp add: process_loop.simps [of E env True] c1_def)
  moreover have "rc_msg_buf_recv (e_recv env (sock c2)) (world c2) (recv_buf c2) = Some (kEtcPalErrConnReset, mb, w4)"
    using assms(14) recv_fails [of "e_recv env (sock c)" w3 mb kEtcPalErrConnReset w4]
    by (simp add: c1_def c2_def mb_def)
  moreover obtain c3 where "handle_socket_error E env (c2\<lparr>recv_buf := mb, world := w4\<rparr>) kEtcPalErrConnReset = Some c3"
    "trace c3 = trace c2 @ [Freed [RdmBuffers] msg, Delivered (disconnected kRdmnetDisconnectAbruptClose kEtcPalErrConnReset 0)]"
    using assms(2,3,4,7,15) free
    by (simp add: handle_socket_error_def reset_connection_def cleanup_connection_resources_def free_current_message_def
        deliver_event_callback_def disconnected_def c1_def c2_def mb_def)
  moreover from this(1) have "receive_loop E env False c2 = Some (kRCMessageActionProcessNext, c3)"
    using calculation(2) by (subst receive_loop.simps) simp
  moreover have "trace c2 = trace c @ [Delivered (ConnEventMsgReceived msg), Freed [RdmBuffers] msg]"
    by (simp add: c2_def)
  ultimately show ?thesis using assms(4) by (simp add: receive_and_process_messages_def)
qed

text \<open>A healthy connection that holds back a notification with one RDM response.\<close>

definition sim_notification :: RdmnetMessage where
  "sim_notification = blank_message\<lparr>msg_vector := 5,
     msg_rpt := (msg_rpt blank_message)\<lparr>rm_vector := VECTOR_RPT_NOTIFICATION, rm_rdm := \<lparr>entries = [[0xcc]], more_coming = False\<rparr>\<rparr>\<rparr>"

definition sim_retrying :: "sim conn" where
  "sim_retrying =
     (sim_waiting [Received [0], RecvError kEtcPalErrWouldBlock, RecvError kEtcPalErrConnReset] [])
       \<lparr>conn_state := kRCConnStateHeartbeat, retry_current_message := True,
        recv_buf := idle_buf\<lparr>mb_msg := sim_notification\<rparr>\<rparr>"

theorem retried_message_freed_twice_witness:
  "\<exists>c'. receive_and_process_messages etcpal_be sim_env sim_retrying = Some c' \<and>
     trace c' = trace sim_retrying @ [Delivered (ConnEventMsgReceived sim_notification), Freed [RdmBuffers] sim_notification,
       Freed [RdmBuffers] sim_notification,
       Delivered (disconnected kRdmnetDisconnectAbruptClose kEtcPalErrConnReset 0)]"
  by (rule retried_message_freed_twice [where sk = 1 and x = 0
        and ?w1.0 = "\<lparr>inbox = [RecvError kEtcPalErrWouldBlock, RecvError kEtcPalErrConnReset], late = False, script = []\<rparr>"
        and ?w2.0 = "\<lparr>inbox = [RecvError kEtcPalErrConnReset], late = False, script = []\<rparr>"
        and ?w3.0 = "\<lparr>inbox = [RecvError kEtcPalErrConnReset], late = False, script = []\<rparr>"
        and ?w4.0 = "\<lparr>inbox = [], late = False, script = []\<rparr>" and ?w5.0 = "\<lparr>inbox = [], late = False, script = []\<rparr>"])
    (simp_all add: sim_retrying_def sim_notification_def sim_recv_def idle_buf_def etcpal_simps)

section \<open>Further lemmas\<close>

text \<open>
  A message that arrives while a disconnection or reconnection is pending is neither delivered nor
  freed, and the loop goes on to the next one: its memory is lost.
\<close>

lemma message_dropped_unfreed:
  assumes "conn_state c \<notin> {kRCConnStateHeartbeat, kRCConnStateRDMnetConnPending}"
  shows "process_message E env c = Some (kRCMessageActionProcessNext, c)"
  using assms by (simp add: process_message_def deliver_event_callback_def)

text \<open>
  While the Connect Reply is awaited, the broker member of the message union is read whatever the
  root vector of the message is. If the bytes of a message of another protocol look like a Connect Reply with
  status OK, the handshake is complete.
\<close>

lemma other_protocol_completes_handshake:
  assumes "msg_vector (mb_msg (recv_buf c)) \<noteq> ACN_VECTOR_ROOT_BROKER E"
    and "bm_vector (e_union_broker env (mb_msg (recv_buf c))) = VECTOR_BROKER_CONNECT_REPLY"
    and "cr_connect_status (connect_reply (e_union_broker env (mb_msg (recv_buf c)))) = kRdmnetConnectOk"
  shows "conn_state (snd (handle_rdmnet_connect_result E env c)) = kRCConnStateHeartbeat"
  using assms by (simp add: handle_rdmnet_connect_result_def Let_def)

lemma connections_destroy_one [simp]: "connections (destroy_one E env i m) = connections m"
  by (simp add: destroy_one_def with_conn_def)

lemma trace_destroy_one:
  "\<exists>fx. trace (conn_of (destroy_one E env i m) i) = trace (conn_of m i) @ fx @ [Destroyed] \<and> Destroyed \<notin> set fx"
  "j \<noteq> i \<Longrightarrow> conn_of (destroy_one E env i m) j = conn_of m j"
  by (auto simp: destroy_one_def with_conn_def get_conn_def destroy_connection_def cleanup_connection_resources_def
      free_current_message_def Let_def split: option.split prod.split)

text \<open>
  The connections that have been marked for removal are destroyed by the next tick, each of them
  exactly once, however often it was marked.
\<close>

lemma destroyed_once:
  assumes "distinct is" and "i \<in> set is"
  shows "\<exists>fx. trace (conn_of (fold (destroy_one E env) is m) i) = trace (conn_of m i) @ fx @ [Destroyed] \<and> Destroyed \<notin> set fx"
  using assms
proof (induction "is" arbitrary: m)
  case (Cons j js)
  have other: "k \<notin> set ks \<Longrightarrow> conn_of (fold (destroy_one E env) ks m) k = conn_of m k" for k ks m
    by (induction ks arbitrary: m) (simp_all add: trace_destroy_one)
  show ?case
  proof (cases "i = j")
    case True
    with Cons.prems trace_destroy_one(1) [of E env i m] show ?thesis by (simp add: other)
  next
    case False
    with Cons.prems Cons.IH [of "destroy_one E env j m"] trace_destroy_one(2) [of i j E env m] show ?thesis by simp
  qed
qed simp

end
