(* ===== verification/Broker_Client.thy ===== *)
theory Broker_Client
  imports Broker_Prot Rpt_Prot Msg_Buf
begin

text \<open>
  The clients of the broker and their outgoing message queues, \<^verbatim>\<open>src/rdmnet/broker/broker_client.cpp\<close>.
  The classes are records that extend each other as the classes inherit; a \<^verbatim>\<open>std::deque\<close> is a list, a
  \<^verbatim>\<open>std::map\<close> an association list in ascending order of its keys. A message reference holds the packed
  bytes and how many of them have been sent.

  The socket is a parameter \<open>send\<close> as for \<^const>\<open>rc_send\<close>. A client's timers are read through \<open>expired\<close> and restarted
  with \<open>reset\<close>. A method that may wait forever in \<^const>\<open>rc_send\<close> gives \<^const>\<open>None\<close> then.
\<close>

section \<open>Messages and results\<close>

record MessageRef =
  mr_data :: bytes
  size_sent :: nat

datatype ClientPushResult = PushOk | PushQueueFull | PushError

datatype ClientDestroyAction = DoNothing | SendDisconnect u16 | SendConnectReply u16 | MarkSocketInvalid

abbreviation (input) kInvalidHandle :: int where "kInvalidHandle \<equiv> -1"
abbreviation (input) kLimitlessQueueSize :: nat where "kLimitlessQueueSize \<equiv> 0"
abbreviation (input) E133_VERSION :: u16 where "E133_VERSION \<equiv> 1"

definition BROKER_CONNECT_REPLY_FULL_MSG_SIZE :: "etcpal \<Rightarrow> nat" where
  "BROKER_CONNECT_REPLY_FULL_MSG_SIZE E = BROKER_PDU_FULL_HEADER_SIZE E + BROKER_CONNECT_REPLY_DATA_SIZE"

definition BROKER_DISCONNECT_FULL_MSG_SIZE :: "etcpal \<Rightarrow> nat" where
  "BROKER_DISCONNECT_FULL_MSG_SIZE E = BROKER_PDU_FULL_HEADER_SIZE E + DISCONNECT_DATA_SIZE"

text \<open>What every push does with a packed message: nothing packed is an error.\<close>

definition push_packed :: "MessageRef list \<Rightarrow> bytes \<Rightarrow> ClientPushResult \<times> MessageRef list" where
  "push_packed q d = (if d = [] then (PushError, q) else (PushOk, q @ [\<lparr>mr_data = d, size_sent = 0\<rparr>]))"

section \<open>The fair queue of a device\<close>

record RptMsgQ =
  total_msg_count :: nat
  rpt_msgs :: "(int \<times> MessageRef list) list"
  current_controller :: int

definition RptMsgQ_empty :: "RptMsgQ \<Rightarrow> bool" where
  "RptMsgQ_empty q \<longleftrightarrow> total_msg_count q = 0"

definition RptMsgQ_size :: "RptMsgQ \<Rightarrow> nat" where
  "RptMsgQ_size q = total_msg_count q"

text \<open>\<^verbatim>\<open>std::map::upper_bound\<close>, or the beginning if that is the end.\<close>

fun upper_bound_index :: "(int \<times> 'v) list \<Rightarrow> int \<Rightarrow> nat" where
  "upper_bound_index [] k = 0"
| "upper_bound_index ((k', v) # m) k = (if k < k' then 0 else Suc (upper_bound_index m k))"

definition start_index :: "(int \<times> 'v) list \<Rightarrow> int \<Rightarrow> nat" where
  "start_index m k = (let i = upper_bound_index m k in if i = length m then 0 else i)"

text \<open>
  The search of \<^verbatim>\<open>front\<close>: round the map until the controller served last or one with messages is found.
  It does not end if there is neither.
\<close>

partial_function (option) front_loop :: "(int \<times> MessageRef list) list \<Rightarrow> int \<Rightarrow> nat \<Rightarrow> nat option" where
  "front_loop m current i =
     (if fst (m ! i) = current then Some i
      else if snd (m ! i) \<noteq> [] then Some i
      else front_loop m current (if Suc i = length m then 0 else Suc i))"

text \<open>The result is the controller whose first message is the front, if there is one.\<close>

definition RptMsgQ_front :: "RptMsgQ \<Rightarrow> (int option \<times> RptMsgQ) option" where
  "RptMsgQ_front q =
     (let m = rpt_msgs q in
      if m = [] then Some (None, q)
      else do {
        i \<leftarrow> front_loop m (current_controller q) (start_index m (current_controller q));
        Some (if snd (m ! i) \<noteq> [] then (Some (fst (m ! i)), q\<lparr>current_controller := fst (m ! i)\<rparr>) else (None, q))
      })"

text \<open>Access to an entry of a \<^verbatim>\<open>std::map\<close> with \<^verbatim>\<open>operator[]\<close>, which creates it if need be.\<close>

fun smap_update :: "int \<Rightarrow> (MessageRef list \<Rightarrow> MessageRef list) \<Rightarrow> (int \<times> MessageRef list) list \<Rightarrow> (int \<times> MessageRef list) list" where
  "smap_update k f [] = [(k, f [])]"
| "smap_update k f ((k', v) # m) =
     (if k = k' then (k', f v) # m else if k < k' then (k, f []) # (k', v) # m else (k', v) # smap_update k f m)"

definition RptMsgQ_pop_front :: "RptMsgQ \<Rightarrow> RptMsgQ" where
  "RptMsgQ_pop_front q =
     (if current_controller q \<noteq> kInvalidHandle
      then q\<lparr>rpt_msgs := smap_update (current_controller q) tl (rpt_msgs q), total_msg_count := csub (total_msg_count q) 1\<rparr>
      else q)"

definition RptMsgQ_push_back :: "RptMsgQ \<Rightarrow> int \<Rightarrow> MessageRef \<Rightarrow> RptMsgQ" where
  "RptMsgQ_push_back q controller value =
     q\<lparr>rpt_msgs := smap_update controller (\<lambda>d. d @ [value]) (rpt_msgs q), total_msg_count := total_msg_count q + 1\<rparr>"

definition RemoveCurrentController :: "RptMsgQ \<Rightarrow> RptMsgQ" where
  "RemoveCurrentController q =
     (case map_of (rpt_msgs q) (current_controller q) of
        None \<Rightarrow> q
      | Some d \<Rightarrow> q\<lparr>total_msg_count := csub (total_msg_count q) (length d),
                   rpt_msgs := filter (\<lambda>(k, _). k \<noteq> current_controller q) (rpt_msgs q)\<rparr>)"

definition RptMsgQ_clear :: "RptMsgQ \<Rightarrow> RptMsgQ" where
  "RptMsgQ_clear q = q\<lparr>rpt_msgs := [], total_msg_count := 0, current_controller := kInvalidHandle\<rparr>"

section \<open>Clients\<close>

record BrokerClient =
  bc_cid :: EtcPalUuid
  bc_client_protocol :: u32
  bc_handle :: int
  bc_socket :: "nat option"
  max_q_size :: nat
  marked_for_destruction :: bool
  broker_msgs :: "MessageRef list"
  bc_send_timer :: EtcPalTimer
  bc_heartbeat_timer :: EtcPalTimer

record RPTClient = BrokerClient +
  rc_uid :: RdmUid
  rc_client_type :: u32
  rc_binding_cid :: EtcPalUuid
  status_msgs :: "MessageRef list"

record RPTController = RPTClient +
  con_rpt_msgs :: "MessageRef list"

record RPTDevice = RPTClient +
  dev_rpt_msgs :: RptMsgQ

text \<open>
  The constructors. The copy constructor of \<^verbatim>\<open>BrokerClient\<close> does not copy the queue and the timers; the
  timers are started anew, which is the argument \<open>start\<close>.
\<close>

definition new_BrokerClient :: "(u32 \<Rightarrow> EtcPalTimer) \<Rightarrow> int \<Rightarrow> nat option \<Rightarrow> nat \<Rightarrow> BrokerClient" where
  "new_BrokerClient start handle sock q_size =
     \<lparr>bc_cid = [], bc_client_protocol = kClientProtocolUnknown, bc_handle = handle, bc_socket = sock,
      max_q_size = q_size, marked_for_destruction = False, broker_msgs = [],
      bc_send_timer = start 15000, bc_heartbeat_timer = start 45000\<rparr>"

definition new_RPTController ::
  "(u32 \<Rightarrow> EtcPalTimer) \<Rightarrow> nat \<Rightarrow> RdmnetRptClientEntry \<Rightarrow> 'a BrokerClient_scheme \<Rightarrow> RPTController" where
  "new_RPTController start q_size ce prev =
     \<lparr>bc_cid = ce_cid ce, bc_client_protocol = kClientProtocolRPT, bc_handle = bc_handle prev, bc_socket = bc_socket prev,
      max_q_size = q_size, marked_for_destruction = False, broker_msgs = [],
      bc_send_timer = start 15000, bc_heartbeat_timer = start 45000,
      rc_uid = ce_uid ce, rc_client_type = ce_type ce, rc_binding_cid = ce_binding_cid ce, status_msgs = [],
      con_rpt_msgs = []\<rparr>"

definition new_RPTDevice ::
  "(u32 \<Rightarrow> EtcPalTimer) \<Rightarrow> nat \<Rightarrow> RdmnetRptClientEntry \<Rightarrow> 'a BrokerClient_scheme \<Rightarrow> RPTDevice" where
  "new_RPTDevice start q_size ce prev =
     \<lparr>bc_cid = ce_cid ce, bc_client_protocol = kClientProtocolRPT, bc_handle = bc_handle prev, bc_socket = bc_socket prev,
      max_q_size = q_size, marked_for_destruction = False, broker_msgs = [],
      bc_send_timer = start 15000, bc_heartbeat_timer = start 45000,
      rc_uid = ce_uid ce, rc_client_type = ce_type ce, rc_binding_cid = ce_binding_cid ce, status_msgs = [],
      dev_rpt_msgs = \<lparr>total_msg_count = 0, rpt_msgs = [], current_controller = kInvalidHandle\<rparr>\<rparr>"

section \<open>Broker messages\<close>

definition BrokerClient_HasRoomToPush :: "'a BrokerClient_scheme \<Rightarrow> bool" where
  "BrokerClient_HasRoomToPush c \<longleftrightarrow> max_q_size c = kLimitlessQueueSize \<or> length (broker_msgs c) < max_q_size c"

definition pack_broker_message :: "etcpal \<Rightarrow> EtcPalUuid \<Rightarrow> BrokerMessage \<Rightarrow> bytes" where
  "pack_broker_message E cid msg =
     (if bm_vector msg = VECTOR_BROKER_CONNECT_REPLY
      then rc_broker_pack_connect_reply E (BROKER_CONNECT_REPLY_FULL_MSG_SIZE E) cid (connect_reply msg)
      else if bm_vector msg = VECTOR_BROKER_CONNECTED_CLIENT_LIST \<or> bm_vector msg = VECTOR_BROKER_CLIENT_ADD \<or>
              bm_vector msg = VECTOR_BROKER_CLIENT_REMOVE \<or> bm_vector msg = VECTOR_BROKER_CLIENT_ENTRY_CHANGE
      then (if cl_client_protocol (client_list msg) = kClientProtocolRPT
            then (let l = entries (cl_rpt (client_list msg)) in
                  rc_broker_pack_rpt_client_list E (rc_broker_get_rpt_client_list_buffer_size E (length l)) cid (bm_vector msg) l)
            else [])
      else if bm_vector msg = VECTOR_BROKER_DISCONNECT
      then rc_broker_pack_disconnect E (BROKER_DISCONNECT_FULL_MSG_SIZE E) cid (disconnect_reason msg)
      else [])"

definition BrokerClient_PushPostSizeCheck ::
  "etcpal \<Rightarrow> 'a BrokerClient_scheme \<Rightarrow> EtcPalUuid \<Rightarrow> BrokerMessage \<Rightarrow> ClientPushResult \<times> 'a BrokerClient_scheme" where
  "BrokerClient_PushPostSizeCheck E c cid msg =
     (if marked_for_destruction c then (PushError, c)
      else case push_packed (broker_msgs c) (pack_broker_message E cid msg) of
        (res, q) \<Rightarrow> (res, c\<lparr>broker_msgs := q\<rparr>))"

text \<open>\<open>room\<close> is the virtual method \<^verbatim>\<open>HasRoomToPush\<close> of the client's class.\<close>

definition push_broker ::
  "('a BrokerClient_scheme \<Rightarrow> bool) \<Rightarrow> etcpal \<Rightarrow> 'a BrokerClient_scheme \<Rightarrow> EtcPalUuid \<Rightarrow> BrokerMessage
   \<Rightarrow> ClientPushResult \<times> 'a BrokerClient_scheme" where
  "push_broker room E c cid msg =
     (if marked_for_destruction c then (PushError, c)
      else if \<not> room c then (PushQueueFull, c)
      else BrokerClient_PushPostSizeCheck E c cid msg)"

definition BrokerClient_Push ::
  "etcpal \<Rightarrow> BrokerClient \<Rightarrow> EtcPalUuid \<Rightarrow> BrokerMessage \<Rightarrow> ClientPushResult \<times> BrokerClient" where
  "BrokerClient_Push E c cid msg = push_broker BrokerClient_HasRoomToPush E c cid msg"

section \<open>Sending\<close>

text \<open>
  Sending the first message of a queue: an error, or whether the message is done. What has been
  taken of it is counted; a message that is done leaves the queue.
\<close>

definition send_front ::
  "('s \<Rightarrow> bytes \<Rightarrow> (etcpal_error_t + nat) \<times> 's) \<Rightarrow> 's \<Rightarrow> MessageRef list
   \<Rightarrow> ((etcpal_error_t + bool) \<times> MessageRef list \<times> 's) option" where
  "send_front send s q =
     (let msg = hd q in
      do {
        (res, s') \<leftarrow> rc_send send s (drop (size_sent msg) (mr_data msg));
        Some (case res of
            Inl e \<Rightarrow> (Inl e, q, s')
          | Inr n \<Rightarrow>
              (let msg' = msg\<lparr>size_sent := size_sent msg + n\<rparr> in
               if size_sent msg' \<ge> length (mr_data msg') then (Inr True, tl q, s') else (Inr False, msg' # tl q, s')))
      })"

definition SendNull ::
  "etcpal \<Rightarrow> ('s \<Rightarrow> bytes \<Rightarrow> (etcpal_error_t + nat) \<times> 's) \<Rightarrow> 's \<Rightarrow> EtcPalUuid \<Rightarrow> (bool \<times> 's) option" where
  "SendNull E send s broker_cid = do {
     (res, s') \<leftarrow> rc_send send s (rc_broker_pack_null E (BROKER_PDU_FULL_HEADER_SIZE E) broker_cid);
     Some (isl res = False, s')
   }"

text \<open>What every client does when it has nothing to send.\<close>

definition send_heartbeat ::
  "etcpal \<Rightarrow> ('s \<Rightarrow> bytes \<Rightarrow> (etcpal_error_t + nat) \<times> 's) \<Rightarrow> (EtcPalTimer \<Rightarrow> bool) \<Rightarrow> (EtcPalTimer \<Rightarrow> EtcPalTimer) \<Rightarrow> 's
   \<Rightarrow> 'a BrokerClient_scheme \<Rightarrow> EtcPalUuid \<Rightarrow> (bool \<times> 'a BrokerClient_scheme \<times> 's) option" where
  "send_heartbeat E send expired reset s c broker_cid =
     (if expired (bc_send_timer c) then do {
        (ok, s') \<leftarrow> SendNull E send s broker_cid;
        Some (if ok then (True, c\<lparr>bc_send_timer := reset (bc_send_timer c)\<rparr>, s') else (False, c, s'))
      }
      else Some (False, c, s))"

definition BrokerClient_Send ::
  "etcpal \<Rightarrow> ('s \<Rightarrow> bytes \<Rightarrow> (etcpal_error_t + nat) \<times> 's) \<Rightarrow> (EtcPalTimer \<Rightarrow> bool) \<Rightarrow> (EtcPalTimer \<Rightarrow> EtcPalTimer) \<Rightarrow> 's
   \<Rightarrow> BrokerClient \<Rightarrow> EtcPalUuid \<Rightarrow> (bool \<times> BrokerClient \<times> 's) option" where
  "BrokerClient_Send E send expired reset s c broker_cid =
     (if broker_msgs c \<noteq> [] then do {
        (res, q, s') \<leftarrow> send_front send s (broker_msgs c);
        Some (\<not> isl res, c\<lparr>broker_msgs := q\<rparr>, s')
      }
      else send_heartbeat E send expired reset s c broker_cid)"

section \<open>Destruction\<close>

text \<open>\<open>push\<close> and \<open>clear\<close> are the virtual methods \<^verbatim>\<open>Push\<close> and \<^verbatim>\<open>ClearAllQueues\<close> of the client's class.\<close>

definition ApplyDestroyAction ::
  "('a BrokerClient_scheme \<Rightarrow> EtcPalUuid \<Rightarrow> BrokerMessage \<Rightarrow> ClientPushResult \<times> 'a BrokerClient_scheme)
   \<Rightarrow> 'a BrokerClient_scheme \<Rightarrow> EtcPalUuid \<Rightarrow> RdmUid \<Rightarrow> ClientDestroyAction \<Rightarrow> 'a BrokerClient_scheme" where
  "ApplyDestroyAction push c broker_cid broker_uid action =
     (case action of
        SendConnectReply status \<Rightarrow>
          snd (push c broker_cid (blank_broker_message\<lparr>bm_vector := VECTOR_BROKER_CONNECT_REPLY,
            connect_reply := \<lparr>cr_connect_status = status, cr_e133_version = E133_VERSION,
              cr_broker_uid = broker_uid, cr_client_uid = blank_uid\<rparr>\<rparr>))
      | SendDisconnect reason \<Rightarrow>
          snd (push c broker_cid (blank_broker_message\<lparr>bm_vector := VECTOR_BROKER_DISCONNECT,
            disconnect_reason := reason\<rparr>))
      | MarkSocketInvalid \<Rightarrow> c\<lparr>bc_socket := None\<rparr>
      | DoNothing \<Rightarrow> c)"

definition MarkForDestruction ::
  "('a BrokerClient_scheme \<Rightarrow> EtcPalUuid \<Rightarrow> BrokerMessage \<Rightarrow> ClientPushResult \<times> 'a BrokerClient_scheme)
   \<Rightarrow> ('a BrokerClient_scheme \<Rightarrow> 'a BrokerClient_scheme)
   \<Rightarrow> 'a BrokerClient_scheme \<Rightarrow> EtcPalUuid \<Rightarrow> RdmUid \<Rightarrow> ClientDestroyAction \<Rightarrow> 'a BrokerClient_scheme" where
  "MarkForDestruction push clear c broker_cid broker_uid action =
     (ApplyDestroyAction push (clear c) broker_cid broker_uid action)\<lparr>marked_for_destruction := True\<rparr>"

definition BrokerClient_ClearAllQueues :: "BrokerClient \<Rightarrow> BrokerClient" where
  "BrokerClient_ClearAllQueues c = c\<lparr>broker_msgs := []\<rparr>"

section \<open>RPT clients\<close>

definition RPTClient_PushPostSizeCheck ::
  "etcpal \<Rightarrow> 'a RPTClient_scheme \<Rightarrow> EtcPalUuid \<Rightarrow> RptHeader \<Rightarrow> RptStatusMsg \<Rightarrow> ClientPushResult \<times> 'a RPTClient_scheme" where
  "RPTClient_PushPostSizeCheck E c cid header msg =
     (case push_packed (status_msgs c) (rc_rpt_pack_status E (rc_rpt_get_status_buffer_size E msg) cid header msg) of
        (res, q) \<Rightarrow> (res, c\<lparr>status_msgs := q\<rparr>))"

text \<open>The first RDM command of a request; without one there is nothing to pack.\<close>

definition pack_first_request :: "etcpal \<Rightarrow> EtcPalUuid \<Rightarrow> RptMessage \<Rightarrow> bytes" where
  "pack_first_request E cid msg =
     (case entries (rm_rdm msg) of
        [] \<Rightarrow> []
      | cmd # _ \<Rightarrow> rc_rpt_pack_request E (rc_rpt_get_request_buffer_size E cmd) cid (rm_header msg) cmd)"

section \<open>Controllers\<close>

definition RPTController_HasRoomToPush :: "RPTController \<Rightarrow> bool" where
  "RPTController_HasRoomToPush c \<longleftrightarrow> max_q_size c = kLimitlessQueueSize \<or>
     length (status_msgs c) + length (broker_msgs c) + length (con_rpt_msgs c) < max_q_size c"

definition RPTController_Push_rpt ::
  "etcpal \<Rightarrow> RPTController \<Rightarrow> EtcPalUuid \<Rightarrow> RptMessage \<Rightarrow> ClientPushResult \<times> RPTController" where
  "RPTController_Push_rpt E c cid msg =
     (if marked_for_destruction c then (PushError, c)
      else if \<not> RPTController_HasRoomToPush c then (PushQueueFull, c)
      else if rm_vector msg = VECTOR_RPT_REQUEST then
        (case push_packed (con_rpt_msgs c) (pack_first_request E cid msg) of (res, q) \<Rightarrow> (res, c\<lparr>con_rpt_msgs := q\<rparr>))
      else if rm_vector msg = VECTOR_RPT_STATUS then RPTClient_PushPostSizeCheck E c cid (rm_header msg) (rm_status msg)
      else if rm_vector msg = VECTOR_RPT_NOTIFICATION then
        (let cmds = entries (rm_rdm msg) in
         case push_packed (con_rpt_msgs c)
                (rc_rpt_pack_notification E (rc_rpt_get_notification_buffer_size E cmds) cid (rm_header msg) cmds) of
           (res, q) \<Rightarrow> (res, c\<lparr>con_rpt_msgs := q\<rparr>))
      else (PushError, c))"

definition RPTController_Push_broker ::
  "etcpal \<Rightarrow> RPTController \<Rightarrow> EtcPalUuid \<Rightarrow> BrokerMessage \<Rightarrow> ClientPushResult \<times> RPTController" where
  "RPTController_Push_broker E c cid msg = push_broker RPTController_HasRoomToPush E c cid msg"

definition RPTController_Push_status ::
  "etcpal \<Rightarrow> RPTController \<Rightarrow> EtcPalUuid \<Rightarrow> RptHeader \<Rightarrow> RptStatusMsg \<Rightarrow> ClientPushResult \<times> RPTController" where
  "RPTController_Push_status E c cid header msg =
     (if marked_for_destruction c then (PushError, c)
      else if \<not> RPTController_HasRoomToPush c then (PushQueueFull, c)
      else RPTClient_PushPostSizeCheck E c cid header msg)"

text \<open>Broker messages are first priority, then status messages, then RPT messages.\<close>

definition RPTController_Send ::
  "etcpal \<Rightarrow> ('s \<Rightarrow> bytes \<Rightarrow> (etcpal_error_t + nat) \<times> 's) \<Rightarrow> (EtcPalTimer \<Rightarrow> bool) \<Rightarrow> (EtcPalTimer \<Rightarrow> EtcPalTimer) \<Rightarrow> 's
   \<Rightarrow> RPTController \<Rightarrow> EtcPalUuid \<Rightarrow> (bool \<times> RPTController \<times> 's) option" where
  "RPTController_Send E send expired reset s c broker_cid =
     (let sent = (\<lambda>res c'. if res = Inr True then c'\<lparr>bc_send_timer := reset (bc_send_timer c)\<rparr> else c') in
      if broker_msgs c \<noteq> [] then do {
        (res, q, s') \<leftarrow> send_front send s (broker_msgs c);
        Some (\<not> isl res, sent res (c\<lparr>broker_msgs := q\<rparr>), s')
      }
      else if status_msgs c \<noteq> [] then do {
        (res, q, s') \<leftarrow> send_front send s (status_msgs c);
        Some (\<not> isl res, sent res (c\<lparr>status_msgs := q\<rparr>), s')
      }
      else if con_rpt_msgs c \<noteq> [] then do {
        (res, q, s') \<leftarrow> send_front send s (con_rpt_msgs c);
        Some (\<not> isl res, sent res (c\<lparr>con_rpt_msgs := q\<rparr>), s')
      }
      else send_heartbeat E send expired reset s c broker_cid)"

definition RPTController_ClearAllQueues :: "RPTController \<Rightarrow> RPTController" where
  "RPTController_ClearAllQueues c = c\<lparr>con_rpt_msgs := [], status_msgs := [], broker_msgs := []\<rparr>"

section \<open>Devices\<close>

definition RPTDevice_HasRoomToPush :: "RPTDevice \<Rightarrow> bool" where
  "RPTDevice_HasRoomToPush c \<longleftrightarrow> max_q_size c = kLimitlessQueueSize \<or>
     length (status_msgs c) + length (broker_msgs c) + RptMsgQ_size (dev_rpt_msgs c) < max_q_size c"

definition RPTDevice_Push_rpt ::
  "etcpal \<Rightarrow> RPTDevice \<Rightarrow> int \<Rightarrow> EtcPalUuid \<Rightarrow> RptMessage \<Rightarrow> ClientPushResult \<times> RPTDevice" where
  "RPTDevice_Push_rpt E c from_client cid msg =
     (if marked_for_destruction c then (PushError, c)
      else if \<not> RPTDevice_HasRoomToPush c then (PushQueueFull, c)
      else if rm_vector msg = VECTOR_RPT_STATUS then RPTClient_PushPostSizeCheck E c cid (rm_header msg) (rm_status msg)
      else if rm_vector msg = VECTOR_RPT_REQUEST then
        (let d = pack_first_request E cid msg in
         if d = [] then (PushError, c)
         else (PushOk, c\<lparr>dev_rpt_msgs :=
                 RptMsgQ_push_back (dev_rpt_msgs c) from_client \<lparr>mr_data = d, size_sent = 0\<rparr>\<rparr>))
      else (PushError, c))"

definition RPTDevice_Push_broker ::
  "etcpal \<Rightarrow> RPTDevice \<Rightarrow> EtcPalUuid \<Rightarrow> BrokerMessage \<Rightarrow> ClientPushResult \<times> RPTDevice" where
  "RPTDevice_Push_broker E c cid msg = push_broker RPTDevice_HasRoomToPush E c cid msg"

text \<open>
  Sending the front of the fair queue. The message is changed in place in the queue of the controller
  that \<^verbatim>\<open>front\<close> has made the current one; an error removes that controller. The error is never
  \<^const>\<open>kEtcPalErrWouldBlock\<close>, for which \<^const>\<open>rc_send\<close> tries again.
\<close>

definition send_fair ::
  "('s \<Rightarrow> bytes \<Rightarrow> (etcpal_error_t + nat) \<times> 's) \<Rightarrow> 's \<Rightarrow> RptMsgQ \<Rightarrow> int
   \<Rightarrow> ((etcpal_error_t + bool) \<times> RptMsgQ \<times> 's) option" where
  "send_fair send s q k = do {
     (res, d, s') \<leftarrow> send_front send s (the (map_of (rpt_msgs q) k));
     Some (res,
       (case res of
          Inl e \<Rightarrow> if e \<noteq> kEtcPalErrWouldBlock then RemoveCurrentController q else q
        | Inr True \<Rightarrow> RptMsgQ_pop_front q
        | Inr False \<Rightarrow> q\<lparr>rpt_msgs := smap_update k (\<lambda>_. d) (rpt_msgs q)\<rparr>),
       s')
   }"

definition RPTDevice_Send ::
  "etcpal \<Rightarrow> ('s \<Rightarrow> bytes \<Rightarrow> (etcpal_error_t + nat) \<times> 's) \<Rightarrow> (EtcPalTimer \<Rightarrow> bool) \<Rightarrow> (EtcPalTimer \<Rightarrow> EtcPalTimer) \<Rightarrow> 's
   \<Rightarrow> RPTDevice \<Rightarrow> EtcPalUuid \<Rightarrow> (bool \<times> RPTDevice \<times> 's) option" where
  "RPTDevice_Send E send expired reset s c broker_cid =
     (let sent = (\<lambda>res c'. if res = Inr True then c'\<lparr>bc_send_timer := reset (bc_send_timer c)\<rparr> else c') in
      if broker_msgs c \<noteq> [] then do {
        (res, q, s') \<leftarrow> send_front send s (broker_msgs c);
        Some (\<not> isl res, sent res (c\<lparr>broker_msgs := q\<rparr>), s')
      }
      else if \<not> RptMsgQ_empty (dev_rpt_msgs c) then do {
        (front, q) \<leftarrow> RptMsgQ_front (dev_rpt_msgs c);
        (case front of
           None \<Rightarrow> send_heartbeat E send expired reset s (c\<lparr>dev_rpt_msgs := q\<rparr>) broker_cid
         | Some k \<Rightarrow> do {
             (res, q', s') \<leftarrow> send_fair send s q k;
             Some (\<not> isl res, sent res (c\<lparr>dev_rpt_msgs := q'\<rparr>), s')
           })
      }
      else send_heartbeat E send expired reset s c broker_cid)"

definition RPTDevice_ClearAllQueues :: "RPTDevice \<Rightarrow> RPTDevice" where
  "RPTDevice_ClearAllQueues c = c\<lparr>dev_rpt_msgs := RptMsgQ_clear (dev_rpt_msgs c), status_msgs := [], broker_msgs := []\<rparr>"

end
