(* ===== verification/Broker_Client_Properties.thy ===== *)
theory Broker_Client_Properties
  imports Broker_Client Roundtrip
begin

text \<open>
  Properties of the outgoing queues of the broker's clients: the fair queue of a device serves the
  controllers in turn, sending from it always returns, the queues stay within their bounds, and the
  queue of broker messages is a first-in first-out queue of bytes. The last section shows that
  messages of different queues are mixed on a socket that takes them in pieces.
\<close>

section \<open>Ordered maps\<close>

definition ordered :: "(int \<times> 'v) list \<Rightarrow> bool" where
  "ordered m \<longleftrightarrow> sorted_wrt (<) (map fst m)"

lemma ordered_Cons [simp]: "ordered ((k, v) # m) \<longleftrightarrow> (\<forall>x \<in> fst ` set m. k < x) \<and> ordered m"
  by (simp add: ordered_def)

lemma ordered_Nil [simp]: "ordered []"
  by (simp add: ordered_def)

lemma ordered_distinct: "ordered m \<Longrightarrow> distinct (map fst m)"
  by (simp add: ordered_def strict_sorted_iff)

lemma keys_smap_update [simp]: "fst ` set (smap_update k f m) = insert k (fst ` set m)"
  by (induction k f m rule: smap_update.induct) auto

lemma ordered_smap_update: "ordered m \<Longrightarrow> ordered (smap_update k f m)"
proof (induction k f m rule: smap_update.induct)
  case (2 k f k' v m)
  have "\<forall>x \<in> fst ` set (smap_update k f m). k' < x" if "\<not> k < k'" "k \<noteq> k'"
    unfolding keys_smap_update using that 2(2) by auto
  with 2 show ?case by auto
qed simp

abbreviation (input) the_queue :: "MessageRef list option \<Rightarrow> MessageRef list" where
  "the_queue d \<equiv> (case d of None \<Rightarrow> [] | Some d \<Rightarrow> d)"

lemma map_of_smap_update:
  "ordered m \<Longrightarrow> map_of (smap_update k f m) = (map_of m)(k \<mapsto> f (the_queue (map_of m k)))"
proof (induction k f m rule: smap_update.induct)
  case (2 k f k' v m)
  have "map_of m k = None" if "k < k'" using that 2(2) by (fastforce simp: map_of_eq_None_iff)
  with 2 show ?case by (auto simp: fun_eq_iff)
qed auto

lemma ordered_filter: "ordered m \<Longrightarrow> ordered (filter P m)"
  unfolding ordered_def sorted_wrt_map by (rule sorted_wrt_filter)

section \<open>The fair queue\<close>

definition queued :: "(int \<times> MessageRef list) list \<Rightarrow> nat" where
  "queued m = sum_list (map (length \<circ> snd) m)"

lemma queued_simps [simp]: "queued [] = 0" "queued ((k, d) # m) = length d + queued m"
  by (simp_all add: queued_def)

lemma queued_smap_update:
  "ordered m \<Longrightarrow> queued (smap_update k f m) + length (the_queue (map_of m k)) =
     queued m + length (f (the_queue (map_of m k)))"
proof (induction k f m rule: smap_update.induct)
  case (2 k f k' v m)
  have "map_of m k = None" if "k < k'" using that 2(2) by (fastforce simp: map_of_eq_None_iff)
  with 2 show ?case by auto
qed simp

lemma queued_filter:
  "ordered m \<Longrightarrow> queued (filter (\<lambda>(k', _). k' \<noteq> k) m) + length (the_queue (map_of m k)) = queued m"
proof (induction m)
  case (Cons e m)
  obtain k' d where e: "e = (k', d)" by fastforce
  have "filter (\<lambda>(k', _). k' \<noteq> k) m = m" if "k = k'" using that Cons.prems by (auto simp: e intro!: filter_True)
  with Cons show ?case by (auto simp: e)
qed simp

text \<open>
  The map is in order, the count is that of the messages in it, and no controller has the invalid
  handle.
\<close>

definition q_ok :: "RptMsgQ \<Rightarrow> bool" where
  "q_ok q \<longleftrightarrow> ordered (rpt_msgs q) \<and> total_msg_count q = queued (rpt_msgs q) \<and>
     kInvalidHandle \<notin> fst ` set (rpt_msgs q)"

definition ready :: "RptMsgQ \<Rightarrow> int set" where
  "ready q = {k. the_queue (map_of (rpt_msgs q) k) \<noteq> []}"

lemma ready_keys: "k \<in> ready q \<Longrightarrow> k \<in> fst ` set (rpt_msgs q)"
  by (auto simp: ready_def split: option.splits dest: map_of_SomeD) (force dest: map_of_SomeD)

lemma finite_ready [simp]: "finite (ready q)"
  by (rule finite_subset [of _ "fst ` set (rpt_msgs q)"]) (auto dest: ready_keys)

lemma ready_nth:
  assumes "ordered (rpt_msgs q)" and "i < length (rpt_msgs q)"
  shows "fst (rpt_msgs q ! i) \<in> ready q \<longleftrightarrow> snd (rpt_msgs q ! i) \<noteq> []"
  using assms map_of_is_SomeI [OF ordered_distinct [OF assms(1)], of "fst (rpt_msgs q ! i)" "snd (rpt_msgs q ! i)"]
  by (simp add: ready_def)

lemma ready_empty: "q_ok q \<Longrightarrow> ready q = {} \<longleftrightarrow> total_msg_count q = 0"
proof -
  assume q: "q_ok q"
  have "queued (rpt_msgs q) = 0 \<longleftrightarrow> (\<forall>e \<in> set (rpt_msgs q). snd e = [])" by (auto simp: queued_def)
  also have "\<dots> \<longleftrightarrow> (\<forall>i < length (rpt_msgs q). fst (rpt_msgs q ! i) \<notin> ready q)"
    using q by (auto simp: q_ok_def ready_nth all_set_conv_all_nth)
  also have "\<dots> \<longleftrightarrow> ready q = {}"
    using ready_keys [of _ q] by (force simp: in_set_conv_nth)
  finally show ?thesis using q by (simp add: q_ok_def)
qed

text \<open>The search passes controllers without messages and stops at the first one that has some.\<close>

lemma front_loop_stops:
  assumes "i \<le> j" and "\<And>l. i \<le> l \<Longrightarrow> l < j \<Longrightarrow> fst (m ! l) \<noteq> cur \<and> snd (m ! l) = []"
    and "j < length m" and "snd (m ! j) \<noteq> []"
  shows "front_loop m cur i = Some j"
  using assms
proof (induction "j - i" arbitrary: i)
  case 0
  then show ?case by (subst front_loop.simps) simp
next
  case (Suc n)
  then have "i < j" by simp
  with Suc.prems have "fst (m ! i) \<noteq> cur" "snd (m ! i) = []" "Suc i \<noteq> length m" by auto
  moreover have "front_loop m cur (Suc i) = Some j" using Suc.hyps(2) Suc.prems \<open>i < j\<close> by (intro Suc.hyps(1)) auto
  ultimately show ?case by (subst front_loop.simps) simp
qed

lemma front_loop_wraps:
  assumes "i < length m" and "\<And>l. i \<le> l \<Longrightarrow> l < length m \<Longrightarrow> fst (m ! l) \<noteq> cur \<and> snd (m ! l) = []"
  shows "front_loop m cur i = front_loop m cur 0"
  using assms
proof (induction "length m - i" arbitrary: i)
  case (Suc n)
  then have "fst (m ! i) \<noteq> cur" "snd (m ! i) = []" by auto
  moreover have "front_loop m cur (Suc i) = front_loop m cur 0" if "Suc i \<noteq> length m"
    using that Suc.hyps(2) Suc.prems by (intro Suc.hyps(1)) auto
  ultimately show ?case by (subst front_loop.simps) simp
qed simp

lemma upper_bound_split:
  assumes "ordered m"
  shows "upper_bound_index m k \<le> length m" "l < upper_bound_index m k \<Longrightarrow> fst (m ! l) \<le> k"
    "upper_bound_index m k \<le> l \<Longrightarrow> l < length m \<Longrightarrow> k < fst (m ! l)"
proof -
  show "upper_bound_index m k \<le> length m" by (induction m k rule: upper_bound_index.induct) auto
  show "l < upper_bound_index m k \<Longrightarrow> fst (m ! l) \<le> k"
    by (induction m k arbitrary: l rule: upper_bound_index.induct) (auto simp: nth_Cons split: nat.splits if_splits)
  show "upper_bound_index m k \<le> l \<Longrightarrow> l < length m \<Longrightarrow> k < fst (m ! l)"
    using assms
    by (induction m k arbitrary: l rule: upper_bound_index.induct)
      (auto simp: nth_Cons split: nat.splits if_splits dest!: nth_mem)
qed

lemma ordered_nth: "ordered m \<Longrightarrow> i < j \<Longrightarrow> j < length m \<Longrightarrow> fst (m ! i) < fst (m ! j)"
  using sorted_wrt_nth_less [of "(<)" "map fst m" i j] by (simp add: ordered_def)

text \<open>
  The next controller to serve: the first one with messages behind the one served last, in the
  cyclic order of the handles.
\<close>

definition next_ready :: "RptMsgQ \<Rightarrow> int" where
  "next_ready q =
     (let later = {k \<in> ready q. current_controller q < k} in if later \<noteq> {} then Min later else Min (ready q))"

lemma least_ready_index:
  assumes "ordered (rpt_msgs q)" and "{k \<in> ready q. b < k} \<noteq> {}"
  obtains j where "j < length (rpt_msgs q)" "fst (rpt_msgs q ! j) = Min {k \<in> ready q. b < k}" "snd (rpt_msgs q ! j) \<noteq> []"
    "\<And>l. l < j \<Longrightarrow> b < fst (rpt_msgs q ! l) \<Longrightarrow> snd (rpt_msgs q ! l) = []"
proof -
  let ?k = "Min {k \<in> ready q. b < k}"
  have k: "?k \<in> {k \<in> ready q. b < k}" using assms(2) by (intro Min_in) auto
  then obtain j where j: "j < length (rpt_msgs q)" "fst (rpt_msgs q ! j) = ?k"
    using ready_keys [of ?k q] by (force simp: in_set_conv_nth)
  moreover have "snd (rpt_msgs q ! j) \<noteq> []" using ready_nth [OF assms(1) j(1)] j(2) k by simp
  moreover have "snd (rpt_msgs q ! l) = []" if "l < j" "b < fst (rpt_msgs q ! l)" for l
  proof (rule ccontr)
    assume "snd (rpt_msgs q ! l) \<noteq> []"
    then have "fst (rpt_msgs q ! l) \<in> {k \<in> ready q. b < k}" using ready_nth [OF assms(1), of l] that j(1) by simp
    then have "?k \<le> fst (rpt_msgs q ! l)" by (intro Min_le) auto
    with ordered_nth [OF assms(1) that(1) j(1)] j(2) show False by simp
  qed
  ultimately show thesis by (rule that)
qed

lemma front_loop_later:
  assumes "ordered (rpt_msgs q)" and "{k \<in> ready q. c < k} \<noteq> {}"
  shows "\<exists>j. front_loop (rpt_msgs q) c (start_index (rpt_msgs q) c) = Some j \<and>
     fst (rpt_msgs q ! j) = Min {k \<in> ready q. c < k} \<and> snd (rpt_msgs q ! j) \<noteq> []"
proof -
  let ?m = "rpt_msgs q"
  let ?u = "upper_bound_index ?m c"
  note ub = upper_bound_split [OF assms(1), where k = c]
  obtain j where
    j: "j < length ?m" "fst (?m ! j) = Min {k \<in> ready q. c < k}" "snd (?m ! j) \<noteq> []"
      and empty: "\<And>l. l < j \<Longrightarrow> c < fst (?m ! l) \<Longrightarrow> snd (?m ! l) = []"
    by (rule least_ready_index [OF assms]) (rule that)
  have "Min {k \<in> ready q. c < k} \<in> {k \<in> ready q. c < k}" using assms(2) by (intro Min_in) simp_all
  then have "c < fst (?m ! j)" using j(2) by simp
  then have u: "?u \<le> j" using ub(2) [of j] by linarith
  then have "start_index ?m c = ?u" using j(1) by (simp add: start_index_def)
  moreover have "front_loop ?m c ?u = Some j"
  proof (rule front_loop_stops [OF u _ j(1,3)])
    fix l assume l: "?u \<le> l" "l < j"
    then have "c < fst (?m ! l)" using ub(3) [of l] j(1) by simp
    with empty [OF l(2)] show "fst (?m ! l) \<noteq> c \<and> snd (?m ! l) = []" by simp
  qed
  ultimately show ?thesis using j by metis
qed

lemma front_loop_around:
  assumes "ordered (rpt_msgs q)" and "{k \<in> ready q. c < k} = {}" and "ready q \<noteq> {}"
  shows "\<exists>j. front_loop (rpt_msgs q) c (start_index (rpt_msgs q) c) = Some j \<and>
     fst (rpt_msgs q ! j) = Min (ready q) \<and> snd (rpt_msgs q ! j) \<noteq> []"
proof -
  let ?m = "rpt_msgs q"
  let ?u = "upper_bound_index ?m c"
  note ub = upper_bound_split [OF assms(1), where k = c]
  have le: "Min (ready q) \<le> k" if "k \<in> ready q" for k using that by simp
  have all: "{k \<in> ready q. Min (ready q) - 1 < k} = ready q"
  proof (intro set_eqI iffI)
    fix k assume k: "k \<in> ready q"
    then have "Min (ready q) - 1 < k" using le [of k] by linarith
    with k show "k \<in> {k \<in> ready q. Min (ready q) - 1 < k}" by blast
  qed blast
  obtain j where j: "j < length ?m" "fst (?m ! j) = Min (ready q)" "snd (?m ! j) \<noteq> []"
    by (rule least_ready_index [OF assms(1), of "Min (ready q) - 1", unfolded all, OF assms(3)]) (rule that)
  have "Min (ready q) \<in> ready q" using assms(3) by simp
  with assms(2) have c: "fst (?m ! j) \<le> c" using j(2) by force
  have "front_loop ?m c 0 = Some j"
  proof (rule front_loop_stops [OF _ _ j(1,3)])
    fix l assume "l < j"
    then have l: "fst (?m ! l) < fst (?m ! j)" by (rule ordered_nth [OF assms(1) _ j(1)])
    then have "fst (?m ! l) \<notin> ready q" using le j(2) by fastforce
    with ready_nth [OF assms(1), of l] \<open>l < j\<close> j(1) l c
    show "fst (?m ! l) \<noteq> c \<and> snd (?m ! l) = []" by simp
  qed simp
  moreover have "front_loop ?m c ?u = front_loop ?m c 0" if "?u < length ?m"
  proof (rule front_loop_wraps [OF that])
    fix l assume l: "?u \<le> l" "l < length ?m"
    then have "c < fst (?m ! l)" by (rule ub(3))
    with assms(2) have "fst (?m ! l) \<notin> ready q" by blast
    with ready_nth [OF assms(1) l(2)] \<open>c < fst (?m ! l)\<close> show "fst (?m ! l) \<noteq> c \<and> snd (?m ! l) = []" by simp
  qed
  ultimately show ?thesis using j ub(1) by (auto simp: start_index_def Let_def)
qed

lemma front_spec:
  assumes "q_ok q" and "total_msg_count q \<noteq> 0"
  shows "RptMsgQ_front q = Some (Some (next_ready q), q\<lparr>current_controller := next_ready q\<rparr>)"
proof -
  let ?m = "rpt_msgs q" and ?c = "current_controller q"
  have ord: "ordered ?m" using assms(1) by (simp add: q_ok_def)
  have ready: "ready q \<noteq> {}" using ready_empty [OF assms(1)] assms(2) by simp
  have "?m \<noteq> []" using ready by (auto simp: ready_def)
  moreover have "\<exists>j. front_loop ?m ?c (start_index ?m ?c) = Some j \<and> fst (?m ! j) = next_ready q \<and> snd (?m ! j) \<noteq> []"
  proof (cases "{k \<in> ready q. ?c < k} = {}")
    case True
    then have "next_ready q = Min (ready q)" by (simp only: next_ready_def Let_def) simp
    with front_loop_around [OF ord True ready] show ?thesis by (simp only:)
  next
    case False
    then have "next_ready q = Min {k \<in> ready q. ?c < k}" by (simp only: next_ready_def Let_def) simp
    with front_loop_later [OF ord False] show ?thesis by (simp only:)
  qed
  then obtain j where "front_loop ?m ?c (start_index ?m ?c) = Some j" "fst (?m ! j) = next_ready q" "snd (?m ! j) \<noteq> []"
    by blast
  ultimately show ?thesis by (simp add: RptMsgQ_front_def)
qed


section \<open>The operations of the fair queue\<close>

text \<open>Every operation keeps the queue well formed, and touches only the controller it is for.\<close>

lemma ready_key: "k \<in> ready q \<longleftrightarrow> the_queue (map_of (rpt_msgs q) k) \<noteq> []"
  by (simp add: ready_def)

lemma push_back_ok:
  "q_ok q \<Longrightarrow> k \<noteq> kInvalidHandle \<Longrightarrow> q_ok (RptMsgQ_push_back q k v)"
  using queued_smap_update [of "rpt_msgs q" k "\<lambda>d. d @ [v]"]
  by (auto simp: q_ok_def RptMsgQ_push_back_def ordered_smap_update keys_smap_update)

lemma ready_push_back: "q_ok q \<Longrightarrow> ready (RptMsgQ_push_back q k v) = insert k (ready q)"
  by (auto simp: ready_def RptMsgQ_push_back_def q_ok_def map_of_smap_update split: if_splits)

lemma current_push_back [simp]: "current_controller (RptMsgQ_push_back q k v) = current_controller q"
  by (simp add: RptMsgQ_push_back_def)

lemma pop_front_ok:
  assumes "q_ok q" and "current_controller q \<in> ready q"
  shows "q_ok (RptMsgQ_pop_front q)" and "ready q - {current_controller q} \<subseteq> ready (RptMsgQ_pop_front q)"
proof -
  let ?n = "length (the_queue (map_of (rpt_msgs q) (current_controller q)))"
  have "?n \<noteq> 0" using assms(2) by (simp add: ready_key)
  moreover have "queued (smap_update (current_controller q) tl (rpt_msgs q)) + ?n = queued (rpt_msgs q) + (?n - 1)"
    using assms(1) queued_smap_update [of "rpt_msgs q" "current_controller q" tl] by (simp add: q_ok_def)
  ultimately have "queued (rpt_msgs q) = Suc (queued (smap_update (current_controller q) tl (rpt_msgs q)))" by linarith
  then show "q_ok (RptMsgQ_pop_front q)"
    using assms ready_keys [OF assms(2)] by (auto simp: q_ok_def RptMsgQ_pop_front_def ordered_smap_update)
  show "ready q - {current_controller q} \<subseteq> ready (RptMsgQ_pop_front q)"
    using assms by (auto simp: q_ok_def RptMsgQ_pop_front_def ready_def map_of_smap_update)
qed

lemma partial_ok:
  assumes "q_ok q" and "k \<in> ready q" and "length d = length (the_queue (map_of (rpt_msgs q) k))"
  shows "q_ok (q\<lparr>rpt_msgs := smap_update k (\<lambda>_. d) (rpt_msgs q)\<rparr>)"
    and "ready (q\<lparr>rpt_msgs := smap_update k (\<lambda>_. d) (rpt_msgs q)\<rparr>) = ready q"
proof -
  show "q_ok (q\<lparr>rpt_msgs := smap_update k (\<lambda>_. d) (rpt_msgs q)\<rparr>)"
    using assms(1,3) ready_keys [OF assms(2)] queued_smap_update [of "rpt_msgs q" k "\<lambda>_. d"]
    by (auto simp: q_ok_def ordered_smap_update)
  have "d \<noteq> []" using assms(2,3) by (auto simp: ready_key)
  then show "ready (q\<lparr>rpt_msgs := smap_update k (\<lambda>_. d) (rpt_msgs q)\<rparr>) = ready q"
    using assms(1,2) by (auto simp: q_ok_def ready_def map_of_smap_update split: if_splits)
qed

lemma remove_current_ok:
  assumes "q_ok q"
  shows "q_ok (RemoveCurrentController q)" and "ready q - {current_controller q} \<subseteq> ready (RemoveCurrentController q)"
proof -
  note f = queued_filter [of "rpt_msgs q" "current_controller q"]
  show "q_ok (RemoveCurrentController q)"
    using assms f by (auto simp: q_ok_def RemoveCurrentController_def csub_def ordered_filter split: option.splits)
  have "map_of (filter (\<lambda>(k, _). k \<noteq> c) m) k = (if k = c then None else map_of m k)" for k c :: int and m :: "(int \<times> MessageRef list) list"
    by (induction m) auto
  then show "ready q - {current_controller q} \<subseteq> ready (RemoveCurrentController q)"
    by (auto simp: RemoveCurrentController_def ready_def split: option.splits)
qed

lemma clear_ok [simp]: "q_ok (RptMsgQ_clear q)"
  by (simp add: q_ok_def RptMsgQ_clear_def ordered_def queued_def)


section \<open>Sending from a queue\<close>

text \<open>A message in a queue has something left to send.\<close>

definition msg_ok :: "MessageRef \<Rightarrow> bool" where
  "msg_ok m \<longleftrightarrow> size_sent m < length (mr_data m)"

lemma send_front_cases:
  assumes "send_front send s (m # q) = Some (res, q', s')"
  obtains e where "res = Inl e" "q' = m # q" "rc_send send s (drop (size_sent m) (mr_data m)) = Some (Inl e, s')"
  | n where "res = Inr True" "q' = q" "length (mr_data m) \<le> size_sent m + n"
      "rc_send send s (drop (size_sent m) (mr_data m)) = Some (Inr n, s')"
  | n where "res = Inr False" "q' = m\<lparr>size_sent := size_sent m + n\<rparr> # q" "size_sent m + n < length (mr_data m)"
      "rc_send send s (drop (size_sent m) (mr_data m)) = Some (Inr n, s')"
proof (cases "rc_send send s (drop (size_sent m) (mr_data m))")
  case None
  with assms show ?thesis by (simp add: send_front_def Let_def)
next
  case (Some y)
  then obtain r s2 where y: "rc_send send s (drop (size_sent m) (mr_data m)) = Some (r, s2)" by (cases y) simp
  with assms that show ?thesis
    by (cases r; cases "length (mr_data m) \<le> size_sent m + projr r") (auto simp: send_front_def Let_def)
qed

lemma send_front_msgs:
  assumes "send_front send s q = Some (res, q', s')" and "q \<noteq> []" and "\<forall>m \<in> set q. msg_ok m"
  shows "\<forall>m \<in> set q'. msg_ok m" and "length q' \<le> length q"
  using assms by (cases q; auto elim!: send_front_cases simp: msg_ok_def)+

lemma send_front_returns:
  "rc_send send s (drop (size_sent (hd q)) (mr_data (hd q))) \<noteq> None \<Longrightarrow> send_front send s q \<noteq> None"
  by (cases "rc_send send s (drop (size_sent (hd q)) (mr_data (hd q)))") (auto simp del: not_None_eq simp add: send_front_def Let_def)

text \<open>Serving a controller keeps the queue well formed and leaves the other controllers alone.\<close>

lemma send_fair_unfold:
  assumes "k \<in> ready q" and "send_fair send s q k = Some (res, q', s')"
  obtains m d d' where "map_of (rpt_msgs q) k = Some (m # d)" "send_front send s (m # d) = Some (res, d', s')"
    "q' = (case res of Inl e \<Rightarrow> if e \<noteq> kEtcPalErrWouldBlock then RemoveCurrentController q else q
        | Inr True \<Rightarrow> RptMsgQ_pop_front q | Inr False \<Rightarrow> q\<lparr>rpt_msgs := smap_update k (\<lambda>_. d') (rpt_msgs q)\<rparr>)"
proof -
  obtain m d where d: "map_of (rpt_msgs q) k = Some (m # d)"
    using assms(1) by (auto simp: ready_key neq_Nil_conv split: option.splits)
  show ?thesis using that [OF d] assms(2) by (auto simp: send_fair_def d bind_eq_Some_conv)
qed

lemma send_fair_ok:
  assumes "q_ok q" and "current_controller q = k" and "k \<in> ready q" and "send_fair send s q k = Some (res, q', s')"
  shows "q_ok q'" and "ready q - {k} \<subseteq> ready q'" and "current_controller q' = k"
proof -
  obtain m d d' where d: "map_of (rpt_msgs q) k = Some (m # d)" and d': "send_front send s (m # d) = Some (res, d', s')"
    and q': "q' = (case res of Inl e \<Rightarrow> if e \<noteq> kEtcPalErrWouldBlock then RemoveCurrentController q else q
        | Inr True \<Rightarrow> RptMsgQ_pop_front q | Inr False \<Rightarrow> q\<lparr>rpt_msgs := smap_update k (\<lambda>_. d') (rpt_msgs q)\<rparr>)"
    using send_fair_unfold [OF assms(3,4)] by blast
  have len: "res = Inr False \<Longrightarrow> length d' = length (the_queue (map_of (rpt_msgs q) k))"
    using d' by (auto simp: d elim: send_front_cases)
  show "q_ok q'"
    using assms(1-3) len by (auto simp: q' intro: remove_current_ok pop_front_ok partial_ok split: sum.splits bool.splits)
  show "ready q - {k} \<subseteq> ready q'"
    using remove_current_ok(2) [OF assms(1)] pop_front_ok(2) [OF assms(1)] partial_ok(2) [OF assms(1,3) len] assms(2,3)
    by (auto simp: q' split: sum.splits bool.splits)
  show "current_controller q' = k"
    using assms(2) by (auto simp: q' RemoveCurrentController_def RptMsgQ_pop_front_def split: sum.splits bool.splits option.splits)
qed

section \<open>Runs of a device\<close>

text \<open>
  What the broker does with a device: it pushes messages, sends, and marks the device for destruction.
  A run gives the controllers whose requests it has served.
\<close>

datatype dev_op =
  DevPushRpt int EtcPalUuid RptMessage
| DevPushBroker EtcPalUuid BrokerMessage
| DevMark EtcPalUuid RdmUid ClientDestroyAction
| DevSend

definition RPTDevice_MarkForDestruction ::
  "etcpal \<Rightarrow> RPTDevice \<Rightarrow> EtcPalUuid \<Rightarrow> RdmUid \<Rightarrow> ClientDestroyAction \<Rightarrow> RPTDevice" where
  "RPTDevice_MarkForDestruction E = MarkForDestruction (RPTDevice_Push_broker E) RPTDevice_ClearAllQueues"

definition served :: "RPTDevice \<Rightarrow> RPTDevice \<Rightarrow> int list" where
  "served c c' =
     (if broker_msgs c = [] \<and> \<not> RptMsgQ_empty (dev_rpt_msgs c) then [current_controller (dev_rpt_msgs c')] else [])"

fun dev_run ::
  "etcpal \<Rightarrow> ('s \<Rightarrow> bytes \<Rightarrow> (etcpal_error_t + nat) \<times> 's) \<Rightarrow> (EtcPalTimer \<Rightarrow> bool) \<Rightarrow> (EtcPalTimer \<Rightarrow> EtcPalTimer)
   \<Rightarrow> EtcPalUuid \<Rightarrow> dev_op list \<Rightarrow> RPTDevice \<Rightarrow> 's \<Rightarrow> (int list \<times> RPTDevice \<times> 's) option" where
  "dev_run E send expired reset cid [] c s = Some ([], c, s)"
| "dev_run E send expired reset cid (DevPushRpt k from_cid msg # ops) c s =
     dev_run E send expired reset cid ops (snd (RPTDevice_Push_rpt E c k from_cid msg)) s"
| "dev_run E send expired reset cid (DevPushBroker from_cid msg # ops) c s =
     dev_run E send expired reset cid ops (snd (RPTDevice_Push_broker E c from_cid msg)) s"
| "dev_run E send expired reset cid (DevMark from_cid uid action # ops) c s =
     dev_run E send expired reset cid ops (RPTDevice_MarkForDestruction E c from_cid uid action) s"
| "dev_run E send expired reset cid (DevSend # ops) c s = do {
     (ok, c', s') \<leftarrow> RPTDevice_Send E send expired reset s c cid;
     (ks, r) \<leftarrow> dev_run E send expired reset cid ops c' s';
     Some (served c c' @ ks, r)
   }"

text \<open>The messages of a device, and its invariant: the queues are well formed and within their bound.\<close>

definition dev_msgs :: "RPTDevice \<Rightarrow> MessageRef list" where
  "dev_msgs c = broker_msgs c @ status_msgs c @ concat (map snd (rpt_msgs (dev_rpt_msgs c)))"

definition device_ok :: "RPTDevice \<Rightarrow> bool" where
  "device_ok c \<longleftrightarrow> q_ok (dev_rpt_msgs c) \<and> (\<forall>m \<in> set (dev_msgs c). msg_ok m) \<and>
     (max_q_size c \<noteq> kLimitlessQueueSize \<longrightarrow> length (dev_msgs c) \<le> max_q_size c)"

lemma length_dev_msgs:
  "q_ok (dev_rpt_msgs c) \<Longrightarrow>
     length (dev_msgs c) = length (broker_msgs c) + length (status_msgs c) + RptMsgQ_size (dev_rpt_msgs c)"
  by (simp add: dev_msgs_def length_concat q_ok_def queued_def RptMsgQ_size_def comp_def)

definition queue_set :: "(int \<times> MessageRef list) list \<Rightarrow> MessageRef set" where
  "queue_set m = set (concat (map snd m))"

lemma queue_set_simps [simp]: "queue_set [] = {}" "queue_set ((k, d) # m) = set d \<union> queue_set m"
  by (simp_all add: queue_set_def)

lemma the_queue_set: "set (the_queue (map_of m k)) \<subseteq> queue_set m"
  by (induction m) auto

lemma queue_set_update: "queue_set (smap_update k f m) \<subseteq> queue_set m \<union> set (f (the_queue (map_of m k)))" if "ordered m"
  using that
proof (induction k f m rule: smap_update.induct)
  case (2 k f k' v m)
  have "map_of m k = None" if "k < k'" using that 2(2) by (fastforce simp: map_of_eq_None_iff)
  with 2 show ?case by auto
qed simp

lemma queue_set_filter: "queue_set (filter P m) \<subseteq> queue_set m"
  by (induction m) auto

lemma dev_msgs_set: "set (dev_msgs c) = set (broker_msgs c) \<union> set (status_msgs c) \<union> queue_set (rpt_msgs (dev_rpt_msgs c))"
  by (auto simp: dev_msgs_def queue_set_def)

lemma fresh_msg_ok [simp]: "msg_ok \<lparr>mr_data = d, size_sent = 0\<rparr> \<longleftrightarrow> d \<noteq> []"
  by (simp add: msg_ok_def)

text \<open>A push adds one message to one of the queues, when there is room, or leaves the device as it is.\<close>

lemma device_add_ok:
  assumes "device_ok c" and "RPTDevice_HasRoomToPush c" and "d \<noteq> []"
    and "q_ok (dev_rpt_msgs c')" and "max_q_size c' = max_q_size c"
    and "length (dev_msgs c') = Suc (length (dev_msgs c))"
    and "set (dev_msgs c') \<subseteq> insert \<lparr>mr_data = d, size_sent = 0\<rparr> (set (dev_msgs c))"
  shows "device_ok c'"
proof -
  have q: "q_ok (dev_rpt_msgs c)" and m: "\<forall>m \<in> set (dev_msgs c). msg_ok m" using assms(1) by (simp_all add: device_ok_def)
  have "max_q_size c \<noteq> 0 \<longrightarrow> Suc (length (dev_msgs c)) \<le> max_q_size c"
    using assms(2) by (auto simp: RPTDevice_HasRoomToPush_def length_dev_msgs [OF q])
  moreover have "\<forall>m \<in> set (dev_msgs c'). msg_ok m" using assms(3) m subsetD [OF assms(7)] by fastforce
  ultimately show ?thesis using assms(4-6) unfolding device_ok_def by simp
qed

lemma device_push_ok:
  assumes "device_ok c" and "RPTDevice_HasRoomToPush c" and "d \<noteq> []"
  shows "device_ok (c\<lparr>broker_msgs := broker_msgs c @ [\<lparr>mr_data = d, size_sent = 0\<rparr>]\<rparr>)"
    and "device_ok (c\<lparr>status_msgs := status_msgs c @ [\<lparr>mr_data = d, size_sent = 0\<rparr>]\<rparr>)"
    and "k \<noteq> kInvalidHandle \<Longrightarrow>
      device_ok (c\<lparr>dev_rpt_msgs := RptMsgQ_push_back (dev_rpt_msgs c) k \<lparr>mr_data = d, size_sent = 0\<rparr>\<rparr>)"
proof -
  have q: "q_ok (dev_rpt_msgs c)" using assms(1) by (simp add: device_ok_def)
  show "device_ok (c\<lparr>broker_msgs := broker_msgs c @ [\<lparr>mr_data = d, size_sent = 0\<rparr>]\<rparr>)"
    using q by (intro device_add_ok [OF assms]) (auto simp: dev_msgs_def)
  show "device_ok (c\<lparr>status_msgs := status_msgs c @ [\<lparr>mr_data = d, size_sent = 0\<rparr>]\<rparr>)"
    using q by (intro device_add_ok [OF assms]) (auto simp: dev_msgs_def)
  assume k: "k \<noteq> kInvalidHandle"
  let ?m = "\<lparr>mr_data = d, size_sent = 0\<rparr>"
  let ?q = "RptMsgQ_push_back (dev_rpt_msgs c) k ?m"
  have q': "q_ok ?q" by (rule push_back_ok [OF q k])
  have "length (dev_msgs (c\<lparr>dev_rpt_msgs := ?q\<rparr>)) = Suc (length (dev_msgs c))"
    using q q' by (simp add: length_dev_msgs) (simp add: RptMsgQ_size_def RptMsgQ_push_back_def)
  moreover have "queue_set (rpt_msgs ?q) \<subseteq> insert ?m (queue_set (rpt_msgs (dev_rpt_msgs c)))"
    using queue_set_update [of "rpt_msgs (dev_rpt_msgs c)" k "\<lambda>d. d @ [?m]"] the_queue_set [of "rpt_msgs (dev_rpt_msgs c)" k] q
    by (simp add: RptMsgQ_push_back_def q_ok_def) blast
  then have "set (dev_msgs (c\<lparr>dev_rpt_msgs := ?q\<rparr>)) \<subseteq> insert ?m (set (dev_msgs c))"
    by (auto simp: dev_msgs_set)
  ultimately show "device_ok (c\<lparr>dev_rpt_msgs := ?q\<rparr>)"
    using q' by (intro device_add_ok [OF assms]) simp_all
qed

lemma device_push_rpt_ok:
  "device_ok c \<Longrightarrow> k \<noteq> kInvalidHandle \<Longrightarrow> device_ok (snd (RPTDevice_Push_rpt E c k cid msg))"
  by (auto simp: RPTDevice_Push_rpt_def RPTClient_PushPostSizeCheck_def push_packed_def Let_def device_push_ok)

lemma device_push_broker_ok: "device_ok c \<Longrightarrow> device_ok (snd (RPTDevice_Push_broker E c cid msg))"
  by (auto simp: RPTDevice_Push_broker_def push_broker_def BrokerClient_PushPostSizeCheck_def push_packed_def device_push_ok)

lemma device_mark_ok: "device_ok c \<Longrightarrow> device_ok (RPTDevice_MarkForDestruction E c cid uid action)"
proof -
  have upd: "device_ok (c\<lparr>marked_for_destruction := b\<rparr>) = device_ok c" "device_ok (c\<lparr>bc_socket := t\<rparr>) = device_ok c" for c b t
    by (simp_all add: device_ok_def dev_msgs_def)
  have "device_ok (RPTDevice_ClearAllQueues c)"
    by (simp add: device_ok_def dev_msgs_def RPTDevice_ClearAllQueues_def) (simp add: RptMsgQ_clear_def)
  then show ?thesis
    by (simp add: RPTDevice_MarkForDestruction_def MarkForDestruction_def ApplyDestroyAction_def upd device_push_broker_ok
        split: ClientDestroyAction.splits)
qed


text \<open>Sending serves a broker message, the next controller in turn, or neither of them.\<close>

lemma device_send_cases:
  assumes "RPTDevice_Send E send expired reset s c cid = Some (ok, c', s')" and "q_ok (dev_rpt_msgs c)"
  obtains (broker) res q where "broker_msgs c \<noteq> []" "send_front send s (broker_msgs c) = Some (res, q, s')"
      "broker_msgs c' = q" "dev_rpt_msgs c' = dev_rpt_msgs c"
  | (idle) "broker_msgs c = []" "total_msg_count (dev_rpt_msgs c) = 0" "broker_msgs c' = []" "dev_rpt_msgs c' = dev_rpt_msgs c"
  | (serve) res where "broker_msgs c = []" "total_msg_count (dev_rpt_msgs c) \<noteq> 0" "broker_msgs c' = []"
      "send_fair send s (dev_rpt_msgs c\<lparr>current_controller := next_ready (dev_rpt_msgs c)\<rparr>) (next_ready (dev_rpt_msgs c)) =
         Some (res, dev_rpt_msgs c', s')"
proof (cases "broker_msgs c \<noteq> []")
  case True
  then show ?thesis using assms(1) by (auto simp: RPTDevice_Send_def Let_def bind_eq_Some_conv intro: broker)
next
  case False
  show ?thesis
  proof (cases "total_msg_count (dev_rpt_msgs c) = 0")
    case True
    with False assms(1) show ?thesis
      by (auto simp: RPTDevice_Send_def RptMsgQ_empty_def send_heartbeat_def bind_eq_Some_conv intro: idle split: if_split_asm)
  next
    case total: False
    with False assms(1) show ?thesis
      by (auto simp: RPTDevice_Send_def RptMsgQ_empty_def front_spec [OF assms(2)] Let_def bind_eq_Some_conv intro: serve)
  qed
qed

lemma device_send_keeps:
  assumes "RPTDevice_Send E send expired reset s c cid = Some (ok, c', s')"
  shows "status_msgs c' = status_msgs c \<and> max_q_size c' = max_q_size c \<and>
    marked_for_destruction c' = marked_for_destruction c"
  using assms
  unfolding RPTDevice_Send_def send_heartbeat_def Let_def
  by (simp split: if_split_asm option.split_asm Option.bind_split_asm prod.split_asm) (auto split: if_split_asm)

lemma next_ready_in: "ready q \<noteq> {} \<Longrightarrow> next_ready q \<in> ready q"
proof -
  assume r: "ready q \<noteq> {}"
  have "Min {k \<in> ready q. current_controller q < k} \<in> {k \<in> ready q. current_controller q < k}"
    if "{k \<in> ready q. current_controller q < k} \<noteq> {}" using that by (intro Min_in) simp_all
  with r show ?thesis by (simp add: next_ready_def Let_def)
qed

lemma q_ok_current [simp]: "q_ok (q\<lparr>current_controller := k\<rparr>) = q_ok q" "ready (q\<lparr>current_controller := k\<rparr>) = ready q"
  by (simp_all add: q_ok_def ready_def)

lemma served_queue_sets:
  assumes "ordered (rpt_msgs q)"
  shows "queue_set (rpt_msgs (RptMsgQ_pop_front q)) \<subseteq> queue_set (rpt_msgs q)"
    and "queue_set (rpt_msgs (RemoveCurrentController q)) \<subseteq> queue_set (rpt_msgs q)"
proof -
  have "set (tl (the_queue (map_of (rpt_msgs q) k))) \<subseteq> queue_set (rpt_msgs q)" for k
    using the_queue_set [of "rpt_msgs q" k] by (cases "the_queue (map_of (rpt_msgs q) k)") (simp_all only: list.sel list.set, blast+)
  with queue_set_update [OF assms, of "current_controller q" tl]
  show "queue_set (rpt_msgs (RptMsgQ_pop_front q)) \<subseteq> queue_set (rpt_msgs q)"
    unfolding RptMsgQ_pop_front_def by (cases "current_controller q = kInvalidHandle") (simp_all, blast)
  show "queue_set (rpt_msgs (RemoveCurrentController q)) \<subseteq> queue_set (rpt_msgs q)"
    using queue_set_filter by (simp add: RemoveCurrentController_def split: option.splits)
qed

lemma send_fair_msgs:
  assumes "q_ok q" and "k \<in> ready q" and "\<forall>m \<in> queue_set (rpt_msgs q). msg_ok m"
    and "send_fair send s q k = Some (res, q', s')"
  shows "\<forall>m \<in> queue_set (rpt_msgs q'). msg_ok m"
proof -
  obtain m d d' where d: "map_of (rpt_msgs q) k = Some (m # d)" and d': "send_front send s (m # d) = Some (res, d', s')"
    and q': "q' = (case res of Inl e \<Rightarrow> if e \<noteq> kEtcPalErrWouldBlock then RemoveCurrentController q else q
        | Inr True \<Rightarrow> RptMsgQ_pop_front q | Inr False \<Rightarrow> q\<lparr>rpt_msgs := smap_update k (\<lambda>_. d') (rpt_msgs q)\<rparr>)"
    by (rule send_fair_unfold [OF assms(2,4)])
  have ord: "ordered (rpt_msgs q)" using assms(1) by (simp add: q_ok_def)
  have "set (m # d) \<subseteq> queue_set (rpt_msgs q)" using the_queue_set [of "rpt_msgs q" k] unfolding d option.case .
  then have md: "\<forall>x \<in> set (m # d). msg_ok x" using assms(3) by blast
  have "queue_set (rpt_msgs q') \<subseteq> queue_set (rpt_msgs q) \<union> set d'"
    using queue_set_update [OF ord, of k "\<lambda>_. d'"] served_queue_sets [OF ord]
    unfolding q' by (cases res; cases "res = Inr True") (simp_all split: bool.splits, blast+)
  with send_front_msgs(1) [OF d' _ md] assms(3) show ?thesis by blast
qed

lemma send_fair_size:
  assumes "q_ok q" and "k \<in> ready q" and "send_fair send s q k = Some (res, q', s')"
  shows "total_msg_count q' \<le> total_msg_count q"
proof -
  have "total_msg_count q \<noteq> 0" using assms(1,2) ready_empty by blast
  then have "total_msg_count (RptMsgQ_pop_front q) \<le> total_msg_count q" by (simp add: RptMsgQ_pop_front_def)
  moreover have "total_msg_count (RemoveCurrentController q) \<le> total_msg_count q"
    using assms(1) queued_filter [of "rpt_msgs q" "current_controller q"]
    by (auto simp: q_ok_def RemoveCurrentController_def split: option.splits)
  ultimately show ?thesis
    by - (rule send_fair_unfold [OF assms(2,3)], simp split: sum.splits bool.splits)
qed

lemma device_send_ok:
  assumes "RPTDevice_Send E send expired reset s c cid = Some (ok, c', s')" and "device_ok c"
  shows "device_ok c'"
proof -
  note keeps = device_send_keeps [OF assms(1)]
  have q: "q_ok (dev_rpt_msgs c)" and msgs: "\<forall>m \<in> set (dev_msgs c). msg_ok m"
    and room: "max_q_size c \<noteq> 0 \<longrightarrow> length (dev_msgs c) \<le> max_q_size c"
    using assms(2) by (simp_all add: device_ok_def)
  from assms(1) q have "q_ok (dev_rpt_msgs c') \<and> length (dev_msgs c') \<le> length (dev_msgs c) \<and> (\<forall>m \<in> set (dev_msgs c'). msg_ok m)"
  proof (cases rule: device_send_cases)
    case (broker res bq)
    have "\<forall>m \<in> set (broker_msgs c). msg_ok m" using msgs by (simp add: dev_msgs_set)
    note front = send_front_msgs [OF broker(2,1) this]
    show ?thesis using front msgs keeps q broker(3,4) by (auto simp: dev_msgs_set dev_msgs_def)
  next
    case idle
    then show ?thesis using msgs keeps q by (auto simp: dev_msgs_set dev_msgs_def)
  next
    case (serve res)
    let ?k = "next_ready (dev_rpt_msgs c)" let ?q = "dev_rpt_msgs c\<lparr>current_controller := ?k\<rparr>"
    have k: "?k \<in> ready ?q" using serve(2) ready_empty [OF q] next_ready_in by simp
    have q': "q_ok ?q" using q by simp
    have "q_ok (dev_rpt_msgs c')" by (rule send_fair_ok(1) [OF q' _ k serve(4)]) simp
    moreover have "\<forall>m \<in> queue_set (rpt_msgs (dev_rpt_msgs c')). msg_ok m"
      using send_fair_msgs [OF q' k _ serve(4)] msgs by (simp add: dev_msgs_set)
    moreover have "RptMsgQ_size (dev_rpt_msgs c') \<le> RptMsgQ_size (dev_rpt_msgs c)"
      using send_fair_size [OF q' k serve(4)] by (simp add: RptMsgQ_size_def)
    ultimately show ?thesis using q keeps msgs serve(1,3) by (auto simp: length_dev_msgs dev_msgs_set)
  qed
  then show ?thesis using room keeps by (auto simp: device_ok_def)
qed

fun valid_pushes :: "dev_op list \<Rightarrow> bool" where
  "valid_pushes [] \<longleftrightarrow> True"
| "valid_pushes (DevPushRpt k from_cid msg # ops) \<longleftrightarrow> k \<noteq> kInvalidHandle \<and> valid_pushes ops"
| "valid_pushes (DevPushBroker _ _ # ops) \<longleftrightarrow> valid_pushes ops"
| "valid_pushes (DevMark _ _ _ # ops) \<longleftrightarrow> valid_pushes ops"
| "valid_pushes (DevSend # ops) \<longleftrightarrow> valid_pushes ops"

text \<open>
  C4. Whatever is done with a device, its queues stay well formed: they hold at most as many messages
  as the limit allows, all of them with something left to send, and the count of the fair queue is that
  of its messages. The controllers' handles must be valid ones.
\<close>

theorem device_well_formed:
  assumes "dev_run E send expired reset cid ops c s = Some (ks, c', s')" and "device_ok c"
    and "valid_pushes ops"
  shows "device_ok c'"
  using assms
proof (induction ops arbitrary: c s ks rule: valid_pushes.induct)
  case (2 k from_cid msg ops)
  then show ?case using device_push_rpt_ok [of c k E from_cid msg] by simp
next
  case (3 from_cid msg ops)
  then show ?case using device_push_broker_ok [of c E from_cid msg] by simp
next
  case (4 from_cid uid action ops)
  then show ?case using device_mark_ok [of c E from_cid uid action] by simp
next
  case (5 ops)
  then obtain ok c2 s2 ks2 where send: "RPTDevice_Send E send expired reset s c cid = Some (ok, c2, s2)"
    and "dev_run E send expired reset cid ops c2 s2 = Some (ks2, c', s')" by (auto simp: bind_eq_Some_conv)
  then show ?case using "5" device_send_ok [OF send] by simp
qed simp

section \<open>Fairness\<close>

text \<open>
  The order in which the controllers are served while the one with handle \<open>h\<close> waits: first those with
  a greater handle in ascending order, then the others in ascending order.
\<close>

definition before :: "int \<Rightarrow> int \<Rightarrow> int \<Rightarrow> bool" where
  "before h x y \<longleftrightarrow> (h < x \<and> y \<le> h) \<or> ((h < x \<longleftrightarrow> h < y) \<and> x < y)"

lemma before_trans: "before h x y \<Longrightarrow> before h y z \<Longrightarrow> before h x z"
  by (auto simp: before_def)

lemma distinct_before: "sorted_wrt (before h) ks \<Longrightarrow> distinct ks"
  by (induction ks) (auto simp: before_def)

lemma next_ready_after:
  assumes "h \<in> ready q" and "current_controller q \<noteq> h"
  shows "before h (current_controller q) (next_ready q)"
proof (cases "{k \<in> ready q. current_controller q < k} = {}")
  case True
  then have "h < current_controller q" using assms by force
  moreover have "next_ready q = Min (ready q)" using True by (simp only: next_ready_def Let_def) simp
  then have "next_ready q \<le> h" using assms(1) by simp
  ultimately show ?thesis by (simp add: before_def)
next
  case False
  let ?L = "{k \<in> ready q. current_controller q < k}"
  have n: "next_ready q = Min ?L" using False by (simp only: next_ready_def Let_def) simp
  have fin: "finite ?L" by simp
  have "Min ?L \<in> ?L" by (rule Min_in [OF fin False])
  moreover have "Min ?L \<le> h" if "current_controller q < h" by (rule Min_le [OF fin]) (use assms(1) that in simp)
  ultimately show ?thesis
    using assms(2) by (cases "current_controller q < h") (auto simp: before_def n)
qed

text \<open>A waiting controller keeps waiting until it is served or the device is marked for destruction.\<close>

definition waits :: "int \<Rightarrow> RPTDevice \<Rightarrow> bool" where
  "waits h c \<longleftrightarrow> q_ok (dev_rpt_msgs c) \<and> h \<in> ready (dev_rpt_msgs c)"

lemma push_rpt_queue:
  "dev_rpt_msgs (snd (RPTDevice_Push_rpt E c k cid msg)) = dev_rpt_msgs c \<or>
   \<not> marked_for_destruction c \<and>
   (\<exists>v. dev_rpt_msgs (snd (RPTDevice_Push_rpt E c k cid msg)) = RptMsgQ_push_back (dev_rpt_msgs c) k v)"
  "marked_for_destruction (snd (RPTDevice_Push_rpt E c k cid msg)) = marked_for_destruction c"
  by (auto simp: RPTDevice_Push_rpt_def RPTClient_PushPostSizeCheck_def push_packed_def Let_def)

lemma push_broker_queue [simp]:
  "dev_rpt_msgs (snd (RPTDevice_Push_broker E c cid msg)) = dev_rpt_msgs c"
  "marked_for_destruction (snd (RPTDevice_Push_broker E c cid msg)) = marked_for_destruction c"
  by (auto simp: RPTDevice_Push_broker_def push_broker_def BrokerClient_PushPostSizeCheck_def push_packed_def)

lemma waits_push_rpt:
  assumes "waits h c" and "k \<noteq> kInvalidHandle"
  shows "waits h (snd (RPTDevice_Push_rpt E c k cid msg))"
    and "current_controller (dev_rpt_msgs (snd (RPTDevice_Push_rpt E c k cid msg))) = current_controller (dev_rpt_msgs c)"
  using assms push_rpt_queue [of E c k cid msg] by (auto simp: waits_def push_back_ok ready_push_back)

definition retired :: "RPTDevice \<Rightarrow> bool" where
  "retired c \<longleftrightarrow> marked_for_destruction c \<and> q_ok (dev_rpt_msgs c) \<and> total_msg_count (dev_rpt_msgs c) = 0"

lemma retired_mark: "retired (RPTDevice_MarkForDestruction E c cid uid action)"
  by (auto simp: retired_def RPTDevice_MarkForDestruction_def MarkForDestruction_def ApplyDestroyAction_def
      RPTDevice_ClearAllQueues_def split: ClientDestroyAction.splits) (simp_all add: RptMsgQ_clear_def)

lemma retired_serves_none:
  assumes "dev_run E send expired reset cid ops c s = Some (ks, c', s')" and "retired c"
  shows "ks = []"
  using assms
proof (induction ops arbitrary: c s ks rule: valid_pushes.induct)
  case (2 k from_cid msg ops)
  then show ?case using "2.IH" [of c s ks] by (simp add: retired_def RPTDevice_Push_rpt_def)
next
  case (3 from_cid msg ops)
  then show ?case using "3.IH" [of "snd (RPTDevice_Push_broker E c from_cid msg)" s ks] by (simp add: retired_def)
next
  case (4 from_cid uid action ops)
  then show ?case using retired_mark by simp
next
  case (5 ops)
  then obtain ok c2 s2 ks2 where send: "RPTDevice_Send E send expired reset s c cid = Some (ok, c2, s2)"
    and run: "dev_run E send expired reset cid ops c2 s2 = Some (ks2, c', s')" and ks: "ks = served c c2 @ ks2"
    by (auto simp: bind_eq_Some_conv)
  have q: "q_ok (dev_rpt_msgs c)" and t: "total_msg_count (dev_rpt_msgs c) = 0" using "5.prems"(2) by (simp_all add: retired_def)
  have "dev_rpt_msgs c2 = dev_rpt_msgs c" using send q by (cases rule: device_send_cases) (simp_all add: t)
  then have "retired c2" using "5.prems"(2) device_send_keeps [OF send] by (simp add: retired_def)
  then show ?case using "5.IH" [OF run] t by (simp add: ks served_def RptMsgQ_empty_def)
qed simp

lemma device_send_fair:
  assumes "RPTDevice_Send E send expired reset s c cid = Some (ok, c', s')" and "waits h c"
  obtains "served c c' = []" "waits h c'" "dev_rpt_msgs c' = dev_rpt_msgs c"
  | k where "served c c' = [k]" "k = next_ready (dev_rpt_msgs c)" "current_controller (dev_rpt_msgs c') = k"
      "h \<in> ready (dev_rpt_msgs c)" "k \<noteq> h \<Longrightarrow> waits h c'"
proof -
  have q: "q_ok (dev_rpt_msgs c)" using assms(2) by (simp add: waits_def)
  note keeps = device_send_keeps [OF assms(1)]
  from assms(1) q show ?thesis
  proof (cases rule: device_send_cases)
    case (broker res bq)
    then show ?thesis using that(1) assms(2) keeps by (simp add: served_def waits_def)
  next
    case idle
    then show ?thesis using that(1) assms(2) keeps by (simp add: served_def waits_def RptMsgQ_empty_def)
  next
    case (serve res)
    let ?k = "next_ready (dev_rpt_msgs c)"
    have k: "?k \<in> ready (dev_rpt_msgs c\<lparr>current_controller := ?k\<rparr>)" using serve(2) ready_empty [OF q] next_ready_in by simp
    have h: "h \<in> ready (dev_rpt_msgs c)" using assms(2) serve(2) by (simp add: waits_def)
    note ok = send_fair_ok [OF _ _ k serve(4), unfolded q_ok_current, OF q, simplified]
    then show ?thesis using that(2) [of ?k] h serve(1,2) by (auto simp: served_def waits_def RptMsgQ_empty_def)
  qed
qed

lemma served_in_turn:
  assumes "dev_run E send expired reset cid ops c s = Some (ks, c', s')" and "waits h c" and "valid_pushes ops"
  shows "sorted_wrt (before h) (takeWhile (\<lambda>k. k \<noteq> h) ks) \<and>
    (current_controller (dev_rpt_msgs c) \<noteq> h \<longrightarrow>
      (\<forall>k \<in> set (takeWhile (\<lambda>k. k \<noteq> h) ks). before h (current_controller (dev_rpt_msgs c)) k))"
  using assms
proof (induction ops arbitrary: c s ks rule: valid_pushes.induct)
  case (2 k from_cid msg ops)
  then show ?case using "2.IH" [of "snd (RPTDevice_Push_rpt E c k from_cid msg)" s ks] waits_push_rpt [of h c k E from_cid msg]
    by simp
next
  case (3 from_cid msg ops)
  then have "waits h (snd (RPTDevice_Push_broker E c from_cid msg))" by (simp add: waits_def)
  then show ?case using "3.IH" [of "snd (RPTDevice_Push_broker E c from_cid msg)" s ks] "3.prems" by simp
next
  case (4 from_cid uid action ops)
  then have "ks = []" by (simp add: retired_serves_none [OF _ retired_mark])
  then show ?case by simp
next
  case (5 ops)
  then obtain ok c2 s2 ks2 where send: "RPTDevice_Send E send expired reset s c cid = Some (ok, c2, s2)"
    and run: "dev_run E send expired reset cid ops c2 s2 = Some (ks2, c', s')" and ks: "ks = served c c2 @ ks2"
    by (auto simp: bind_eq_Some_conv)
  note IH = "5.IH" [OF run]
  from send "5.prems"(2) show ?case
  proof (cases rule: device_send_fair)
    case 1
    then show ?thesis using IH "5.prems"(3) by (simp add: ks)
  next
    case (2 k)
    show ?thesis
    proof (cases "k = h")
      case False
      have "before h (current_controller (dev_rpt_msgs c)) k" if "current_controller (dev_rpt_msgs c) \<noteq> h"
        using next_ready_after [OF 2(4) that] 2(2) by simp
      then show ?thesis using IH 2 False "5.prems"(3) by (auto simp: ks intro: before_trans)
    qed (simp add: ks 2(1))
  qed
qed simp

text \<open>
  C6. The fair queue of a device starves no controller: from any moment at which a controller has a
  request waiting, no other controller is served twice before it is served itself, whatever is pushed,
  sent or marked for destruction in between. So with \<open>n\<close> other controllers it is among the next \<open>n + 1\<close> that
  are served.
\<close>

theorem fair_queue:
  assumes "dev_run E send expired reset cid ops c s = Some (ks, c', s')" and "q_ok (dev_rpt_msgs c)"
    and "h \<in> ready (dev_rpt_msgs c)" and "valid_pushes ops"
  shows "distinct (takeWhile (\<lambda>k. k \<noteq> h) ks) \<and>
    (finite K \<and> set ks \<subseteq> insert h K \<and> card K < length ks \<longrightarrow> h \<in> set ks)"
proof -
  have "sorted_wrt (before h) (takeWhile (\<lambda>k. k \<noteq> h) ks)"
    using served_in_turn [OF assms(1) _ assms(4)] assms(2,3) by (simp add: waits_def)
  then have d: "distinct (takeWhile (\<lambda>k. k \<noteq> h) ks)" by (rule distinct_before)
  moreover have "h \<in> set ks" if "finite K" "set ks \<subseteq> insert h K" "card K < length ks"
  proof (rule ccontr)
    assume h: "h \<notin> set ks"
    then have all: "takeWhile (\<lambda>k. k \<noteq> h) ks = ks" by (auto simp: takeWhile_eq_all_conv)
    have "length ks = card (set ks)" using d unfolding all by (simp add: distinct_card)
    also have "\<dots> \<le> card K" using that h by (intro card_mono) auto
    finally show False using that(3) by simp
  qed
  ultimately show ?thesis by blast
qed

text \<open>A device with two requests of one controller and one of another.\<close>

definition busy_device :: RPTDevice where
  "busy_device =
     \<lparr>bc_cid = [], bc_client_protocol = kClientProtocolRPT, bc_handle = 0, bc_socket = Some 5, max_q_size = 4,
      marked_for_destruction = False, broker_msgs = [], bc_send_timer = \<lparr>timer_interval = 15000, timer_reset_time = 0\<rparr>,
      bc_heartbeat_timer = \<lparr>timer_interval = 45000, timer_reset_time = 0\<rparr>,
      rc_uid = blank_uid, rc_client_type = 0, rc_binding_cid = [], status_msgs = [],
      dev_rpt_msgs = \<lparr>total_msg_count = 3,
        rpt_msgs = [(1, [\<lparr>mr_data = [10, 11], size_sent = 0\<rparr>, \<lparr>mr_data = [12, 13], size_sent = 0\<rparr>]),
                    (2, [\<lparr>mr_data = [20, 21], size_sent = 0\<rparr>])],
        current_controller = kInvalidHandle\<rparr>\<rparr>"

lemma busy_device_ok: "q_ok (dev_rpt_msgs busy_device)" "2 \<in> ready (dev_rpt_msgs busy_device)" "device_ok busy_device"
  by (simp_all add: busy_device_def device_ok_def q_ok_def ready_def dev_msgs_def msg_ok_def)

lemma front_loop_hit: "snd (m ! i) \<noteq> [] \<Longrightarrow> front_loop m cur i = Some i"
  by (subst front_loop.simps) simp

lemmas device_run_defs = RPTDevice_Send_def RptMsgQ_empty_def RptMsgQ_front_def start_index_def front_loop_hit
  send_fair_def send_front_def RptMsgQ_pop_front_def served_def

lemma busy_device_run:
  "\<exists>c'. dev_run etcpal_be stream_send (\<lambda>_. False) id [] [DevSend, DevSend, DevSend] busy_device [] =
     Some ([1, 2, 1], c', [10, 11, 20, 21, 12, 13])"
  by (simp add: busy_device_def device_run_defs Let_def)

theorem device_well_formed_witness:
  "\<exists>ks c' s'. dev_run etcpal_be stream_send (\<lambda>_. False) id [] [DevSend, DevSend, DevSend] busy_device [] = Some (ks, c', s') \<and>
     device_ok c'"
proof -
  from busy_device_run obtain c' where
    run: "dev_run etcpal_be stream_send (\<lambda>_. False) id [] [DevSend, DevSend, DevSend] busy_device [] =
      Some ([1, 2, 1], c', [10, 11, 20, 21, 12, 13])" by blast
  from device_well_formed [OF run busy_device_ok(3)] run show ?thesis by simp
qed

theorem fair_queue_witness:
  "\<exists>ks c' s'. dev_run etcpal_be stream_send (\<lambda>_. False) id [] [DevSend, DevSend, DevSend] busy_device [] = Some (ks, c', s') \<and>
     distinct (takeWhile (\<lambda>k. k \<noteq> 2) ks) \<and> 2 \<in> set ks"
proof -
  from busy_device_run obtain c' where
    run: "dev_run etcpal_be stream_send (\<lambda>_. False) id [] [DevSend, DevSend, DevSend] busy_device [] =
      Some ([1, 2, 1], c', [10, 11, 20, 21, 12, 13])" by blast
  from fair_queue [OF run busy_device_ok(1,2), of "{1}"] run show ?thesis by simp
qed


section \<open>Sending returns\<close>

lemma bind_returns: "x \<noteq> None \<Longrightarrow> (\<And>y. x = Some y \<Longrightarrow> f y \<noteq> None) \<Longrightarrow> Option.bind x f \<noteq> None"
  by (cases x) simp_all

lemma send_heartbeat_returns:
  assumes "\<forall>m. rc_send send s m \<noteq> None"
  shows "send_heartbeat E send expired reset s c cid \<noteq> None"
proof -
  obtain y where "rc_send send s (rc_broker_pack_null E (BROKER_PDU_FULL_HEADER_SIZE E) cid) = Some y" using assms by blast
  then show ?thesis by (cases y) (auto simp: send_heartbeat_def SendNull_def)
qed

text \<open>
  Sending to a device with well-formed queues returns if the socket answers at all: the search of
  the fair queue for the next controller ends.
\<close>

lemma device_send_returns:
  assumes "q_ok (dev_rpt_msgs c)" and "\<forall>m. rc_send send s m \<noteq> None"
  shows "RPTDevice_Send E send expired reset s c cid \<noteq> None"
proof -
  have front: "send_front send s q \<noteq> None" for q using assms(2) by (intro send_front_returns) (rule spec)
  then have fair: "send_fair send s q k \<noteq> None" for q k
    unfolding send_fair_def by (intro bind_returns) (simp_all del: not_None_eq split: prod.splits)
  show ?thesis
  proof (cases "broker_msgs c = [] \<and> total_msg_count (dev_rpt_msgs c) \<noteq> 0")
    case True
    then show ?thesis
      using fair by (simp add: RPTDevice_Send_def RptMsgQ_empty_def front_spec [OF assms(1)] Let_def bind_returns split: prod.splits del: not_None_eq)
  next
    case False
    then show ?thesis
      using front send_heartbeat_returns [OF assms(2)]
      by (cases "broker_msgs c = []")
        (simp_all add: RPTDevice_Send_def RptMsgQ_empty_def Let_def bind_returns split: prod.splits del: not_None_eq)
  qed
qed

lemma controller_send_returns:
  assumes "\<forall>m. rc_send send s m \<noteq> None"
  shows "RPTController_Send E send expired reset s c cid \<noteq> None"
proof -
  have "send_front send s q \<noteq> None" for q using assms by (intro send_front_returns) (rule spec)
  then show ?thesis
    by (simp add: RPTController_Send_def Let_def bind_returns send_heartbeat_returns [OF assms] split: prod.splits del: not_None_eq)
qed

lemma client_send_returns:
  assumes "\<forall>m. rc_send send s m \<noteq> None"
  shows "BrokerClient_Send E send expired reset s c cid \<noteq> None"
proof -
  have "send_front send s q \<noteq> None" for q using assms by (intro send_front_returns) (rule spec)
  then show ?thesis
    by (simp add: BrokerClient_Send_def bind_returns send_heartbeat_returns [OF assms] split: prod.splits del: not_None_eq)
qed

section \<open>The stream of bytes to a client\<close>

text \<open>
  What a queue of messages promises: the bytes on the wire and those that are pending form a stream, to
  which an accepted message is appended. Some of what is pending may be transmitted at any time. When
  nothing is pending a heartbeat may be sent, or the beginning of it. When the client is cancelled, what is pending is dropped,
  also the rest of a message that has been sent in part, and a last message takes its place.
\<close>

datatype stream_event = Accepted bytes | Cancelled bytes

inductive stream :: "bytes \<Rightarrow> stream_event list \<Rightarrow> bytes \<times> bytes \<Rightarrow> bytes \<times> bytes \<Rightarrow> bool" for null where
  stream_end: "stream null [] x x"
| stream_accept: "stream null es (w, p @ m) y \<Longrightarrow> stream null (Accepted m # es) (w, p) y"
| stream_transmit: "stream null es (w @ take n p, drop n p) y \<Longrightarrow> stream null es (w, p) y"
| stream_heartbeat: "stream null es (w @ take n null, []) y \<Longrightarrow> stream null es (w, []) y"
| stream_cancel: "stream null es (w, d) y \<Longrightarrow> stream null (Cancelled d # es) (w, p) y"

text \<open>Without heartbeats, and until it is cancelled, nothing is lost, repeated or changed in order.\<close>

lemma stream_fifo: "stream [] es (w, p) (w', p') \<Longrightarrow> es = map Accepted ms \<Longrightarrow> w' @ p' = w @ p @ concat ms"
  by (induction es "(w, p)" "(w', p')" arbitrary: w p ms rule: stream.induct) auto

text \<open>
  A run of a client: pushes, sends and cancellations. A push gives the bytes it has accepted, if any, and a cancellation
  the bytes of the last message.
\<close>

datatype ('m, 'a) stream_op = PushOp 'm | SendOp | CancelOp 'a

fun stream_run ::
  "('m \<Rightarrow> 'c \<Rightarrow> bytes option \<times> 'c) \<Rightarrow> ('c \<Rightarrow> 's \<Rightarrow> ('c \<times> 's) option) \<Rightarrow> ('a \<Rightarrow> 'c \<Rightarrow> bytes \<times> 'c)
   \<Rightarrow> ('m, 'a) stream_op list \<Rightarrow> 'c \<Rightarrow> 's \<Rightarrow> (stream_event list \<times> 'c \<times> 's) option" where
  "stream_run push send cancel [] c s = Some ([], c, s)"
| "stream_run push send cancel (PushOp m # ops) c s =
     (case push m c of
        (acc, c') \<Rightarrow> do {
          (es, r) \<leftarrow> stream_run push send cancel ops c' s;
          Some ((case acc of None \<Rightarrow> es | Some d \<Rightarrow> Accepted d # es), r)
        })"
| "stream_run push send cancel (SendOp # ops) c s = do {
     (c', s') \<leftarrow> send c s;
     stream_run push send cancel ops c' s'
   }"
| "stream_run push send cancel (CancelOp a # ops) c s =
     (case cancel a c of
        (d, c') \<Rightarrow> do {
          (es, r) \<leftarrow> stream_run push send cancel ops c' s;
          Some (Cancelled d # es, r)
        })"

locale byte_stream =
  fixes push :: "'m \<Rightarrow> 'c \<Rightarrow> bytes option \<times> 'c"
    and send :: "'c \<Rightarrow> 's \<Rightarrow> ('c \<times> 's) option"
    and cancel :: "'a \<Rightarrow> 'c \<Rightarrow> bytes \<times> 'c"
    and pend :: "'c \<Rightarrow> bytes"
    and cancelled :: "'c \<Rightarrow> bool"
    and wire :: "'s \<Rightarrow> bytes"
    and null :: bytes
  assumes push_accepts: "push m c = (Some d, c') \<Longrightarrow> pend c' = pend c @ d \<and> \<not> cancelled c"
    and push_refuses: "push m c = (None, c') \<Longrightarrow> pend c' = pend c"
    and push_cancelled: "push m c = (acc, c') \<Longrightarrow> cancelled c' = cancelled c"
    and cancel_replaces: "cancel a c = (d, c') \<Longrightarrow> pend c' = d \<and> cancelled c'"
    and send_transmits: "send c s = Some (c', s') \<Longrightarrow>
      (\<exists>n. wire s' = wire s @ take n (pend c) \<and> pend c' = drop n (pend c)) \<or>
      (pend c = [] \<and> pend c' = [] \<and> (\<exists>n. wire s' = wire s @ take n null))"
    and send_cancelled: "send c s = Some (c', s') \<Longrightarrow> cancelled c' = cancelled c"
begin

lemma run_refines_stream:
  "stream_run push send cancel ops c s = Some (es, c', s') \<Longrightarrow> stream null es (wire s, pend c) (wire s', pend c')"
proof (induction ops arbitrary: c s es)
  case Nil
  then show ?case by (simp add: stream_end)
next
  case (Cons op ops)
  show ?case
  proof (cases op)
    case SendOp
    with Cons.prems obtain c2 s2 where send: "send c s = Some (c2, s2)" and "stream_run push send cancel ops c2 s2 = Some (es, c', s')"
      by (auto simp: bind_eq_Some_conv)
    with Cons.IH have "stream null es (wire s2, pend c2) (wire s', pend c')" by blast
    with send_transmits [OF send] show ?thesis by (metis stream_transmit stream_heartbeat)
  next
    case (PushOp m)
    obtain acc c2 where push: "push m c = (acc, c2)" by fastforce
    with PushOp Cons.prems obtain es2 where "stream_run push send cancel ops c2 s = Some (es2, c', s')"
      and es: "es = (case acc of None \<Rightarrow> es2 | Some d \<Rightarrow> Accepted d # es2)" by (auto simp: bind_eq_Some_conv)
    with Cons.IH have "stream null es2 (wire s, pend c2) (wire s', pend c')" by blast
    then show ?thesis using push push_accepts push_refuses es by (cases acc) (auto intro: stream_accept)
  next
    case (CancelOp a)
    obtain d c2 where cancel: "cancel a c = (d, c2)" by fastforce
    with CancelOp Cons.prems obtain es2 where "stream_run push send cancel ops c2 s = Some (es2, c', s')" and es: "es = Cancelled d # es2"
      by (auto simp: bind_eq_Some_conv)
    with Cons.IH have "stream null es2 (wire s, pend c2) (wire s', pend c')" by blast
    then show ?thesis using cancel_replaces [OF cancel] es by (auto intro: stream_cancel)
  qed
qed

text \<open>Once it is cancelled, the client accepts nothing more.\<close>

lemma run_until_cancelled:
  "stream_run push send cancel ops c s = Some (es, c', s') \<Longrightarrow>
    \<exists>ms ds. es = map Accepted ms @ map Cancelled ds \<and> (cancelled c \<longrightarrow> ms = [])"
proof (induction ops arbitrary: c s es)
  case (Cons op ops)
  show ?case
  proof (cases op)
    case SendOp
    with Cons.prems obtain c2 s2 where send: "send c s = Some (c2, s2)" and "stream_run push send cancel ops c2 s2 = Some (es, c', s')"
      by (auto simp: bind_eq_Some_conv)
    with Cons.IH send_cancelled [OF send] show ?thesis by blast
  next
    case (PushOp m)
    obtain acc c2 where push: "push m c = (acc, c2)" by fastforce
    with PushOp Cons.prems obtain es2 where "stream_run push send cancel ops c2 s = Some (es2, c', s')"
      and es: "es = (case acc of None \<Rightarrow> es2 | Some d \<Rightarrow> Accepted d # es2)" by (auto simp: bind_eq_Some_conv)
    with Cons.IH push_cancelled [OF push] obtain ms ds where "es2 = map Accepted ms @ map Cancelled ds" "cancelled c \<longrightarrow> ms = []" by blast
    then have "es = map Accepted ((case acc of None \<Rightarrow> [] | Some d \<Rightarrow> [d]) @ ms) @ map Cancelled ds" "cancelled c \<longrightarrow> acc = None \<and> ms = []"
      using push push_accepts es by (cases acc; auto)+
    then show ?thesis by (intro exI [of _ "(case acc of None \<Rightarrow> [] | Some d \<Rightarrow> [d]) @ ms"] exI [of _ ds]) simp
  next
    case (CancelOp a)
    obtain d c2 where cancel: "cancel a c = (d, c2)" by fastforce
    with CancelOp Cons.prems obtain es2 where "stream_run push send cancel ops c2 s = Some (es2, c', s')" and es: "es = Cancelled d # es2"
      by (auto simp: bind_eq_Some_conv)
    with Cons.IH cancel_replaces [OF cancel] obtain ds where "es2 = map Cancelled ds" by fastforce
    then show ?thesis using es by (intro exI [of _ "[]"] exI [of _ "d # ds"]) simp
  qed
qed simp

end

text \<open>
  A socket that records what it has taken. How much it takes of each message, and its errors, are
  those of \<open>acc\<close>, which may be anything.
\<close>

definition log_send ::
  "('w \<Rightarrow> bytes \<Rightarrow> (etcpal_error_t + nat) \<times> 'w) \<Rightarrow> 'w \<times> bytes \<Rightarrow> bytes \<Rightarrow> (etcpal_error_t + nat) \<times> 'w \<times> bytes" where
  "log_send acc s m =
     (case acc (fst s) m of
        (Inl e, w) \<Rightarrow> (Inl e, w, snd s)
      | (Inr n, w) \<Rightarrow> (Inr (min n (length m)), w, snd s @ take n m))"

lemma rc_send_log:
  assumes "rc_send (log_send acc) s m = Some (res, s')"
  shows "case res of Inl e \<Rightarrow> snd s' = snd s | Inr n \<Rightarrow> n \<le> length m \<and> snd s' = snd s @ take n m"
proof -
  let ?P = "\<lambda>send s m y. send = log_send acc \<longrightarrow>
    (case y of (Inl e, s') \<Rightarrow> snd s' = snd s | (Inr n, s') \<Rightarrow> n \<le> length m \<and> snd s' = snd s @ take n m)"
  have "?P (log_send acc) s m (res, s')"
  proof (rule rc_send.raw_induct [OF _ assms, where P = ?P], intro impI)
    fix f :: "('a \<times> bytes \<Rightarrow> bytes \<Rightarrow> (etcpal_error_t + nat) \<times> 'a \<times> bytes) \<Rightarrow> 'a \<times> bytes \<Rightarrow> bytes
      \<Rightarrow> ((etcpal_error_t + nat) \<times> 'a \<times> bytes) option" and send s m y
    assume IH: "\<And>send s m y. f send s m = Some y \<Longrightarrow> ?P send s m y"
      and y: "(case send s m of (res, s') \<Rightarrow> if res = Inl kEtcPalErrWouldBlock then f send s' m else Some (res, s')) = Some y"
      and send: "send = log_send acc"
    show "case y of (Inl e, s') \<Rightarrow> snd s' = snd s | (Inr n, s') \<Rightarrow> n \<le> length m \<and> snd s' = snd s @ take n m"
    proof (cases "acc (fst s) m")
      case (Pair r w)
      show ?thesis
      proof (cases "r = Inl kEtcPalErrWouldBlock")
        case True
        then have "f send (w, snd s) m = Some y" using y Pair by (simp add: send log_send_def)
        from IH [OF this] send show ?thesis by (cases y) (simp split: sum.splits)
      next
        case False
        have "take (min n (length m)) m = take n m" for n by (simp add: min_def)
        then show ?thesis using y Pair False by (cases r) (auto simp: send log_send_def)
      qed
    qed
  qed
  then show ?thesis by simp
qed

text \<open>A client of the broker as a queue of bytes.\<close>

definition pending :: "MessageRef list \<Rightarrow> bytes" where
  "pending q = concat (map (\<lambda>m. drop (size_sent m) (mr_data m)) q)"

lemma send_front_stream:
  assumes "send_front (log_send acc) s q = Some (res, q', s')" and "q \<noteq> []"
  shows "\<exists>n. snd s' = snd s @ take n (pending q) \<and> pending q' = drop n (pending q)"
proof -
  obtain m r where q: "q = m # r" using assms(2) by (cases q) simp_all
  let ?d = "drop (size_sent m) (mr_data m)"
  from assms(1) [unfolded q] show ?thesis
  proof (cases rule: send_front_cases)
    case (1 e)
    then show ?thesis using rc_send_log [OF 1(3)] by (intro exI [of _ 0]) (simp add: q)
  next
    case (2 n)
    then show ?thesis using rc_send_log [OF 2(4)] by (intro exI [of _ n]) (simp add: q pending_def)
  next
    case (3 n)
    then show ?thesis using rc_send_log [OF 3(4)] by (intro exI [of _ n]) (simp add: q pending_def add.commute)
  qed
qed

definition client_push :: "etcpal \<Rightarrow> EtcPalUuid \<times> BrokerMessage \<Rightarrow> BrokerClient \<Rightarrow> bytes option \<times> BrokerClient" where
  "client_push E m c =
     (case BrokerClient_Push E c (fst m) (snd m) of
        (res, c') \<Rightarrow> (if res = PushOk then Some (pack_broker_message E (fst m) (snd m)) else None, c'))"

definition client_send ::
  "etcpal \<Rightarrow> ('s \<Rightarrow> bytes \<Rightarrow> (etcpal_error_t + nat) \<times> 's) \<Rightarrow> (EtcPalTimer \<Rightarrow> bool) \<Rightarrow> (EtcPalTimer \<Rightarrow> EtcPalTimer)
   \<Rightarrow> EtcPalUuid \<Rightarrow> BrokerClient \<Rightarrow> 's \<Rightarrow> (BrokerClient \<times> 's) option" where
  "client_send E send expired reset broker_cid c s = map_option snd (BrokerClient_Send E send expired reset s c broker_cid)"

text \<open>The last message of a client that is marked for destruction: a Connect Reply or a Disconnect, if there is to be one.\<close>

definition farewell :: "etcpal \<Rightarrow> EtcPalUuid \<Rightarrow> RdmUid \<Rightarrow> ClientDestroyAction \<Rightarrow> bytes" where
  "farewell E broker_cid broker_uid action =
     (case action of
        SendConnectReply status \<Rightarrow>
          pack_broker_message E broker_cid (blank_broker_message\<lparr>bm_vector := VECTOR_BROKER_CONNECT_REPLY,
            connect_reply := \<lparr>cr_connect_status = status, cr_e133_version = E133_VERSION,
              cr_broker_uid = broker_uid, cr_client_uid = blank_uid\<rparr>\<rparr>)
      | SendDisconnect reason \<Rightarrow>
          pack_broker_message E broker_cid (blank_broker_message\<lparr>bm_vector := VECTOR_BROKER_DISCONNECT, disconnect_reason := reason\<rparr>)
      | MarkSocketInvalid \<Rightarrow> []
      | DoNothing \<Rightarrow> [])"

definition client_cancel :: "etcpal \<Rightarrow> EtcPalUuid \<times> RdmUid \<times> ClientDestroyAction \<Rightarrow> BrokerClient \<Rightarrow> bytes \<times> BrokerClient" where
  "client_cancel E a c =
     (case a of (cid, uid, action) \<Rightarrow>
        (if marked_for_destruction c then [] else farewell E cid uid action,
         MarkForDestruction (BrokerClient_Push E) BrokerClient_ClearAllQueues c cid uid action))"

lemma client_cancel_replaces:
  "client_cancel E a c = (d, c') \<Longrightarrow> pending (broker_msgs c') = d \<and> marked_for_destruction c'"
  by (cases a; cases "snd (snd a)")
    (auto simp: client_cancel_def MarkForDestruction_def ApplyDestroyAction_def BrokerClient_ClearAllQueues_def farewell_def BrokerClient_Push_def
      push_broker_def BrokerClient_HasRoomToPush_def BrokerClient_PushPostSizeCheck_def push_packed_def pending_def split: if_split_asm)

interpretation client_stream: byte_stream "client_push E" "client_send E (log_send acc) expired reset broker_cid" "client_cancel E"
  "\<lambda>c. pending (broker_msgs c)" marked_for_destruction snd "rc_broker_pack_null E (BROKER_PDU_FULL_HEADER_SIZE E) broker_cid"
  for E acc expired reset broker_cid
proof
  fix m c d c' acc'
  show "client_push E m c = (Some d, c') \<Longrightarrow> pending (broker_msgs c') = pending (broker_msgs c) @ d \<and> \<not> marked_for_destruction c"
    and "client_push E m c = (None, c') \<Longrightarrow> pending (broker_msgs c') = pending (broker_msgs c)"
    and "client_push E m c = (acc', c') \<Longrightarrow> marked_for_destruction c' = marked_for_destruction c"
    by (auto simp: client_push_def BrokerClient_Push_def push_broker_def BrokerClient_PushPostSizeCheck_def
        push_packed_def pending_def split: if_split_asm prod.split_asm)
next
  fix a c d c'
  show "client_cancel E a c = (d, c') \<Longrightarrow> pending (broker_msgs c') = d \<and> marked_for_destruction c'" by (rule client_cancel_replaces)
next
  fix c s c' s'
  assume "client_send E (log_send acc) expired reset broker_cid c s = Some (c', s')"
  then obtain ok where send: "BrokerClient_Send E (log_send acc) expired reset s c broker_cid = Some (ok, c', s')"
    by (auto simp: client_send_def)
  let ?p = "\<lambda>c. pending (broker_msgs c)" and ?null = "rc_broker_pack_null E (BROKER_PDU_FULL_HEADER_SIZE E) broker_cid"
  show "(\<exists>n. snd s' = snd s @ take n (?p c) \<and> ?p c' = drop n (?p c)) \<or> (?p c = [] \<and> ?p c' = [] \<and> (\<exists>n. snd s' = snd s @ take n ?null))"
  proof (cases "broker_msgs c = []")
    case False
    with send obtain res q where "send_front (log_send acc) s (broker_msgs c) = Some (res, q, s')" "broker_msgs c' = q"
      by (auto simp: BrokerClient_Send_def bind_eq_Some_conv)
    with send_front_stream False show ?thesis by metis
  next
    case True
    have "\<exists>n. snd s2 = snd s @ take n ?null" if "rc_send (log_send acc) s ?null = Some (r, s2)" for r s2
      using rc_send_log [OF that] by (cases r) (auto intro: exI [of _ 0])
    with True send show ?thesis
      by (auto simp: BrokerClient_Send_def send_heartbeat_def SendNull_def bind_eq_Some_conv pending_def intro: exI [of _ 0]
          split: if_split_asm)
  qed
next
  fix c s c' s'
  show "client_send E (log_send acc) expired reset broker_cid c s = Some (c', s') \<Longrightarrow> marked_for_destruction c' = marked_for_destruction c"
    by (auto simp: client_send_def BrokerClient_Send_def send_heartbeat_def bind_eq_Some_conv split: if_split_asm sum.split_asm prod.split_asm)
qed

text \<open>
  C7. A client with only broker messages is a stream until it is marked for destruction: on any socket, whatever it takes and
  whatever errors it has, the bytes on the wire and those pending evolve as the stream of the accepted messages in the order in
  which they were pushed. A heartbeat is sent only when nothing is pending; of a heartbeat that the socket takes in part only
  the beginning is sent. Marking the client drops what is pending, also the rest of a message of which the beginning has been
  sent, and puts the last message in its place, if there is one; after that the client accepts nothing, and marking it again drops
  the last message too.
\<close>

theorem client_refines_stream:
  assumes "stream_run (client_push E) (client_send E (log_send acc) expired reset broker_cid) (client_cancel E) ops c s = Some (es, c', s')"
  shows "stream (rc_broker_pack_null E (BROKER_PDU_FULL_HEADER_SIZE E) broker_cid) es
      (snd s, pending (broker_msgs c)) (snd s', pending (broker_msgs c')) \<and>
    (\<exists>ms ds. es = map Accepted ms @ map Cancelled ds \<and> (marked_for_destruction c \<longrightarrow> ms = []))"
  using client_stream.run_refines_stream [OF assms] client_stream.run_until_cancelled [OF assms] by (rule conjI)

text \<open>A message of which one byte is sent, then another message, and then the client is marked.\<close>

definition small_client :: BrokerClient where
  "small_client = (new_BrokerClient (\<lambda>i. \<lparr>timer_interval = i, timer_reset_time = 0\<rparr>) 3 (Some 5) 0)
     \<lparr>broker_msgs := [\<lparr>mr_data = [1, 2, 3], size_sent = 0\<rparr>]\<rparr>"

definition half_send :: "nat \<Rightarrow> bytes \<Rightarrow> (etcpal_error_t + nat) \<times> nat" where
  "half_send w m = (Inr w, length m)"

lemma disconnect_packs: "pack_broker_message etcpal_be (replicate 16 9)
    (blank_broker_message\<lparr>bm_vector := VECTOR_BROKER_DISCONNECT, disconnect_reason := 3\<rparr>) \<noteq> []"
  using broker_packed [of etcpal_be "replicate 16 9" "pack_u16b etcpal_be 3" VECTOR_BROKER_DISCONNECT]
  by (auto simp: pack_broker_message_def rc_broker_pack_disconnect_def BROKER_DISCONNECT_FULL_MSG_SIZE_def etcpal_simps Let_def)

definition small_ops :: "(EtcPalUuid \<times> BrokerMessage, EtcPalUuid \<times> RdmUid \<times> ClientDestroyAction) stream_op list" where
  "small_ops = [SendOp, PushOp (replicate 16 9, blank_broker_message\<lparr>bm_vector := VECTOR_BROKER_DISCONNECT, disconnect_reason := 3\<rparr>),
     CancelOp (replicate 16 9, blank_uid, SendDisconnect 3)]"

lemma small_client_run:
  "\<exists>c'. stream_run (client_push etcpal_be) (client_send etcpal_be (log_send half_send) (\<lambda>_. False) id []) (client_cancel etcpal_be)
      small_ops small_client (1, []) =
    Some ([Accepted (farewell etcpal_be (replicate 16 9) blank_uid (SendDisconnect 3)), Cancelled (farewell etcpal_be (replicate 16 9) blank_uid (SendDisconnect 3))],
      c', (3, [1]))"
  using disconnect_packs
  by (simp add: small_ops_def small_client_def new_BrokerClient_def client_push_def BrokerClient_Push_def push_broker_def BrokerClient_HasRoomToPush_def
      BrokerClient_PushPostSizeCheck_def push_packed_def client_send_def BrokerClient_Send_def send_front_def Let_def
      log_send_def half_send_def rc_send.simps client_cancel_def farewell_def)

theorem client_refines_stream_witness:
  "\<exists>es c' s'. stream_run (client_push etcpal_be) (client_send etcpal_be (log_send half_send) (\<lambda>_. False) id []) (client_cancel etcpal_be)
      small_ops small_client (1, []) = Some (es, c', s') \<and> length es = 2 \<and>
    stream (rc_broker_pack_null etcpal_be (BROKER_PDU_FULL_HEADER_SIZE etcpal_be) []) es ([], [1, 2, 3]) ([1], pending (broker_msgs c')) \<and>
    (\<exists>ms ds. es = map Accepted ms @ map Cancelled ds)"
proof -
  from small_client_run obtain c' where
    run: "stream_run (client_push etcpal_be) (client_send etcpal_be (log_send half_send) (\<lambda>_. False) id []) (client_cancel etcpal_be)
      small_ops small_client (1, []) =
    Some ([Accepted (farewell etcpal_be (replicate 16 9) blank_uid (SendDisconnect 3)), Cancelled (farewell etcpal_be (replicate 16 9) blank_uid (SendDisconnect 3))],
      c', (3, [1]))" by blast
  have "pending (broker_msgs small_client) = [1, 2, 3]" by (simp add: small_client_def pending_def)
  with client_refines_stream [OF run] run show ?thesis by auto
qed

section \<open>Messages are mixed\<close>

text \<open>
  C29. Which queue a device's next send takes from is chosen anew each time, even if the message of the
  last one was sent only in part. On a socket that takes one byte at a time, the requests of two
  controllers alternate byte by byte on the wire, and the device receives neither of them.
\<close>

theorem partial_messages_interleave:
  assumes "broker_msgs c = []" and "k < k'" and "total_msg_count (dev_rpt_msgs c) = 2"
    and "rpt_msgs (dev_rpt_msgs c) = [(k, [\<lparr>mr_data = x # y # xs, size_sent = 0\<rparr>]), (k', [\<lparr>mr_data = x' # y' # xs', size_sent = 0\<rparr>])]"
    and "current_controller (dev_rpt_msgs c) < k"
  shows "\<exists>c'. dev_run E short_send expired reset cid [DevSend, DevSend, DevSend, DevSend] c s = Some ([k, k', k, k'], c', s @ [x, x', y, y'])"
  using assms
  by (simp add: device_run_defs Let_def short_send_def rc_send.simps)

text \<open>The same device as above with one longer request of each controller.\<close>

theorem partial_messages_interleave_witness:
  "\<exists>c'. dev_run etcpal_be short_send (\<lambda>_. False) id [] [DevSend, DevSend, DevSend, DevSend]
      (busy_device\<lparr>dev_rpt_msgs := \<lparr>total_msg_count = 2,
         rpt_msgs = [(1, [\<lparr>mr_data = [10, 11, 12], size_sent = 0\<rparr>]), (2, [\<lparr>mr_data = [20, 21, 22], size_sent = 0\<rparr>])],
         current_controller = kInvalidHandle\<rparr>\<rparr>) [] =
    Some ([1, 2, 1, 2], c', [] @ [10, 20, 11, 21])"
  by (rule partial_messages_interleave) (simp_all add: busy_device_def)

end
