(* ===== verification/Broker_Core.thy ===== *)
theory Broker_Core
  imports Broker_Client_Properties Uid_Manager
begin

text \<open>
  The core of the broker, \<^verbatim>\<open>src/rdmnet/broker/broker_core.cpp\<close>: connections, connect requests, routing of RPT
  messages, and the destruction of clients.

  The clients are objects in a store, and the maps hold their addresses, so that an address that outlives its
  object can be told: reading through one is \<^const>\<open>None\<close>, as is a cast of a client to a class it does not have, and a
  send or a search that never ends. The \<^verbatim>\<open>unordered_map\<close>s are association lists; their order is that of
  iteration. \<^verbatim>\<open>clients_\<close> may hold null pointers, the other maps never do. A handler is one step: the locks are taken
  and released within it. Logging is left out.

  The UID macros of the RDM library, the integer handles of EtcPal, the timers and the sockets are parameters,
  the fields of the environment. \<^verbatim>\<open>get_next_int_handle\<close> of EtcPal is given the function that says whether a value is in use,
  which may be undefined, and the last handle; it gives the next handle and the new last one.
\<close>

section \<open>Environment and state\<close>

record uid_macros =
  RDMNET_UID_IS_CONTROLLER_BROADCAST :: "RdmUid \<Rightarrow> bool"
  RDMNET_UID_IS_DEVICE_BROADCAST :: "RdmUid \<Rightarrow> bool"
  RDMNET_UID_IS_DEVICE_MANU_BROADCAST :: "RdmUid \<Rightarrow> bool"
  RDMNET_DEVICE_BROADCAST_MANU_ID :: "RdmUid \<Rightarrow> u16"
  RDMNET_UID_IS_DYNAMIC_UID_REQUEST :: "RdmUid \<Rightarrow> bool"
  RDMNET_UID_IS_STATIC :: "RdmUid \<Rightarrow> bool"

record broker_timers =
  t_expired :: "EtcPalTimer \<Rightarrow> bool"
  t_reset :: "EtcPalTimer \<Rightarrow> EtcPalTimer"
  t_start :: "u32 \<Rightarrow> EtcPalTimer"

record Limits =
  lim_connections :: u32
  lim_controllers :: u32
  lim_controller_messages :: u32
  lim_devices :: u32
  lim_device_messages :: u32
  lim_reject_connections :: u32

record Settings =
  set_cid :: EtcPalUuid
  set_uid :: RdmUid
  set_limits :: Limits
  set_scope :: bytes

record 's broker_env =
  be_etcpal :: etcpal
  be_macros :: uid_macros
  be_timers :: broker_timers
  be_settings :: Settings
  get_next_int_handle :: "(int \<Rightarrow> bool option) \<Rightarrow> int \<Rightarrow> (int \<times> int) option"
  be_setblocking :: "nat \<Rightarrow> bool"
  be_send :: "nat option \<Rightarrow> 's \<Rightarrow> bytes \<Rightarrow> (etcpal_error_t + nat) \<times> 's"

text \<open>
  The generator of client handles, \<^verbatim>\<open>src/rdmnet/broker/broker_util.cpp\<close>. The context that it registers with the handle manager of
  EtcPal is its own address. The broker gets its generator by a move from the parameter of \<^verbatim>\<open>Startup\<close>, which copies the
  manager with that context: from then on the context is the address of the parameter, which is gone when \<^verbatim>\<open>Startup\<close> returns.
\<close>

datatype generator_context = OwnAddress | DeadAddress

record ClientHandleGenerator =
  gen_has_func :: bool
  gen_last_handle :: int
  gen_context :: generator_context

definition new_ClientHandleGenerator :: ClientHandleGenerator where
  "new_ClientHandleGenerator = \<lparr>gen_has_func = False, gen_last_handle = -1, gen_context = OwnAddress\<rparr>"

definition move_generator :: "ClientHandleGenerator \<Rightarrow> ClientHandleGenerator" where
  "move_generator g = g\<lparr>gen_context := DeadAddress\<rparr>"

definition SetValueInUseFunc :: "ClientHandleGenerator \<Rightarrow> ClientHandleGenerator" where
  "SetValueInUseFunc g = g\<lparr>gen_has_func := True\<rparr>"

definition SetNextHandle :: "ClientHandleGenerator \<Rightarrow> int \<Rightarrow> ClientHandleGenerator" where
  "SetNextHandle g next_handle = g\<lparr>gen_last_handle := next_handle - 1\<rparr>"

definition IntHandleMgrValueInUse :: "ClientHandleGenerator \<Rightarrow> (int \<Rightarrow> bool) \<Rightarrow> int \<Rightarrow> bool option" where
  "IntHandleMgrValueInUse g in_use h =
     (case gen_context g of OwnAddress \<Rightarrow> Some (gen_has_func g \<and> in_use h) | DeadAddress \<Rightarrow> None)"

definition GetClientHandle ::
  "'s broker_env \<Rightarrow> (int \<Rightarrow> bool) \<Rightarrow> ClientHandleGenerator \<Rightarrow> (int \<times> ClientHandleGenerator) option" where
  "GetClientHandle B in_use g =
     map_option (map_prod id (\<lambda>l. g\<lparr>gen_last_handle := l\<rparr>))
       (get_next_int_handle B (IntHandleMgrValueInUse g in_use) (gen_last_handle g))"

text \<open>A client, by its class. The broker never creates an \<^verbatim>\<open>EPTClient\<close>.\<close>

datatype ClientObj = PendingClient BrokerClient | ControllerClient RPTController | DeviceClient RPTDevice

datatype HandleMessageResult = kRetryLater | kGetNextMessage

text \<open>What the socket manager is told.\<close>

datatype socket_call = AddSocket int nat | RemoveSocket int

record 's broker =
  my_uid :: RdmUid
  b_uids :: uid_manager
  b_handle_generator :: ClientHandleGenerator
  b_objs :: "nat \<rightharpoonup> ClientObj"
  b_next_obj :: nat
  b_clients :: "(int \<times> nat option) list"
  b_rpt_clients :: "(int \<times> nat) list"
  b_controllers :: "(int \<times> nat) list"
  b_devices :: "(int \<times> nat) list"
  b_to_destroy :: "int list"
  b_destroy_timer :: EtcPalTimer
  b_socket_calls :: "socket_call list"
  b_world :: 's

abbreviation (input) kRPTClientTypeDevice :: u32 where "kRPTClientTypeDevice \<equiv> 0"
abbreviation (input) kRPTClientTypeController :: u32 where "kRPTClientTypeController \<equiv> 1"
abbreviation (input) kRPTClientTypeUnknown :: u32 where "kRPTClientTypeUnknown \<equiv> 0xffffffff"
abbreviation (input) kClientDestroyIntervalMs :: u32 where "kClientDestroyIntervalMs \<equiv> 200"

text \<open>The state after a successful start: a broker that has no UID of its own takes the first dynamic one.\<close>

definition Startup :: "'s broker_env \<Rightarrow> 's \<Rightarrow> 's broker" where
  "Startup B w =
     (let u = set_uid (be_settings B); dyn = RDMNET_UID_IS_DYNAMIC_UID_REQUEST (be_macros B) u;
          uids = BrokerUidManager kDefaultMaxUidCapacity in
      \<lparr>my_uid = (if dyn then u\<lparr>dev_id := 1\<rparr> else u), b_uids = (if dyn then SetNextDeviceId 2 uids else uids),
       b_handle_generator = SetValueInUseFunc (move_generator new_ClientHandleGenerator), b_objs = Map.empty, b_next_obj = 0, b_clients = [], b_rpt_clients = [], b_controllers = [],
       b_devices = [], b_to_destroy = [], b_destroy_timer = t_start (be_timers B) kClientDestroyIntervalMs,
       b_socket_calls = [], b_world = w\<rparr>)"

section \<open>Clients by class\<close>

fun obj_protocol :: "ClientObj \<Rightarrow> u32" where
  "obj_protocol (PendingClient c) = bc_client_protocol c"
| "obj_protocol (ControllerClient c) = bc_client_protocol c"
| "obj_protocol (DeviceClient c) = bc_client_protocol c"

fun obj_handle :: "ClientObj \<Rightarrow> int" where
  "obj_handle (PendingClient c) = bc_handle c"
| "obj_handle (ControllerClient c) = bc_handle c"
| "obj_handle (DeviceClient c) = bc_handle c"

fun obj_socket :: "ClientObj \<Rightarrow> nat option" where
  "obj_socket (PendingClient c) = bc_socket c"
| "obj_socket (ControllerClient c) = bc_socket c"
| "obj_socket (DeviceClient c) = bc_socket c"

fun TcpConnExpired :: "(EtcPalTimer \<Rightarrow> bool) \<Rightarrow> ClientObj \<Rightarrow> bool" where
  "TcpConnExpired expired (PendingClient c) = expired (bc_heartbeat_timer c)"
| "TcpConnExpired expired (ControllerClient c) = expired (bc_heartbeat_timer c)"
| "TcpConnExpired expired (DeviceClient c) = expired (bc_heartbeat_timer c)"

fun MessageReceived :: "(EtcPalTimer \<Rightarrow> EtcPalTimer) \<Rightarrow> ClientObj \<Rightarrow> ClientObj" where
  "MessageReceived reset (PendingClient c) = PendingClient (c\<lparr>bc_heartbeat_timer := reset (bc_heartbeat_timer c)\<rparr>)"
| "MessageReceived reset (ControllerClient c) = ControllerClient (c\<lparr>bc_heartbeat_timer := reset (bc_heartbeat_timer c)\<rparr>)"
| "MessageReceived reset (DeviceClient c) = DeviceClient (c\<lparr>bc_heartbeat_timer := reset (bc_heartbeat_timer c)\<rparr>)"

text \<open>The client entry of an RPT client; a cast of a pending client to an RPT client is not defined.\<close>

definition rpt_entry :: "'a RPTClient_scheme \<Rightarrow> RdmnetRptClientEntry" where
  "rpt_entry c = \<lparr>ce_cid = bc_cid c, ce_uid = rc_uid c, ce_type = rc_client_type c, ce_binding_cid = rc_binding_cid c\<rparr>"

fun obj_entry :: "ClientObj \<Rightarrow> RdmnetRptClientEntry option" where
  "obj_entry (PendingClient c) = None"
| "obj_entry (ControllerClient c) = Some (rpt_entry c)"
| "obj_entry (DeviceClient c) = Some (rpt_entry c)"

fun obj_HasRoomToPush :: "ClientObj \<Rightarrow> bool" where
  "obj_HasRoomToPush (PendingClient c) = BrokerClient_HasRoomToPush c"
| "obj_HasRoomToPush (ControllerClient c) = RPTController_HasRoomToPush c"
| "obj_HasRoomToPush (DeviceClient c) = RPTDevice_HasRoomToPush c"

fun obj_Push_broker :: "etcpal \<Rightarrow> ClientObj \<Rightarrow> EtcPalUuid \<Rightarrow> BrokerMessage \<Rightarrow> ClientPushResult \<times> ClientObj" where
  "obj_Push_broker E (PendingClient c) cid msg = map_prod id PendingClient (BrokerClient_Push E c cid msg)"
| "obj_Push_broker E (ControllerClient c) cid msg = map_prod id ControllerClient (RPTController_Push_broker E c cid msg)"
| "obj_Push_broker E (DeviceClient c) cid msg = map_prod id DeviceClient (RPTDevice_Push_broker E c cid msg)"

fun obj_Push_rpt ::
  "etcpal \<Rightarrow> ClientObj \<Rightarrow> int \<Rightarrow> EtcPalUuid \<Rightarrow> RptMessage \<Rightarrow> (ClientPushResult \<times> ClientObj) option" where
  "obj_Push_rpt E (PendingClient c) from_client cid msg = None"
| "obj_Push_rpt E (ControllerClient c) from_client cid msg =
     Some (map_prod id ControllerClient (RPTController_Push_rpt E c cid msg))"
| "obj_Push_rpt E (DeviceClient c) from_client cid msg =
     Some (map_prod id DeviceClient (RPTDevice_Push_rpt E c from_client cid msg))"

fun obj_MarkForDestruction :: "etcpal \<Rightarrow> ClientObj \<Rightarrow> EtcPalUuid \<Rightarrow> RdmUid \<Rightarrow> ClientDestroyAction \<Rightarrow> ClientObj" where
  "obj_MarkForDestruction E (PendingClient c) cid uid action =
     PendingClient (MarkForDestruction (BrokerClient_Push E) BrokerClient_ClearAllQueues c cid uid action)"
| "obj_MarkForDestruction E (ControllerClient c) cid uid action =
     ControllerClient (MarkForDestruction (RPTController_Push_broker E) RPTController_ClearAllQueues c cid uid action)"
| "obj_MarkForDestruction E (DeviceClient c) cid uid action =
     DeviceClient (MarkForDestruction (RPTDevice_Push_broker E) RPTDevice_ClearAllQueues c cid uid action)"

fun obj_Send :: "'s broker_env \<Rightarrow> 's \<Rightarrow> ClientObj \<Rightarrow> (bool \<times> ClientObj \<times> 's) option" where
  "obj_Send B s (PendingClient c) =
     map_option (map_prod id (map_prod PendingClient id))
       (BrokerClient_Send (be_etcpal B) (be_send B (bc_socket c)) (t_expired (be_timers B)) (t_reset (be_timers B)) s c
          (set_cid (be_settings B)))"
| "obj_Send B s (ControllerClient c) =
     map_option (map_prod id (map_prod ControllerClient id))
       (RPTController_Send (be_etcpal B) (be_send B (bc_socket c)) (t_expired (be_timers B)) (t_reset (be_timers B)) s c
          (set_cid (be_settings B)))"
| "obj_Send B s (DeviceClient c) =
     map_option (map_prod id (map_prod DeviceClient id))
       (RPTDevice_Send (be_etcpal B) (be_send B (bc_socket c)) (t_expired (be_timers B)) (t_reset (be_timers B)) s c
          (set_cid (be_settings B)))"

abbreviation (input) store :: "nat \<Rightarrow> ClientObj \<Rightarrow> 's broker \<Rightarrow> 's broker" where
  "store p obj b \<equiv> b\<lparr>b_objs := (b_objs b)(p \<mapsto> obj)\<rparr>"


section \<open>Broker messages to the controllers\<close>

definition client_list_message :: "u16 \<Rightarrow> RdmnetRptClientEntry list \<Rightarrow> BrokerMessage" where
  "client_list_message vector ces =
     blank_broker_message\<lparr>bm_vector := vector,
       client_list := \<lparr>cl_client_protocol = kClientProtocolRPT, cl_rpt = \<lparr>entries = ces, more_coming = False\<rparr>\<rparr>\<rparr>"

fun push_broker_each :: "'s broker_env \<Rightarrow> BrokerMessage \<Rightarrow> (int \<times> nat) list \<Rightarrow> 's broker \<Rightarrow> 's broker option" where
  "push_broker_each B msg [] b = Some b"
| "push_broker_each B msg ((h, p) # ps) b = do {
     obj \<leftarrow> b_objs b p;
     push_broker_each B msg ps (store p (snd (obj_Push_broker (be_etcpal B) obj (set_cid (be_settings B)) msg)) b)
   }"

definition SendClientsAdded :: "'s broker_env \<Rightarrow> int \<Rightarrow> RdmnetRptClientEntry list \<Rightarrow> 's broker \<Rightarrow> 's broker option" where
  "SendClientsAdded B handle_to_ignore ces b =
     push_broker_each B (client_list_message VECTOR_BROKER_CLIENT_ADD ces)
       (filter (\<lambda>(h, _). h \<noteq> handle_to_ignore) (b_controllers b)) b"

definition SendClientsRemoved :: "'s broker_env \<Rightarrow> RdmnetRptClientEntry list \<Rightarrow> 's broker \<Rightarrow> 's broker option" where
  "SendClientsRemoved B ces b =
     push_broker_each B (client_list_message VECTOR_BROKER_CLIENT_REMOVE ces) (b_controllers b) b"

fun rpt_entries :: "(nat \<rightharpoonup> ClientObj) \<Rightarrow> (int \<times> nat) list \<Rightarrow> RdmnetRptClientEntry list option" where
  "rpt_entries objs [] = Some []"
| "rpt_entries objs ((h, p) # ps) = do {
     obj \<leftarrow> objs p;
     e \<leftarrow> obj_entry obj;
     es \<leftarrow> rpt_entries objs ps;
     Some (e # es)
   }"

definition SendRptClientList :: "'s broker_env \<Rightarrow> nat \<Rightarrow> 's broker \<Rightarrow> 's broker option" where
  "SendRptClientList B to_cli b = do {
     ces \<leftarrow> rpt_entries (b_objs b) (b_rpt_clients b);
     if ces = [] then Some b
     else push_broker_each B (client_list_message VECTOR_BROKER_CONNECTED_CLIENT_LIST ces) [(0, to_cli)] b
   }"

text \<open>
  A client that is not an RPT client is cast to an \<^verbatim>\<open>EPTClient\<close>, which no object is; \<^verbatim>\<open>SendEptClientList\<close> itself does nothing yet.
\<close>

fun cast_EPTClient :: "ClientObj \<Rightarrow> BrokerClient option" where
  "cast_EPTClient (PendingClient c) = None"
| "cast_EPTClient (ControllerClient c) = None"
| "cast_EPTClient (DeviceClient c) = None"

definition SendEptClientList :: "BrokerClient \<Rightarrow> 's broker \<Rightarrow> 's broker" where
  "SendEptClientList to_cli b = b"

definition SendClientList :: "'s broker_env \<Rightarrow> int \<Rightarrow> 's broker \<Rightarrow> 's broker option" where
  "SendClientList B h b =
     (case map_of (b_clients b) h of
        Some (Some p) \<Rightarrow> do {
          obj \<leftarrow> b_objs b p;
          if obj_protocol obj = kClientProtocolRPT then SendRptClientList B p b
          else do {
            to_cli \<leftarrow> cast_EPTClient obj;
            Some (SendEptClientList to_cli b)
          }
        }
      | _ \<Rightarrow> Some b)"

section \<open>Destruction of clients\<close>

definition MarkLockedClientForDestruction ::
  "'s broker_env \<Rightarrow> nat \<Rightarrow> ClientDestroyAction \<Rightarrow> 's broker \<Rightarrow> (bool \<times> 's broker) option" where
  "MarkLockedClientForDestruction B p action b = do {
     obj \<leftarrow> b_objs b p;
     let obj' = obj_MarkForDestruction (be_etcpal B) obj (set_cid (be_settings B)) (my_uid b) action;
     let b1 = store p obj' b;
     b2 \<leftarrow> (if obj_protocol obj' = kClientProtocolRPT then do {
              ce \<leftarrow> obj_entry obj';
              SendClientsRemoved B [ce] (b1\<lparr>b_uids := RemoveUid (b_uids b1) (ce_uid ce)\<rparr>)
            }
            else Some b1);
     Some (obj_handle obj' \<notin> set (b_to_destroy b2), b2\<lparr>b_to_destroy := List.insert (obj_handle obj') (b_to_destroy b2)\<rparr>)
   }"

definition MarkClientForDestruction :: "'s broker_env \<Rightarrow> int \<Rightarrow> ClientDestroyAction \<Rightarrow> 's broker \<Rightarrow> 's broker option" where
  "MarkClientForDestruction B h action b =
     (case map_of (b_clients b) h of
        Some (Some p) \<Rightarrow> map_option snd (MarkLockedClientForDestruction B p action b)
      | _ \<Rightarrow> Some b)"

definition HandleSocketClosed :: "'s broker_env \<Rightarrow> int \<Rightarrow> 's broker \<Rightarrow> 's broker option" where
  "HandleSocketClosed B h b = MarkClientForDestruction B h MarkSocketInvalid b"

text \<open>One client is destroyed; the result also says whether its socket is to be removed.\<close>

definition destroy_client :: "int \<Rightarrow> nat \<Rightarrow> 's broker \<Rightarrow> (int list \<times> 's broker) option" where
  "destroy_client h p b = do {
     obj \<leftarrow> b_objs b p;
     let removal = (if obj_socket obj \<noteq> None then [obj_handle obj] else []);
     b1 \<leftarrow> (if obj_protocol obj = kClientProtocolRPT then do {
              ce \<leftarrow> obj_entry obj;
              let b' = b\<lparr>b_rpt_clients := AList.delete h (b_rpt_clients b)\<rparr>;
              Some (if ce_type ce = kRPTClientTypeController then b'\<lparr>b_controllers := AList.delete h (b_controllers b')\<rparr>
                    else if ce_type ce = kRPTClientTypeDevice then b'\<lparr>b_devices := AList.delete h (b_devices b')\<rparr>
                    else b')
            }
            else Some b);
     Some (removal, b1\<lparr>b_clients := AList.delete h (b_clients b1), b_objs := (b_objs b1)(p := None)\<rparr>)
   }"

text \<open>A null pointer ends the loop of \<^verbatim>\<open>DestroyMarkedClientsLocked\<close>, and the set of handles is not cleared then.\<close>

fun destroy_each :: "int list \<Rightarrow> 's broker \<Rightarrow> (bool \<times> int list \<times> 's broker) option" where
  "destroy_each [] b = Some (True, [], b)"
| "destroy_each (h # hs) b =
     (case map_of (b_clients b) h of
        None \<Rightarrow> destroy_each hs b
      | Some None \<Rightarrow> Some (False, [], b)
      | Some (Some p) \<Rightarrow> do {
          (removal, b') \<leftarrow> destroy_client h p b;
          (fin, removals, b'') \<leftarrow> destroy_each hs b';
          Some (fin, removal @ removals, b'')
        })"

definition DestroyMarkedClientsLocked :: "'s broker \<Rightarrow> (int list \<times> 's broker) option" where
  "DestroyMarkedClientsLocked b = do {
     (fin, removals, b') \<leftarrow> destroy_each (b_to_destroy b) b;
     Some (removals, if fin then b'\<lparr>b_to_destroy := []\<rparr> else b')
   }"

definition RemoveClientSockets :: "int list \<Rightarrow> 's broker \<Rightarrow> 's broker" where
  "RemoveClientSockets hs b = b\<lparr>b_socket_calls := b_socket_calls b @ map RemoveSocket hs\<rparr>"


section \<open>Connections and service\<close>

definition HandleNewConnection :: "'s broker_env \<Rightarrow> nat \<Rightarrow> 's broker \<Rightarrow> (bool \<times> 's broker) option" where
  "HandleNewConnection B sock b =
     (if \<not> be_setblocking B sock then Some (False, b)
      else do {
        (h, g) \<leftarrow> GetClientHandle B (has_key (b_clients b)) (b_handle_generator b);
        let lim = set_limits (be_settings B);
        let b1 = b\<lparr>b_handle_generator := g\<rparr>;
        Some
          (if lim_connections lim = 0 \<or> length (b_clients b) \<le> unat (lim_connections lim + lim_reject_connections lim)
           then (True,
                 (if has_key (b_clients b) h then b1
                  else b1\<lparr>b_clients := alist_insert h (Some (b_next_obj b)) (b_clients b),
                          b_objs := (b_objs b)(b_next_obj b \<mapsto>
                            PendingClient (new_BrokerClient (t_start (be_timers B)) h (Some sock) 0)),
                          b_next_obj := Suc (b_next_obj b)\<rparr>)
                 \<lparr>b_socket_calls := b_socket_calls b @ [AddSocket h sock]\<rparr>)
           else (False, b1))
      })"

text \<open>
  The loop of \<^verbatim>\<open>ServiceClients\<close>. A null pointer ends the whole function. The result says whether the loop
  has run to its end, and whether anything was sent.
\<close>

fun service_each :: "'s broker_env \<Rightarrow> (int \<times> nat option) list \<Rightarrow> bool \<Rightarrow> 's broker \<Rightarrow> (bool \<times> bool \<times> 's broker) option" where
  "service_each B [] result b = Some (True, result, b)"
| "service_each B ((h, None) # cs) result b = Some (False, False, b)"
| "service_each B ((h, Some p) # cs) result b = do {
     obj \<leftarrow> b_objs b p;
     if TcpConnExpired (t_expired (be_timers B)) obj then do {
       (_, b') \<leftarrow> MarkLockedClientForDestruction B p DoNothing b;
       service_each B cs result b'
     }
     else do {
       (sent, obj', w) \<leftarrow> obj_Send B (b_world b) obj;
       service_each B cs (result \<or> sent) ((store p obj' b)\<lparr>b_world := w\<rparr>)
     }
   }"

definition DestroyMarkedClients :: "'s broker \<Rightarrow> 's broker option" where
  "DestroyMarkedClients b = do {
     (removals, b') \<leftarrow> DestroyMarkedClientsLocked b;
     Some (RemoveClientSockets removals b')
   }"

definition ServiceClients :: "'s broker_env \<Rightarrow> 's broker \<Rightarrow> (bool \<times> 's broker) option" where
  "ServiceClients B b = do {
     (fin, result, b1) \<leftarrow> service_each B (b_clients b) False b;
     if \<not> fin then Some (False, b1)
     else if t_expired (be_timers B) (b_destroy_timer b1) then do {
       b2 \<leftarrow> DestroyMarkedClients b1;
       Some (result, b2\<lparr>b_destroy_timer := t_reset (be_timers B) (b_destroy_timer b2)\<rparr>)
     }
     else Some (result, b1)
   }"

fun stop_each :: "'s broker_env \<Rightarrow> u16 \<Rightarrow> (int \<times> nat option) list \<Rightarrow> 's broker \<Rightarrow> (bool \<times> 's broker) option" where
  "stop_each B reason [] b = Some (True, b)"
| "stop_each B reason ((h, None) # cs) b = Some (False, b)"
| "stop_each B reason ((h, Some p) # cs) b = do {
     (_, b1) \<leftarrow> MarkLockedClientForDestruction B p (SendDisconnect reason) b;
     obj \<leftarrow> b_objs b1 p;
     (sent, obj', w) \<leftarrow> obj_Send B (b_world b1) obj;
     stop_each B reason cs ((store p obj' b1)\<lparr>b_world := w\<rparr>)
   }"

definition StopBrokerServices :: "'s broker_env \<Rightarrow> u16 \<Rightarrow> 's broker \<Rightarrow> 's broker option" where
  "StopBrokerServices B reason b = do {
     (fin, b1) \<leftarrow> stop_each B reason (b_clients b) b;
     if fin then DestroyMarkedClients b1 else Some b1
   }"

definition ResetClientHeartbeatTimer :: "'s broker_env \<Rightarrow> int \<Rightarrow> 's broker \<Rightarrow> 's broker option" where
  "ResetClientHeartbeatTimer B h b =
     (case map_of (b_clients b) h of
        Some (Some p) \<Rightarrow> do {
          obj \<leftarrow> b_objs b p;
          Some (store p (MessageReceived (t_reset (be_timers B)) obj) b)
        }
      | _ \<Rightarrow> Some b)"

section \<open>Connect requests\<close>

definition add_status :: "AddResult \<Rightarrow> u16" where
  "add_status r = (if r = kDuplicateId then kRdmnetConnectDuplicateUid else kRdmnetConnectCapacityExceeded)"

text \<open>The result is the client entry with its UID resolved, or the status for the reply.\<close>

definition ResolveNewClientUid ::
  "'s broker_env \<Rightarrow> int \<Rightarrow> RdmnetRptClientEntry \<Rightarrow> 's broker \<Rightarrow> ((u16 + RdmnetRptClientEntry) \<times> 's broker) option" where
  "ResolveNewClientUid B h ce b =
     (if RDMNET_UID_IS_DYNAMIC_UID_REQUEST (be_macros B) (ce_uid ce) then do {
        (res, u, m) \<leftarrow> AddDynamicUid (b_uids b) h (ce_cid ce) (ce_uid ce);
        Some (if res = kOk then Inr (ce\<lparr>ce_uid := u\<rparr>) else Inl (add_status res), b\<lparr>b_uids := m\<rparr>)
      }
      else if RDMNET_UID_IS_STATIC (be_macros B) (ce_uid ce) then
        (case AddStaticUid (b_uids b) h (ce_uid ce) of
           (res, m) \<Rightarrow> Some (if res = kOk then Inr ce else Inl (add_status res), b\<lparr>b_uids := m\<rparr>))
      else Some (Inl kRdmnetConnectInvalidUid, b))"

text \<open>
  \<^verbatim>\<open>clients_[handle]\<close> creates a null pointer for an unknown handle, which is then refused with the status
  as it is. Otherwise the new object takes the place of the old one in \<^verbatim>\<open>clients_\<close>, which frees the old one; the
  other maps are inserted into, which leaves an existing entry as it is.
\<close>

definition clients_index :: "int \<Rightarrow> 's broker \<Rightarrow> nat option \<times> 's broker" where
  "clients_index h b =
     (case map_of (b_clients b) h of
        Some p \<Rightarrow> (p, b)
      | None \<Rightarrow> (None, b\<lparr>b_clients := alist_insert h None (b_clients b)\<rparr>))"

definition replace_client :: "int \<Rightarrow> nat \<Rightarrow> ClientObj \<Rightarrow> 's broker \<Rightarrow> 's broker" where
  "replace_client h p obj b =
     b\<lparr>b_clients := AList.update h (Some (b_next_obj b)) (b_clients b),
       b_objs := (b_objs b)(p := None, b_next_obj b \<mapsto> obj),
       b_next_obj := Suc (b_next_obj b),
       b_rpt_clients := alist_insert h (b_next_obj b) (b_rpt_clients b)\<rparr>"

definition base_client :: "ClientObj \<Rightarrow> BrokerClient" where
  "base_client obj =
     (case obj of
        PendingClient c \<Rightarrow> c
      | ControllerClient c \<Rightarrow> BrokerClient.truncate c
      | DeviceClient c \<Rightarrow> BrokerClient.truncate c)"

definition add_controller ::
  "'s broker_env \<Rightarrow> int \<Rightarrow> RdmnetRptClientEntry \<Rightarrow> 's broker \<Rightarrow> (nat option \<times> 's broker) option" where
  "add_controller B h ce b =
     (case clients_index h b of
        (None, b') \<Rightarrow> Some (None, b')
      | (Some p, _) \<Rightarrow> do {
          obj \<leftarrow> b_objs b p;
          let c = new_RPTController (t_start (be_timers B)) (unat (lim_controller_messages (set_limits (be_settings B)))) ce (base_client obj);
          Some (Some (b_next_obj b),
            (replace_client h p (ControllerClient c) b)\<lparr>b_controllers := alist_insert h (b_next_obj b) (b_controllers b)\<rparr>)
        })"

definition add_device ::
  "'s broker_env \<Rightarrow> int \<Rightarrow> RdmnetRptClientEntry \<Rightarrow> 's broker \<Rightarrow> (nat option \<times> 's broker) option" where
  "add_device B h ce b =
     (case clients_index h b of
        (None, b') \<Rightarrow> Some (None, b')
      | (Some p, _) \<Rightarrow> do {
          obj \<leftarrow> b_objs b p;
          let c = new_RPTDevice (t_start (be_timers B)) (unat (lim_device_messages (set_limits (be_settings B)))) ce (base_client obj);
          Some (Some (b_next_obj b),
            (replace_client h p (DeviceClient c) b)\<lparr>b_devices := alist_insert h (b_next_obj b) (b_devices b)\<rparr>)
        })"


text \<open>
  The result is whether the client was accepted, and the status for the reply otherwise. That the limit of
  connections is reached changes only the status, since the answer is overwritten by the next call.
\<close>

definition connect_reply_message :: "RdmUid \<Rightarrow> RdmUid \<Rightarrow> BrokerMessage" where
  "connect_reply_message broker_uid client_uid =
     blank_broker_message\<lparr>bm_vector := VECTOR_BROKER_CONNECT_REPLY,
       connect_reply := \<lparr>cr_connect_status = kRdmnetConnectOk, cr_e133_version = E133_VERSION,
         cr_broker_uid = broker_uid, cr_client_uid = client_uid\<rparr>\<rparr>"

definition ProcessRPTConnectRequest ::
  "'s broker_env \<Rightarrow> int \<Rightarrow> RdmnetRptClientEntry \<Rightarrow> u16 \<Rightarrow> 's broker \<Rightarrow> (bool \<times> u16 \<times> 's broker) option" where
  "ProcessRPTConnectRequest B h client_entry status b =
     (let lim = set_limits (be_settings B);
          full = lim_connections lim > 0 \<and> length (b_clients b) \<ge> unat (lim_connections lim);
          status1 = (if full then kRdmnetConnectCapacityExceeded else status) in
      do {
        (res, b1) \<leftarrow> ResolveNewClientUid B h client_entry b;
        (case res of
           Inl st \<Rightarrow> Some (False, st, b1)
         | Inr ce \<Rightarrow>
             let welcome = (\<lambda>p b2. do {
                   b3 \<leftarrow> push_broker_each B (connect_reply_message (my_uid b2) (ce_uid ce)) [(h, p)] b2;
                   b4 \<leftarrow> SendClientsAdded B h [ce] b3;
                   Some (True, status1, b4)
                 }) in
             if ce_type ce = kRPTClientTypeController then
               (if lim_controllers lim > 0 \<and> length (b_controllers b1) \<ge> unat (lim_controllers lim)
                then Some (False, kRdmnetConnectCapacityExceeded, b1\<lparr>b_uids := RemoveUid (b_uids b1) (ce_uid ce)\<rparr>)
                else do {
                  (new_client, b2) \<leftarrow> add_controller B h ce b1;
                  (case new_client of None \<Rightarrow> Some (False, status1, b2) | Some p \<Rightarrow> welcome p b2)
                })
             else if ce_type ce = kRPTClientTypeDevice then
               (if lim_devices lim > 0 \<and> length (b_devices b1) \<ge> unat (lim_devices lim)
                then Some (False, kRdmnetConnectCapacityExceeded, b1\<lparr>b_uids := RemoveUid (b_uids b1) (ce_uid ce)\<rparr>)
                else do {
                  (new_client, b2) \<leftarrow> add_device B h ce b1;
                  (case new_client of None \<Rightarrow> Some (False, status1, b2) | Some p \<Rightarrow> welcome p b2)
                })
             else Some (True, status1, b1))
      })"

text \<open>The scope of the message is compared as a C string.\<close>

definition ProcessConnectRequest :: "'s broker_env \<Rightarrow> int \<Rightarrow> BrokerClientConnectMsg \<Rightarrow> 's broker \<Rightarrow> 's broker option" where
  "ProcessConnectRequest B h cmsg b = do {
     (accepted, status, b1) \<leftarrow>
       (if cc_e133_version cmsg \<le> E133_VERSION \<and> takeWhile (\<lambda>c. c \<noteq> 0) (cc_scope cmsg) = set_scope (be_settings B)
        then if ce_client_protocol (cc_client_entry cmsg) = kClientProtocolRPT
             then ProcessRPTConnectRequest B h (entry_rpt (ce_data (cc_client_entry cmsg))) kRdmnetConnectScopeMismatch b
             else Some (False, kRdmnetConnectInvalidClientEntry, b)
        else Some (False, kRdmnetConnectScopeMismatch, b));
     if accepted then Some b1 else MarkClientForDestruction B h (SendConnectReply status) b1
   }"

section \<open>Routing of RPT messages\<close>

definition IsDeviceManuBroadcastUID :: "'s broker_env \<Rightarrow> RdmUid \<Rightarrow> u16 option" where
  "IsDeviceManuBroadcastUID B u =
     (if RDMNET_UID_IS_DEVICE_MANU_BROADCAST (be_macros B) u
      then Some (RDMNET_DEVICE_BROADCAST_MANU_ID (be_macros B) u) else None)"

definition IsValidControllerDestinationUID :: "'s broker_env \<Rightarrow> RdmUid \<Rightarrow> 's broker \<Rightarrow> bool" where
  "IsValidControllerDestinationUID B u b \<longleftrightarrow>
     RDMNET_UID_IS_DEVICE_BROADCAST (be_macros B) u \<or> RDMNET_UID_IS_DEVICE_MANU_BROADCAST (be_macros B) u \<or>
     u = my_uid b \<or> UidToHandle (b_uids b) u \<noteq> None"

definition IsValidDeviceDestinationUID :: "'s broker_env \<Rightarrow> RdmUid \<Rightarrow> 's broker \<Rightarrow> bool" where
  "IsValidDeviceDestinationUID B u b \<longleftrightarrow>
     RDMNET_UID_IS_CONTROLLER_BROADCAST (be_macros B) u \<or> UidToHandle (b_uids b) u \<noteq> None"

definition FindRptClient :: "RdmUid \<Rightarrow> 's broker \<Rightarrow> nat option" where
  "FindRptClient u b = Option.bind (UidToHandle (b_uids b) u) (map_of (b_rpt_clients b))"

text \<open>
  \<^verbatim>\<open>PushToRptClients\<close>: either all destinations have room and the message is pushed to all of them, or it is pushed to
  none. The result is that of the first push that fails. The destinations are those that pass the filter.
\<close>

fun all_have_room :: "(int \<times> nat) list \<Rightarrow> 's broker \<Rightarrow> bool option" where
  "all_have_room [] b = Some True"
| "all_have_room ((h, p) # ps) b = do {
     obj \<leftarrow> b_objs b p;
     rest \<leftarrow> all_have_room ps b;
     Some (obj_HasRoomToPush obj \<and> rest)
   }"

fun push_rpt_each ::
  "'s broker_env \<Rightarrow> int \<Rightarrow> RdmnetMessage \<Rightarrow> (int \<times> nat) list \<Rightarrow> ClientPushResult \<Rightarrow> 's broker
   \<Rightarrow> (ClientPushResult \<times> 's broker) option" where
  "push_rpt_each B sender msg [] res b = Some (res, b)"
| "push_rpt_each B sender msg ((h, p) # ps) res b = do {
     obj \<leftarrow> b_objs b p;
     (r, obj') \<leftarrow> obj_Push_rpt (be_etcpal B) obj sender (sender_cid msg) (msg_rpt msg);
     push_rpt_each B sender msg ps (if res = PushOk then r else res) (store p obj' b)
   }"

definition PushToRptClients ::
  "'s broker_env \<Rightarrow> int \<Rightarrow> RdmnetMessage \<Rightarrow> (int \<times> nat) list \<Rightarrow> 's broker \<Rightarrow> (ClientPushResult \<times> 's broker) option" where
  "PushToRptClients B sender msg dests b = do {
     room \<leftarrow> all_have_room dests b;
     if room then push_rpt_each B sender msg dests PushOk b else Some (PushQueueFull, b)
   }"

definition PushToAllControllers ::
  "'s broker_env \<Rightarrow> int \<Rightarrow> RdmnetMessage \<Rightarrow> 's broker \<Rightarrow> (ClientPushResult \<times> 's broker) option" where
  "PushToAllControllers B sender msg b = PushToRptClients B sender msg (b_controllers b) b"

definition PushToAllDevices ::
  "'s broker_env \<Rightarrow> int \<Rightarrow> RdmnetMessage \<Rightarrow> 's broker \<Rightarrow> (ClientPushResult \<times> 's broker) option" where
  "PushToAllDevices B sender msg b = PushToRptClients B sender msg (b_devices b) b"

fun filter_manu :: "u16 \<Rightarrow> (nat \<rightharpoonup> ClientObj) \<Rightarrow> (int \<times> nat) list \<Rightarrow> (int \<times> nat) list option" where
  "filter_manu m objs [] = Some []"
| "filter_manu m objs ((h, p) # ps) = do {
     obj \<leftarrow> objs p;
     ce \<leftarrow> obj_entry obj;
     rest \<leftarrow> filter_manu m objs ps;
     Some (if manu (ce_uid ce) AND 0x7fff = m then (h, p) # rest else rest)
   }"

definition PushToManuSpecificDevices ::
  "'s broker_env \<Rightarrow> int \<Rightarrow> RdmnetMessage \<Rightarrow> u16 \<Rightarrow> 's broker \<Rightarrow> (ClientPushResult \<times> 's broker) option" where
  "PushToManuSpecificDevices B sender msg m b = do {
     dests \<leftarrow> filter_manu m (b_objs b) (b_devices b);
     PushToRptClients B sender msg dests b
   }"

definition PushToSpecificRptClient ::
  "'s broker_env \<Rightarrow> int \<Rightarrow> RdmnetMessage \<Rightarrow> 's broker \<Rightarrow> (ClientPushResult \<times> 's broker) option" where
  "PushToSpecificRptClient B sender msg b =
     (case FindRptClient (dest_uid (rm_header (msg_rpt msg))) b of
        None \<Rightarrow> Some (PushError, b)
      | Some p \<Rightarrow> push_rpt_each B sender msg [(0, p)] PushOk b)"

text \<open>Looking for the destination again reads the type of the client it finds, for the log.\<close>

definition HandleRPTClientBadPushResult ::
  "'s broker_env \<Rightarrow> RptHeader \<Rightarrow> ClientPushResult \<Rightarrow> 's broker \<Rightarrow> HandleMessageResult option" where
  "HandleRPTClientBadPushResult B header result b =
     (let u = dest_uid header;
          broadcast = RDMNET_UID_IS_CONTROLLER_BROADCAST (be_macros B) u \<or> RDMNET_UID_IS_DEVICE_BROADCAST (be_macros B) u \<or>
            RDMNET_UID_IS_DEVICE_MANU_BROADCAST (be_macros B) u in
      do {
        found \<leftarrow> (if broadcast then Some True
                  else case FindRptClient u b of
                    None \<Rightarrow> Some False
                  | Some p \<Rightarrow> do {obj \<leftarrow> b_objs b p; _ \<leftarrow> obj_entry obj; Some True});
        Some (if found \<and> result = PushQueueFull then kRetryLater else kGetNextMessage)
      })"


definition RouteRPTMessage ::
  "'s broker_env \<Rightarrow> int \<Rightarrow> RdmnetMessage \<Rightarrow> 's broker \<Rightarrow> (HandleMessageResult \<times> 's broker) option" where
  "RouteRPTMessage B h msg b =
     (let header = rm_header (msg_rpt msg); u = dest_uid header in
      do {
        (res, b1) \<leftarrow>
          (if RDMNET_UID_IS_CONTROLLER_BROADCAST (be_macros B) u then PushToAllControllers B h msg b
           else if RDMNET_UID_IS_DEVICE_BROADCAST (be_macros B) u then PushToAllDevices B h msg b
           else case IsDeviceManuBroadcastUID B u of
             Some m \<Rightarrow> PushToManuSpecificDevices B h msg m b
           | None \<Rightarrow> PushToSpecificRptClient B h msg b);
        if res = PushOk then Some (kGetNextMessage, b1)
        else do {
          r \<leftarrow> HandleRPTClientBadPushResult B header res b1;
          Some (r, b1)
        }
      })"

definition SwapHeaderData :: "RptHeader \<Rightarrow> RptHeader" where
  "SwapHeaderData header =
     \<lparr>source_uid = dest_uid header, source_endpoint_id = dest_endpoint_id header,
      dest_uid = source_uid header, dest_endpoint_id = source_endpoint_id header, seqnum = seqnum header\<rparr>"

text \<open>The only callers give no status string.\<close>

definition SendStatus ::
  "'s broker_env \<Rightarrow> nat \<Rightarrow> RptHeader \<Rightarrow> u16 \<Rightarrow> 's broker \<Rightarrow> (HandleMessageResult \<times> 's broker) option" where
  "SendStatus B p header code b = do {
     obj \<leftarrow> b_objs b p;
     (case obj of
        ControllerClient c \<Rightarrow>
          (case RPTController_Push_status (be_etcpal B) c (set_cid (be_settings B)) (SwapHeaderData header)
                  \<lparr>status_code = code, status_string = None\<rparr> of
             (res, c') \<Rightarrow>
               let b1 = store p (ControllerClient c') b in
               if res = PushOk then Some (kGetNextMessage, b1)
               else do {
                 r \<leftarrow> HandleRPTClientBadPushResult B (SwapHeaderData header) res b1;
                 Some (r, b1)
               })
      | _ \<Rightarrow> None)
   }"

definition ProcessRPTMessage ::
  "'s broker_env \<Rightarrow> int \<Rightarrow> RdmnetMessage \<Rightarrow> 's broker \<Rightarrow> (HandleMessageResult \<times> 's broker) option" where
  "ProcessRPTMessage B h msg b =
     (let rpt = msg_rpt msg; header = rm_header rpt in
      case map_of (b_clients b) h of
        Some (Some p) \<Rightarrow> do {
          obj0 \<leftarrow> b_objs b p;
          let obj = MessageReceived (t_reset (be_timers B)) obj0;
          let b1 = store p obj b;
          if obj_protocol obj \<noteq> kClientProtocolRPT then Some (kGetNextMessage, b1)
          else do {
            ce \<leftarrow> obj_entry obj;
            if rm_vector rpt = VECTOR_RPT_REQUEST then
              (if ce_type ce = kRPTClientTypeController then
                 (if \<not> IsValidControllerDestinationUID B (dest_uid header) b1
                  then SendStatus B p header VECTOR_RPT_STATUS_UNKNOWN_RPT_UID b1
                  else if length (entries (rm_rdm rpt)) > 1 then SendStatus B p header VECTOR_RPT_STATUS_INVALID_MESSAGE b1
                  else RouteRPTMessage B h msg b1)
               else Some (kGetNextMessage, b1))
            else if rm_vector rpt = VECTOR_RPT_STATUS then
              (if ce_type ce = kRPTClientTypeDevice \<and> IsValidDeviceDestinationUID B (dest_uid header) b1 \<and>
                  status_code (rm_status rpt) \<noteq> VECTOR_RPT_STATUS_BROADCAST_COMPLETE
               then RouteRPTMessage B h msg b1 else Some (kGetNextMessage, b1))
            else if rm_vector rpt = VECTOR_RPT_NOTIFICATION then
              (if ce_type ce \<noteq> kRPTClientTypeUnknown \<and> IsValidDeviceDestinationUID B (dest_uid header) b1
               then RouteRPTMessage B h msg b1 else Some (kGetNextMessage, b1))
            else Some (kGetNextMessage, b1)
          }
        }
      | _ \<Rightarrow> Some (kGetNextMessage, b))"

section \<open>Received messages\<close>

definition HandleSocketMessageReceived ::
  "'s broker_env \<Rightarrow> int \<Rightarrow> RdmnetMessage \<Rightarrow> 's broker \<Rightarrow> (HandleMessageResult \<times> 's broker) option" where
  "HandleSocketMessageReceived B h message b = do {
     b1 \<leftarrow> ResetClientHeartbeatTimer B h b;
     if msg_vector message = ACN_VECTOR_ROOT_BROKER (be_etcpal B) then
       (let bmsg = msg_broker message in
        do {
          b2 \<leftarrow>
            (if bm_vector bmsg = VECTOR_BROKER_CONNECT then ProcessConnectRequest B h (client_connect bmsg) b1
             else if bm_vector bmsg = VECTOR_BROKER_FETCH_CLIENT_LIST then SendClientList B h b1
             else if bm_vector bmsg = VECTOR_BROKER_DISCONNECT then MarkClientForDestruction B h DoNothing b1
             else Some b1);
          Some (kGetNextMessage, b2)
        })
     else if msg_vector message = ACN_VECTOR_ROOT_RPT (be_etcpal B) then ProcessRPTMessage B h message b1
     else Some (kGetNextMessage, b1)
   }"

end
