(* ===== verification/Broker_Core_Properties.thy ===== *)
theory Broker_Core_Properties
  imports Broker_Core
begin

text \<open>
  Properties of the core of the broker: its maps never hold an address that outlives its object as long as no
  client connects twice, a client that connects can be reached by its UID, and a request reaches exactly the
  device it is for. The last sections show what goes wrong otherwise.
\<close>

section \<open>The clients\<close>

datatype client_kind = Pending | Controller | Device

fun kind :: "ClientObj \<Rightarrow> client_kind" where
  "kind (PendingClient _) = Pending"
| "kind (ControllerClient _) = Controller"
| "kind (DeviceClient _) = Device"

text \<open>An object fits its class, and knows its handle.\<close>

fun obj_ok :: "int \<Rightarrow> ClientObj \<Rightarrow> bool" where
  "obj_ok h (PendingClient c) \<longleftrightarrow> bc_handle c = h \<and> bc_client_protocol c \<noteq> kClientProtocolRPT"
| "obj_ok h (ControllerClient c) \<longleftrightarrow>
     bc_handle c = h \<and> bc_client_protocol c = kClientProtocolRPT \<and> rc_client_type c = kRPTClientTypeController"
| "obj_ok h (DeviceClient c) \<longleftrightarrow>
     bc_handle c = h \<and> bc_client_protocol c = kClientProtocolRPT \<and> rc_client_type c = kRPTClientTypeDevice \<and>
     q_ok (dev_rpt_msgs c)"

text \<open>What every operation on a client keeps.\<close>

definition evolves :: "ClientObj \<Rightarrow> ClientObj \<Rightarrow> bool" where
  "evolves obj obj' \<longleftrightarrow> kind obj' = kind obj \<and> obj_entry obj' = obj_entry obj \<and> (\<forall>h. obj_ok h obj \<longrightarrow> obj_ok h obj')"

lemma evolves_refl [simp]: "evolves obj obj"
  by (simp add: evolves_def)

lemma evolves_trans: "evolves a b \<Longrightarrow> evolves b c \<Longrightarrow> evolves a c"
  by (simp add: evolves_def)

lemma evolves_push_broker: "evolves obj (snd (obj_Push_broker E obj cid msg))"
  by (cases obj)
    (auto simp: evolves_def BrokerClient_Push_def RPTController_Push_broker_def RPTDevice_Push_broker_def rpt_entry_def
      push_broker_def BrokerClient_PushPostSizeCheck_def push_packed_def)

lemma device_push_rpt_keeps:
  "bc_handle (snd (RPTDevice_Push_rpt E c k cid msg)) = bc_handle c \<and>
   bc_client_protocol (snd (RPTDevice_Push_rpt E c k cid msg)) = bc_client_protocol c \<and>
   rpt_entry (snd (RPTDevice_Push_rpt E c k cid msg)) = rpt_entry c \<and>
   rc_client_type (snd (RPTDevice_Push_rpt E c k cid msg)) = rc_client_type c"
  by (simp add: RPTDevice_Push_rpt_def RPTClient_PushPostSizeCheck_def push_packed_def Let_def rpt_entry_def)

lemma device_push_rpt_queue:
  "q_ok (dev_rpt_msgs c) \<Longrightarrow> k \<noteq> kInvalidHandle \<Longrightarrow> q_ok (dev_rpt_msgs (snd (RPTDevice_Push_rpt E c k cid msg)))"
  using push_rpt_queue(1) [of E c k cid msg] push_back_ok [of "dev_rpt_msgs c" k] by metis

lemma controller_push_rpt_keeps:
  "bc_handle (snd (RPTController_Push_rpt E c cid msg)) = bc_handle c \<and>
   bc_client_protocol (snd (RPTController_Push_rpt E c cid msg)) = bc_client_protocol c \<and>
   rpt_entry (snd (RPTController_Push_rpt E c cid msg)) = rpt_entry c \<and>
   rc_client_type (snd (RPTController_Push_rpt E c cid msg)) = rc_client_type c"
  by (simp add: RPTController_Push_rpt_def RPTClient_PushPostSizeCheck_def push_packed_def Let_def rpt_entry_def)

lemma evolves_push_rpt:
  assumes "obj_Push_rpt E obj sender cid msg = Some (res, obj')" and "sender \<noteq> kInvalidHandle"
  shows "evolves obj obj'"
proof (cases obj)
  case (ControllerClient c)
  then have "obj' = ControllerClient (snd (RPTController_Push_rpt E c cid msg))" using assms(1) by (auto simp: map_prod_def split: prod.split_asm)
  then show ?thesis using ControllerClient by (simp add: evolves_def controller_push_rpt_keeps)
next
  case (DeviceClient c)
  then have "obj' = DeviceClient (snd (RPTDevice_Push_rpt E c sender cid msg))" using assms(1) by (auto simp: map_prod_def split: prod.split_asm)
  then show ?thesis using DeviceClient assms(2) by (simp add: evolves_def device_push_rpt_keeps device_push_rpt_queue)
qed (use assms in simp)

lemma evolves_message_received: "evolves obj (MessageReceived reset obj)"
  by (cases obj) (auto simp: evolves_def rpt_entry_def)


lemma evolves_mark: "evolves obj (obj_MarkForDestruction E obj cid uid action)"
proof (cases obj)
  case (PendingClient c)
  then show ?thesis
    using evolves_push_broker [of "PendingClient (BrokerClient_ClearAllQueues c)" E cid]
    by (auto simp: evolves_def MarkForDestruction_def ApplyDestroyAction_def BrokerClient_ClearAllQueues_def
        split: ClientDestroyAction.splits)
next
  case (ControllerClient c)
  then show ?thesis
    using evolves_push_broker [of "ControllerClient (RPTController_ClearAllQueues c)" E cid]
    by (auto simp: evolves_def MarkForDestruction_def ApplyDestroyAction_def RPTController_ClearAllQueues_def rpt_entry_def
        split: ClientDestroyAction.splits)
next
  case (DeviceClient c)
  then show ?thesis
    using evolves_push_broker [of "DeviceClient (RPTDevice_ClearAllQueues c)" E cid]
    by (auto simp: evolves_def MarkForDestruction_def ApplyDestroyAction_def RPTDevice_ClearAllQueues_def rpt_entry_def
        split: ClientDestroyAction.splits)
qed

lemma device_send_queue:
  assumes "RPTDevice_Send E send expired reset s c cid = Some (ok, c', s')" and "q_ok (dev_rpt_msgs c)"
  shows "q_ok (dev_rpt_msgs c')"
  using assms
proof (cases rule: device_send_cases)
  case (serve res)
  have "next_ready (dev_rpt_msgs c) \<in> ready (dev_rpt_msgs c)"
    using serve(2) ready_empty [OF assms(2)] next_ready_in by simp
  then show ?thesis using send_fair_ok(1) [OF _ _ _ serve(4)] assms(2) by simp
qed (use assms(2) in simp_all)

lemma device_send_fields:
  "RPTDevice_Send E send expired reset s c cid = Some (ok, c', s') \<Longrightarrow>
     bc_handle c' = bc_handle c \<and> bc_client_protocol c' = bc_client_protocol c \<and> rpt_entry c' = rpt_entry c \<and>
     rc_client_type c' = rc_client_type c"
  unfolding RPTDevice_Send_def send_heartbeat_def Let_def rpt_entry_def
  by (simp split: if_split_asm option.split_asm Option.bind_split_asm prod.split_asm) (auto split: if_split_asm)

lemma controller_send_fields:
  "RPTController_Send E send expired reset s c cid = Some (ok, c', s') \<Longrightarrow>
     bc_handle c' = bc_handle c \<and> bc_client_protocol c' = bc_client_protocol c \<and> rpt_entry c' = rpt_entry c \<and>
     rc_client_type c' = rc_client_type c"
  unfolding RPTController_Send_def send_heartbeat_def Let_def rpt_entry_def
  by (simp split: if_split_asm option.split_asm Option.bind_split_asm prod.split_asm) (auto split: if_split_asm)

lemma pending_send_fields:
  "BrokerClient_Send E send expired reset s c cid = Some (ok, c', s') \<Longrightarrow>
     bc_handle c' = bc_handle c \<and> bc_client_protocol c' = bc_client_protocol c"
  unfolding BrokerClient_Send_def send_heartbeat_def
  by (simp split: if_split_asm Option.bind_split_asm prod.split_asm) (auto split: if_split_asm)

lemma evolves_send:
  assumes "obj_Send B s obj = Some (ok, obj', s')"
  shows "evolves obj obj'"
proof (cases obj)
  case (DeviceClient c)
  then obtain c' where send: "RPTDevice_Send (be_etcpal B) (be_send B (bc_socket c)) (t_expired (be_timers B)) (t_reset (be_timers B)) s c
      (set_cid (be_settings B)) = Some (ok, c', s')" and obj': "obj' = DeviceClient c'" using assms by auto
  show ?thesis using device_send_fields [OF send] device_send_queue [OF send] by (simp add: evolves_def DeviceClient obj')
qed (use assms in \<open>auto simp: evolves_def dest: pending_send_fields controller_send_fields\<close>)

section \<open>The invariant of the maps\<close>

text \<open>
  Every client has an object that fits it, no two share one, and the other maps hold exactly the addresses of the
  clients of their class.
\<close>

definition holds_kind :: "'s broker \<Rightarrow> (int \<times> nat) list \<Rightarrow> client_kind set \<Rightarrow> bool" where
  "holds_kind b m ks \<longleftrightarrow> distinct (map fst m) \<and>
     (\<forall>h p. map_of m h = Some p \<longleftrightarrow> map_of (b_clients b) h = Some (Some p) \<and> (\<exists>obj. b_objs b p = Some obj \<and> kind obj \<in> ks))"

definition handles_ok :: "'s broker \<Rightarrow> bool" where
  "handles_ok b \<longleftrightarrow> -1 \<le> gen_last_handle (b_handle_generator b) \<and>
     (\<forall>h \<in> fst ` set (b_clients b). h \<le> gen_last_handle (b_handle_generator b))"

definition broker_ok :: "'s broker \<Rightarrow> bool" where
  "broker_ok b \<longleftrightarrow> distinct (map fst (b_clients b)) \<and>
     (\<forall>h q. map_of (b_clients b) h = Some q \<longrightarrow>
        h \<noteq> kInvalidHandle \<and> (\<exists>p obj. q = Some p \<and> p < b_next_obj b \<and> b_objs b p = Some obj \<and> obj_ok h obj)) \<and>
     holds_kind b (b_rpt_clients b) {Controller, Device} \<and> holds_kind b (b_controllers b) {Controller} \<and>
     holds_kind b (b_devices b) {Device} \<and> Suc (max_uid_capacity (b_uids b)) < 2 ^ 32 \<and> handles_ok b"

text \<open>Most steps only change what is in the objects.\<close>

definition frame :: "'s broker \<Rightarrow> 's broker \<Rightarrow> bool" where
  "frame b b' \<longleftrightarrow> b_clients b' = b_clients b \<and> b_rpt_clients b' = b_rpt_clients b \<and> b_controllers b' = b_controllers b \<and>
     b_devices b' = b_devices b \<and> b_next_obj b' = b_next_obj b \<and> my_uid b' = my_uid b \<and> b_handle_generator b' = b_handle_generator b \<and>
     max_uid_capacity (b_uids b') = max_uid_capacity (b_uids b) \<and>
     (\<forall>p. rel_option evolves (b_objs b p) (b_objs b' p))"

lemma frame_refl [simp]: "frame b b"
  by (simp add: frame_def option.rel_refl)

lemma frame_trans: "frame a b \<Longrightarrow> frame b c \<Longrightarrow> frame a c"
  using transpD [OF option.rel_transp [OF transpI, of evolves]] evolves_trans unfolding frame_def by metis

lemma frame_kind: "frame b b' \<Longrightarrow> (\<exists>obj. b_objs b' p = Some obj \<and> kind obj \<in> ks) \<longleftrightarrow> (\<exists>obj. b_objs b p = Some obj \<and> kind obj \<in> ks)"
  unfolding frame_def by (cases "b_objs b p"; cases "b_objs b' p") (auto simp: evolves_def dest!: spec [of _ p])

lemma frame_obj: "frame b b' \<Longrightarrow> b_objs b p = Some obj \<Longrightarrow> \<exists>obj'. b_objs b' p = Some obj' \<and> evolves obj obj'"
  unfolding frame_def by (cases "b_objs b' p") (auto dest!: spec [of _ p])

lemma frame_ok:
  assumes "frame b b'" and "broker_ok b"
  shows "broker_ok b'"
proof -
  note f = assms(1) [unfolded frame_def]
  have "holds_kind b' m ks = holds_kind b m ks" for m ks
    unfolding holds_kind_def using f frame_kind [OF assms(1)] by simp
  moreover have "h \<noteq> kInvalidHandle \<and> (\<exists>p obj. q = Some p \<and> p < b_next_obj b' \<and> b_objs b' p = Some obj \<and> obj_ok h obj)"
    if "map_of (b_clients b') h = Some q" for h q
  proof -
    from assms(2) that f obtain p obj where "h \<noteq> kInvalidHandle" "q = Some p" "p < b_next_obj b" "b_objs b p = Some obj" "obj_ok h obj"
      unfolding broker_ok_def by metis
    with frame_obj [OF assms(1)] f show ?thesis unfolding evolves_def by metis
  qed
  ultimately show ?thesis using assms(2) f unfolding broker_ok_def by (simp add: handles_ok_def)
qed

lemma frame_store: "b_objs b p = Some obj \<Longrightarrow> evolves obj obj' \<Longrightarrow> frame b (store p obj' b)"
  by (auto simp: frame_def option.rel_refl)

lemma frame_fields [simp]:
  "frame b (b'\<lparr>b_to_destroy := hs\<rparr>) = frame b b'" "frame b (b'\<lparr>b_world := w\<rparr>) = frame b b'"
  "frame b (b'\<lparr>b_destroy_timer := t\<rparr>) = frame b b'" "frame b (b'\<lparr>b_socket_calls := cs\<rparr>) = frame b b'"
  by (simp_all add: frame_def)

lemma frame_uids: "frame b b' \<Longrightarrow> max_uid_capacity m = max_uid_capacity (b_uids b) \<Longrightarrow> frame b (b'\<lparr>b_uids := m\<rparr>)"
  by (simp add: frame_def)


section \<open>Steps within the objects\<close>

lemma broker_ok_client:
  assumes "broker_ok b" and "map_of (b_clients b) h = Some q"
  obtains p obj where "q = Some p" "p < b_next_obj b" "b_objs b p = Some obj" "obj_ok h obj" "h \<noteq> kInvalidHandle"
  using assms unfolding broker_ok_def by metis

lemma holds_kind_live: "holds_kind b m ks \<Longrightarrow> (h, p) \<in> set m \<Longrightarrow> b_objs b p \<noteq> None"
  unfolding holds_kind_def by (metis map_of_is_SomeI option.distinct(1))

lemma broker_ok_live:
  assumes "broker_ok b"
  shows "(h, p) \<in> set (b_controllers b) \<Longrightarrow> b_objs b p \<noteq> None" "(h, p) \<in> set (b_devices b) \<Longrightarrow> b_objs b p \<noteq> None"
    "(h, p) \<in> set (b_rpt_clients b) \<Longrightarrow> b_objs b p \<noteq> None"
  using assms holds_kind_live unfolding broker_ok_def by metis+

lemma frame_live: "frame b b' \<Longrightarrow> b_objs b p \<noteq> None \<Longrightarrow> b_objs b' p \<noteq> None"
  using frame_obj by fastforce

lemma push_broker_each_ok:
  assumes "\<forall>(h, p) \<in> set ps. b_objs b p \<noteq> None"
  obtains objs where "push_broker_each B msg ps b = Some (b\<lparr>b_objs := objs\<rparr>)" "frame b (b\<lparr>b_objs := objs\<rparr>)"
  using assms
proof (induction ps arbitrary: b thesis)
  case Nil
  show ?case by (rule Nil(1) [of "b_objs b"]) simp_all
next
  case (Cons x ps)
  obtain h p where x: "x = (h, p)" by fastforce
  obtain obj where obj: "b_objs b p = Some obj" using Cons.prems(2) x by fastforce
  let ?b = "store p (snd (obj_Push_broker (be_etcpal B) obj (set_cid (be_settings B)) msg)) b"
  have f: "frame b ?b" by (rule frame_store [OF obj evolves_push_broker])
  have "\<forall>(h, p) \<in> set ps. b_objs ?b p \<noteq> None" using Cons.prems(2) frame_live [OF f] by auto
  then obtain objs where "push_broker_each B msg ps ?b = Some (?b\<lparr>b_objs := objs\<rparr>)" "frame ?b (?b\<lparr>b_objs := objs\<rparr>)"
    by (rule Cons.IH [rotated])
  then show ?case using Cons.prems(1) [of objs] frame_trans [OF f] by (simp add: x obj)
qed

lemma RemoveUid_capacity [simp]: "max_uid_capacity (RemoveUid m u) = max_uid_capacity m"
  by (simp add: RemoveUid_def split: option.splits)

lemma mark_locked_ok:
  assumes "broker_ok b" and "b_objs b p = Some obj" and "obj_ok h obj"
  obtains b' r where "MarkLockedClientForDestruction B p action b = Some (r, b')" "frame b b'"
proof -
  let ?obj = "obj_MarkForDestruction (be_etcpal B) obj (set_cid (be_settings B)) (my_uid b) action"
  have ev: "evolves obj ?obj" by (rule evolves_mark)
  have f1: "frame b (store p ?obj b)" by (rule frame_store [OF assms(2) ev])
  have ok: "obj_ok h ?obj" using ev assms(3) by (simp add: evolves_def)
  show ?thesis
  proof (cases "obj_protocol ?obj = kClientProtocolRPT")
    case True
    then obtain ce where ce: "obj_entry ?obj = Some ce" using ok by (cases ?obj) auto
    let ?b = "(store p ?obj b)\<lparr>b_uids := RemoveUid (b_uids b) (ce_uid ce)\<rparr>"
    have f2: "frame b ?b" using f1 by (intro frame_uids) simp_all
    have "\<forall>(h, p) \<in> set (b_controllers ?b). b_objs ?b p \<noteq> None"
      using broker_ok_live(1) [OF frame_ok [OF f2 assms(1)]] by blast
    then obtain objs where "SendClientsRemoved B [ce] ?b = Some (?b\<lparr>b_objs := objs\<rparr>)" "frame ?b (?b\<lparr>b_objs := objs\<rparr>)"
      unfolding SendClientsRemoved_def by (rule push_broker_each_ok)
    then show ?thesis
      using that frame_trans [OF f2] True ce by (simp add: MarkLockedClientForDestruction_def assms(2) Let_def)
  next
    case False
    then show ?thesis using that f1 by (simp add: MarkLockedClientForDestruction_def assms(2) Let_def)
  qed
qed

lemma mark_client_ok:
  assumes "broker_ok b"
  obtains b' where "MarkClientForDestruction B h action b = Some b'" "frame b b'"
proof (cases "map_of (b_clients b) h")
  case None
  then show ?thesis using that [of b] by (simp add: MarkClientForDestruction_def)
next
  case (Some q)
  from broker_ok_client [OF assms Some] obtain p obj where "q = Some p" "b_objs b p = Some obj" "obj_ok h obj" .
  then show ?thesis
    using mark_locked_ok [OF assms, of p obj h B action] that Some by (auto simp: MarkClientForDestruction_def)
qed


text \<open>Sockets answer; they may take nothing, or fail.\<close>

definition sockets_answer :: "'s broker_env \<Rightarrow> bool" where
  "sockets_answer B \<longleftrightarrow> (\<forall>sock s m. rc_send (be_send B sock) s m \<noteq> None)"

lemma obj_send_returns:
  assumes "sockets_answer B" and "obj_ok h obj"
  obtains r where "obj_Send B s obj = Some r"
proof -
  have answers: "\<forall>m. rc_send (be_send B sock) s m \<noteq> None" for sock using assms(1) by (simp add: sockets_answer_def)
  have "obj_Send B s obj \<noteq> None"
    using assms(2) client_send_returns [OF answers] controller_send_returns [OF answers] device_send_returns [OF _ answers]
    by (cases obj) (simp_all del: not_None_eq)
  then show ?thesis using that by blast
qed

lemma service_each_ok:
  assumes "broker_ok b" and "sockets_answer B" and "set cs \<subseteq> set (b_clients b)"
  obtains r b' where "service_each B cs result b = Some (True, r, b')" "frame b b'"
  using assms
proof (induction cs arbitrary: b result thesis)
  case Nil
  then show ?case by simp
next
  case (Cons x cs)
  obtain h q where x: "x = (h, q)" by fastforce
  have "map_of (b_clients b) h = Some q" using Cons.prems(2,4) by (auto simp: x broker_ok_def)
  from broker_ok_client [OF Cons.prems(2) this] obtain p obj where
    q: "q = Some p" and obj: "b_objs b p = Some obj" and ok: "obj_ok h obj" .
  have rest: "\<exists>r b'. service_each B cs result b2 = Some (True, r, b') \<and> frame b b'" if f: "frame b b2" for b2 result
  proof -
    have "set cs \<subseteq> set (b_clients b2)" using f Cons.prems(4) by (auto simp: frame_def)
    then obtain r b' where "service_each B cs result b2 = Some (True, r, b')" "frame b2 b'"
      using Cons.IH [OF _ frame_ok [OF f Cons.prems(2)] Cons.prems(3)] by blast
    then show ?thesis using frame_trans [OF f] by blast
  qed
  show ?case
  proof (cases "TcpConnExpired (t_expired (be_timers B)) obj")
    case True
    obtain b2 r where "MarkLockedClientForDestruction B p DoNothing b = Some (r, b2)" "frame b b2"
      by (rule mark_locked_ok [OF Cons.prems(2) obj ok])
    with rest [of b2 result] True Cons.prems(1) show ?thesis by (auto simp: x q obj)
  next
    case False
    obtain sent obj' w where send: "obj_Send B (b_world b) obj = Some (sent, obj', w)"
      using obj_send_returns [OF Cons.prems(3) ok] by (metis prod_cases3)
    have "frame b ((store p obj' b)\<lparr>b_world := w\<rparr>)" using frame_store [OF obj evolves_send [OF send]] by simp
    with rest [of _ "result \<or> sent"] False Cons.prems(1) show ?thesis by (fastforce simp: x q obj send)
  qed
qed

lemma stop_each_ok:
  assumes "broker_ok b" and "sockets_answer B" and "set cs \<subseteq> set (b_clients b)"
  obtains b' where "stop_each B reason cs b = Some (True, b')" "frame b b'"
  using assms
proof (induction cs arbitrary: b thesis)
  case Nil
  then show ?case by simp
next
  case (Cons x cs)
  obtain h q where x: "x = (h, q)" by fastforce
  have m: "map_of (b_clients b) h = Some q" using Cons.prems(2,4) by (auto simp: x broker_ok_def)
  from broker_ok_client [OF Cons.prems(2) m] obtain p obj where
    q: "q = Some p" and obj: "b_objs b p = Some obj" and ok: "obj_ok h obj" .
  obtain b1 r where mark: "MarkLockedClientForDestruction B p (SendDisconnect reason) b = Some (r, b1)" and f1: "frame b b1"
    by (rule mark_locked_ok [OF Cons.prems(2) obj ok])
  obtain obj1 where obj1: "b_objs b1 p = Some obj1" "evolves obj obj1" using frame_obj [OF f1 obj] by blast
  then have "obj_ok h obj1" using ok by (simp add: evolves_def)
  then obtain sent obj' w where send: "obj_Send B (b_world b1) obj1 = Some (sent, obj', w)"
    using obj_send_returns [OF Cons.prems(3)] by (metis prod_cases3)
  let ?b = "(store p obj' b1)\<lparr>b_world := w\<rparr>"
  have f2: "frame b ?b" using frame_trans [OF f1 frame_store [OF obj1(1) evolves_send [OF send]]] by simp
  then have "set cs \<subseteq> set (b_clients ?b)" using Cons.prems(4) by (auto simp: frame_def)
  then obtain b' where "stop_each B reason cs ?b = Some (True, b')" "frame ?b b'"
    using Cons.IH [OF _ frame_ok [OF f2 Cons.prems(2)] Cons.prems(3)] by blast
  then show ?case using Cons.prems(1) frame_trans [OF f2] by (simp add: x q mark obj1 send)
qed

definition rpt_live :: "(nat \<rightharpoonup> ClientObj) \<Rightarrow> (int \<times> nat) list \<Rightarrow> bool" where
  "rpt_live objs ps \<longleftrightarrow> (\<forall>(h, p) \<in> set ps. \<exists>obj ce. objs p = Some obj \<and> obj_entry obj = Some ce)"

lemma rpt_live_Cons [simp]:
  "rpt_live objs ((h, p) # ps) \<longleftrightarrow> (\<exists>obj ce. objs p = Some obj \<and> obj_entry obj = Some ce) \<and> rpt_live objs ps"
  by (auto simp: rpt_live_def)

lemma rpt_entries_ok: "rpt_live objs ps \<Longrightarrow> \<exists>ces. rpt_entries objs ps = Some ces"
proof (induction objs ps rule: rpt_entries.induct)
  case (2 objs h p ps)
  then obtain obj ce where obj: "objs p = Some obj" "obj_entry obj = Some ce" and "rpt_live objs ps" by auto
  with "2.IH" obtain ces where "rpt_entries objs ps = Some ces" by blast
  with obj show ?case by simp
qed simp

lemma frame_rpt_live:
  assumes "frame b b'" and "rpt_live (b_objs b) ps"
  shows "rpt_live (b_objs b') ps"
  unfolding rpt_live_def
proof clarify
  fix h p assume "(h, p) \<in> set ps"
  then obtain obj ce where "b_objs b p = Some obj" "obj_entry obj = Some ce" using assms(2) by (auto simp: rpt_live_def)
  with frame_obj [OF assms(1)] show "\<exists>obj ce. b_objs b' p = Some obj \<and> obj_entry obj = Some ce" by (fastforce simp: evolves_def)
qed

lemma kind_entry: "kind obj \<noteq> Pending \<longleftrightarrow> (\<exists>ce. obj_entry obj = Some ce)"
  by (cases obj) auto

lemma holds_kind_entry:
  assumes "holds_kind b m ks" and "Pending \<notin> ks"
  shows "rpt_live (b_objs b) m"
  unfolding rpt_live_def
proof clarify
  fix h p assume "(h, p) \<in> set m"
  then have "map_of m h = Some p" using assms(1) by (simp add: holds_kind_def)
  then obtain obj where "b_objs b p = Some obj" "kind obj \<in> ks" using assms(1) by (auto simp: holds_kind_def)
  with assms(2) kind_entry [of obj] show "\<exists>obj ce. b_objs b p = Some obj \<and> obj_entry obj = Some ce" by metis
qed

lemma broker_ok_entries:
  assumes "broker_ok b"
  shows "rpt_live (b_objs b) (b_rpt_clients b)" "rpt_live (b_objs b) (b_controllers b)" "rpt_live (b_objs b) (b_devices b)"
proof -
  have hk: "holds_kind b (b_rpt_clients b) {Controller, Device}" "holds_kind b (b_controllers b) {Controller}"
    "holds_kind b (b_devices b) {Device}" using assms by (simp_all add: broker_ok_def)
  show "rpt_live (b_objs b) (b_rpt_clients b)" by (rule holds_kind_entry [OF hk(1)]) simp
  show "rpt_live (b_objs b) (b_controllers b)" by (rule holds_kind_entry [OF hk(2)]) simp
  show "rpt_live (b_objs b) (b_devices b)" by (rule holds_kind_entry [OF hk(3)]) simp
qed

section \<open>Routing is safe\<close>

lemma all_have_room_ok: "rpt_live (b_objs b) ps \<Longrightarrow> \<exists>r. all_have_room ps b = Some r"
proof (induction ps b rule: all_have_room.induct)
  case (2 h p ps b)
  then obtain obj where obj: "b_objs b p = Some obj" and "rpt_live (b_objs b) ps" by auto
  with "2.IH" obtain r where "all_have_room ps b = Some r" by blast
  with obj show ?case by simp
qed auto

lemma filter_manu_ok: "rpt_live objs ps \<Longrightarrow> \<exists>ps'. filter_manu m objs ps = Some ps' \<and> rpt_live objs ps'"
proof (induction m objs ps rule: filter_manu.induct)
  case (2 m objs h p ps)
  then obtain obj ce where obj: "objs p = Some obj" "obj_entry obj = Some ce" and "rpt_live objs ps" by auto
  with "2.IH" obtain ps' where "filter_manu m objs ps = Some ps'" "rpt_live objs ps'" by blast
  with obj show ?case by auto
qed simp

lemma push_rpt_each_ok:
  assumes "rpt_live (b_objs b) ps" and "sender \<noteq> kInvalidHandle"
  obtains r b' where "push_rpt_each B sender msg ps res b = Some (r, b')" "frame b b'"
  using assms
proof (induction ps arbitrary: b res thesis)
  case Nil
  then show ?case by simp
next
  case (Cons x ps)
  obtain h p where x: "x = (h, p)" by fastforce
  obtain obj ce where obj: "b_objs b p = Some obj" "obj_entry obj = Some ce" using Cons.prems(2) x by auto
  then obtain y where "obj_Push_rpt (be_etcpal B) obj sender (sender_cid msg) (msg_rpt msg) = Some y" by (cases obj) auto
  then obtain r obj' where push: "obj_Push_rpt (be_etcpal B) obj sender (sender_cid msg) (msg_rpt msg) = Some (r, obj')"
    by (cases y) simp
  have f: "frame b (store p obj' b)" by (rule frame_store [OF obj(1) evolves_push_rpt [OF push Cons.prems(3)]])
  have "rpt_live (b_objs (store p obj' b)) ps" using frame_rpt_live [OF f] Cons.prems(2) x by simp
  then obtain r' b' where "push_rpt_each B sender msg ps (if res = PushOk then r else res) (store p obj' b) = Some (r', b')"
    "frame (store p obj' b) b'" using Cons.IH Cons.prems(3) by blast
  then show ?case using Cons.prems(1) frame_trans [OF f] by (simp add: x obj push)
qed

lemma push_to_rpt_clients_ok:
  assumes "rpt_live (b_objs b) ps" and "sender \<noteq> kInvalidHandle"
  obtains r b' where "PushToRptClients B sender msg ps b = Some (r, b')" "frame b b'"
proof -
  obtain room where "all_have_room ps b = Some room" using all_have_room_ok [OF assms(1)] by blast
  moreover obtain r b' where "push_rpt_each B sender msg ps PushOk b = Some (r, b')" "frame b b'"
    by (rule push_rpt_each_ok [OF assms])
  ultimately show ?thesis using that by (cases room) (simp_all add: PushToRptClients_def)
qed

lemma find_rpt_client_live:
  assumes "broker_ok b" and "FindRptClient u b = Some p"
  shows "rpt_live (b_objs b) [(h, p)]"
proof -
  obtain k where "map_of (b_rpt_clients b) k = Some p" using assms(2) by (auto simp: FindRptClient_def bind_eq_Some_conv)
  then have "(k, p) \<in> set (b_rpt_clients b)" by (rule map_of_SomeD)
  then show ?thesis using broker_ok_entries(1) [OF assms(1)] by (auto simp: rpt_live_def)
qed

lemma bad_push_result_ok:
  assumes "broker_ok b"
  shows "\<exists>r. HandleRPTClientBadPushResult B header res b = Some r"
proof (cases "FindRptClient (dest_uid header) b")
  case (Some p)
  with find_rpt_client_live [OF assms Some, of 0] show ?thesis by (auto simp: HandleRPTClientBadPushResult_def Let_def)
qed (simp add: HandleRPTClientBadPushResult_def Let_def)

lemma push_anywhere_ok:
  assumes "broker_ok b" and "sender \<noteq> kInvalidHandle"
  shows "\<exists>r b'. PushToAllControllers B sender msg b = Some (r, b') \<and> frame b b'"
    and "\<exists>r b'. PushToAllDevices B sender msg b = Some (r, b') \<and> frame b b'"
    and "\<exists>r b'. PushToManuSpecificDevices B sender msg m b = Some (r, b') \<and> frame b b'"
    and "\<exists>r b'. PushToSpecificRptClient B sender msg b = Some (r, b') \<and> frame b b'"
proof -
  note live = broker_ok_entries [OF assms(1)]
  show "\<exists>r b'. PushToAllControllers B sender msg b = Some (r, b') \<and> frame b b'"
    using push_to_rpt_clients_ok [OF live(2) assms(2)] unfolding PushToAllControllers_def by metis
  show "\<exists>r b'. PushToAllDevices B sender msg b = Some (r, b') \<and> frame b b'"
    using push_to_rpt_clients_ok [OF live(3) assms(2)] unfolding PushToAllDevices_def by metis
  obtain ps where ps: "filter_manu m (b_objs b) (b_devices b) = Some ps" "rpt_live (b_objs b) ps" using filter_manu_ok [OF live(3)] by blast
  show "\<exists>r b'. PushToManuSpecificDevices B sender msg m b = Some (r, b') \<and> frame b b'"
    using push_to_rpt_clients_ok [OF ps(2) assms(2)] unfolding PushToManuSpecificDevices_def ps(1) by (metis bind.bind_lunit)
  show "\<exists>r b'. PushToSpecificRptClient B sender msg b = Some (r, b') \<and> frame b b'"
  proof (cases "FindRptClient (dest_uid (rm_header (msg_rpt msg))) b")
    case (Some p)
    then show ?thesis
      using push_rpt_each_ok [OF find_rpt_client_live [OF assms(1) Some, of 0] assms(2)]
      unfolding PushToSpecificRptClient_def by (metis option.simps(5))
  qed (simp add: PushToSpecificRptClient_def)
qed

lemma route_ok:
  assumes "broker_ok b" and "h \<noteq> kInvalidHandle"
  obtains r b' where "RouteRPTMessage B h msg b = Some (r, b')" "frame b b'"
proof -
  let ?u = "dest_uid (rm_header (msg_rpt msg))"
  let ?push = "if RDMNET_UID_IS_CONTROLLER_BROADCAST (be_macros B) ?u then PushToAllControllers B h msg b
    else if RDMNET_UID_IS_DEVICE_BROADCAST (be_macros B) ?u then PushToAllDevices B h msg b
    else case IsDeviceManuBroadcastUID B ?u of
        Some m \<Rightarrow> PushToManuSpecificDevices B h msg m b
      | None \<Rightarrow> PushToSpecificRptClient B h msg b"
  have "\<exists>r b'. ?push = Some (r, b') \<and> frame b b'"
    using push_anywhere_ok [OF assms, of B msg] by (auto split: option.split)
  then obtain res b1 where push: "?push = Some (res, b1)" and f: "frame b b1" by blast
  obtain r where "HandleRPTClientBadPushResult B (rm_header (msg_rpt msg)) res b1 = Some r"
    using bad_push_result_ok [OF frame_ok [OF f assms(1)]] by blast
  then show ?thesis using that f unfolding RouteRPTMessage_def Let_def push by (cases "res = PushOk") simp_all
qed


lemma broker_ok_controller:
  assumes "obj_ok h obj" and "obj_entry obj = Some ce" and "ce_type ce = kRPTClientTypeController"
  obtains c where "obj = ControllerClient c"
  using assms by (cases obj) (auto simp: rpt_entry_def)

lemma send_status_ok:
  assumes "broker_ok b" and "b_objs b p = Some (ControllerClient c)"
  obtains r b' where "SendStatus B p header code b = Some (r, b')" "frame b b'"
proof -
  obtain res c' where push: "RPTController_Push_status (be_etcpal B) c (set_cid (be_settings B)) (SwapHeaderData header)
      \<lparr>status_code = code, status_string = None\<rparr> = (res, c')" by fastforce
  then have "evolves (ControllerClient c) (ControllerClient c')"
    by (auto simp: evolves_def rpt_entry_def RPTController_Push_status_def RPTClient_PushPostSizeCheck_def push_packed_def
        split: if_split_asm)
  then have f: "frame b (store p (ControllerClient c') b)" by (rule frame_store [OF assms(2)])
  obtain r where "HandleRPTClientBadPushResult B (SwapHeaderData header) res (store p (ControllerClient c') b) = Some r"
    using bad_push_result_ok [OF frame_ok [OF f assms(1)]] by blast
  then show ?thesis using that f by (cases "res = PushOk") (simp_all add: SendStatus_def assms(2) push Let_def)
qed

lemma process_rpt_message_ok:
  assumes "broker_ok b"
  obtains r b' where "ProcessRPTMessage B h msg b = Some (r, b')" "frame b b'"
proof (cases "map_of (b_clients b) h")
  case None
  then show ?thesis using that [of kGetNextMessage b] by (simp add: ProcessRPTMessage_def Let_def)
next
  case (Some q)
  from broker_ok_client [OF assms Some] obtain p obj where
    q: "q = Some p" and obj: "b_objs b p = Some obj" and ok: "obj_ok h obj" and h: "h \<noteq> kInvalidHandle" .
  let ?obj = "MessageReceived (t_reset (be_timers B)) obj"
  let ?b = "store p ?obj b"
  have ev: "evolves obj ?obj" by (rule evolves_message_received)
  have f: "frame b ?b" by (rule frame_store [OF obj ev])
  have ok': "obj_ok h ?obj" using ev ok by (simp add: evolves_def)
  have b: "broker_ok ?b" by (rule frame_ok [OF f assms])
  show ?thesis
  proof (cases "obj_protocol ?obj = kClientProtocolRPT")
    case False
    then show ?thesis using that f by (simp add: ProcessRPTMessage_def Let_def Some q obj)
  next
    case True
    then obtain ce where ce: "obj_entry ?obj = Some ce" using ok' by (cases ?obj) auto
    obtain r1 b1 where route: "RouteRPTMessage B h msg ?b = Some (r1, b1)" "frame ?b b1" by (rule route_ok [OF b h])
    have status: "\<exists>r b'. SendStatus B p (rm_header (msg_rpt msg)) code ?b = Some (r, b') \<and> frame b b'"
      if type: "ce_type ce = kRPTClientTypeController" for code
    proof -
      obtain c where "?obj = ControllerClient c" by (rule broker_ok_controller [OF ok' ce type])
      then obtain r b' where "SendStatus B p (rm_header (msg_rpt msg)) code ?b = Some (r, b')" "frame ?b b'"
        using send_status_ok [OF b, of p c B "rm_header (msg_rpt msg)" code] by auto
      then show ?thesis using frame_trans [OF f] by blast
    qed
    have "\<exists>r b'. ProcessRPTMessage B h msg b = Some (r, b') \<and> frame b b'"
      using status route(1) frame_trans [OF f route(2)] f by (simp add: ProcessRPTMessage_def Let_def Some q obj True ce)
    then show ?thesis using that by metis
  qed
qed

lemma reset_timer_ok:
  assumes "broker_ok b"
  obtains b' where "ResetClientHeartbeatTimer B h b = Some b'" "frame b b'"
proof (cases "map_of (b_clients b) h")
  case None
  then show ?thesis using that [of b] by (simp add: ResetClientHeartbeatTimer_def)
next
  case (Some q)
  from broker_ok_client [OF assms Some] obtain p obj where q: "q = Some p" and obj: "b_objs b p = Some obj" .
  show ?thesis
    using that frame_store [OF obj evolves_message_received] by (simp add: ResetClientHeartbeatTimer_def Some q obj)
qed

definition is_pending :: "int \<Rightarrow> 's broker \<Rightarrow> bool" where
  "is_pending h b \<longleftrightarrow>
     (case map_of (b_clients b) h of
        Some (Some p) \<Rightarrow> (case b_objs b p of Some obj \<Rightarrow> kind obj = Pending | None \<Rightarrow> False)
      | _ \<Rightarrow> False)"

text \<open>The client is not a pending one.\<close>

lemma send_client_list_ok:
  assumes "broker_ok b" and "\<not> is_pending h b"
  obtains b' where "SendClientList B h b = Some b'" "frame b b'"
proof (cases "map_of (b_clients b) h")
  case None
  then show ?thesis using that [of b] by (simp add: SendClientList_def)
next
  case (Some q)
  from broker_ok_client [OF assms(1) Some] obtain p obj where q: "q = Some p" and obj: "b_objs b p = Some obj" and ok: "obj_ok h obj" .
  have "kind obj \<noteq> Pending" using assms(2) by (simp add: is_pending_def Some q obj)
  then have rpt: "obj_protocol obj = kClientProtocolRPT" using ok by (cases obj) simp_all
  obtain ces where ces: "rpt_entries (b_objs b) (b_rpt_clients b) = Some ces"
    using rpt_entries_ok [OF broker_ok_entries(1) [OF assms(1)]] by blast
  have "\<forall>(h, p) \<in> set [(0 :: int, p)]. b_objs b p \<noteq> None" using obj by simp
  then obtain objs where "push_broker_each B (client_list_message VECTOR_BROKER_CONNECTED_CLIENT_LIST ces) [(0, p)] b = Some (b\<lparr>b_objs := objs\<rparr>)"
    "frame b (b\<lparr>b_objs := objs\<rparr>)" by (rule push_broker_each_ok)
  then have "\<exists>b'. SendClientList B h b = Some b' \<and> frame b b'"
    by (simp add: SendClientList_def SendRptClientList_def Some q obj ces rpt)
  then show ?thesis using that by blast
qed


section \<open>Steps that change the maps\<close>

lemma client_pointer_unique:
  assumes "broker_ok b" and "map_of (b_clients b) h = Some (Some p)" and "map_of (b_clients b) h' = Some (Some p)"
  shows "h = h'"
proof -
  have handle: "obj_ok k obj \<Longrightarrow> obj_handle obj = k" for k obj by (cases obj) auto
  show ?thesis
    using broker_ok_client [OF assms(1,2)] broker_ok_client [OF assms(1,3)] handle by (metis option.inject)
qed

lemma distinct_delete: "distinct (map fst m) \<Longrightarrow> distinct (map fst (AList.delete k m))"
  by (simp add: AList.distinct_delete)

text \<open>A handle leaves the clients, together with its object.\<close>

lemma holds_kind_remove:
  assumes "broker_ok b" and "map_of (b_clients b) h = Some (Some p)"
    and "holds_kind b m ks" and "distinct (map fst m')" and "map_of m' = (map_of m)(h := None)"
    and "map_of (b_clients b') = (map_of (b_clients b))(h := None)" and "b_objs b' = (b_objs b)(p := None)"
  shows "holds_kind b' m' ks"
proof -
  have "(map_of m' k = Some q) = (map_of (b_clients b') k = Some (Some q) \<and> (\<exists>obj. b_objs b' q = Some obj \<and> kind obj \<in> ks))" for k q
  proof (cases "k = h")
    case False
    then have "q \<noteq> p" if "map_of (b_clients b) k = Some (Some q)"
      using client_pointer_unique [OF assms(1,2)] that by blast
    with False assms(3) show ?thesis unfolding holds_kind_def assms(5-7) by auto
  qed (simp add: assms(5,6))
  then show ?thesis using assms(4) by (simp add: holds_kind_def)
qed

lemma destroy_client_ok:
  assumes "broker_ok b" and "map_of (b_clients b) h = Some (Some p)"
  obtains removal b' where "destroy_client h p b = Some (removal, b')" "broker_ok b'"
    "b_clients b' = AList.delete h (b_clients b)"
proof -
  from broker_ok_client [OF assms] obtain obj where obj: "b_objs b p = Some obj" and ok: "obj_ok h obj" by auto
  have hk: "holds_kind b (b_rpt_clients b) {Controller, Device}" "holds_kind b (b_controllers b) {Controller}"
    "holds_kind b (b_devices b) {Device}" using assms(1) by (simp_all add: broker_ok_def)
  have absent: "(map_of m)(h := None) = map_of m" if "holds_kind b m ks" "kind obj \<notin> ks" for m ks
  proof -
    have "map_of m h = None" using that assms(2) obj unfolding holds_kind_def by (metis option.exhaust option.inject)
    then show ?thesis by auto
  qed
  note del = distinct_delete AList.delete_conv'
  let ?drop = "\<lambda>k m. if kind obj = k then AList.delete h m else m"
  let ?b = "b\<lparr>b_rpt_clients := (if kind obj = Pending then b_rpt_clients b else AList.delete h (b_rpt_clients b)),
    b_controllers := ?drop Controller (b_controllers b), b_devices := ?drop Device (b_devices b),
    b_clients := AList.delete h (b_clients b), b_objs := (b_objs b)(p := None)\<rparr>"
  have "destroy_client h p b = Some (if obj_socket obj \<noteq> None then [obj_handle obj] else [], ?b)"
    using ok by (cases obj) (simp_all add: destroy_client_def obj Let_def rpt_entry_def)
  moreover have "broker_ok ?b"
  proof -
    note remove = holds_kind_remove [OF assms, where b' = ?b]
    have "holds_kind ?b (b_rpt_clients ?b) {Controller, Device}"
      using absent [OF hk(1)] hk(1) by (intro remove [OF hk(1)]) (auto simp: del holds_kind_def)
    moreover have "holds_kind ?b (b_controllers ?b) {Controller}"
      using absent [OF hk(2)] hk(2) by (intro remove [OF hk(2)]) (auto simp: del holds_kind_def)
    moreover have "holds_kind ?b (b_devices ?b) {Device}"
      using absent [OF hk(3)] hk(3) by (intro remove [OF hk(3)]) (auto simp: del holds_kind_def)
    moreover have "k \<noteq> kInvalidHandle \<and> (\<exists>p' obj. q = Some p' \<and> p' < b_next_obj b \<and> ((b_objs b)(p := None)) p' = Some obj \<and> obj_ok k obj)"
      if q: "map_of (AList.delete h (b_clients b)) k = Some q" for k q
    proof -
      have k: "k \<noteq> h" "map_of (b_clients b) k = Some q" using q by (auto simp: AList.delete_conv' split: if_split_asm)
      from broker_ok_client [OF assms(1) k(2)] client_pointer_unique [OF assms, of k] k show ?thesis by (metis fun_upd_other)
    qed
    moreover have "handles_ok ?b" using assms(1) by (auto simp: broker_ok_def handles_ok_def AList.delete_eq)
    ultimately show ?thesis using assms(1) by (simp add: broker_ok_def distinct_delete)
  qed
  ultimately show ?thesis using that by simp
qed


lemma broker_ok_fields [simp]:
  "broker_ok (b\<lparr>b_to_destroy := hs\<rparr>) = broker_ok b" "broker_ok (b\<lparr>b_socket_calls := cs\<rparr>) = broker_ok b"
  "broker_ok (b\<lparr>b_destroy_timer := t\<rparr>) = broker_ok b"
  by (simp_all add: broker_ok_def holds_kind_def handles_ok_def)

lemma destroy_each_ok:
  assumes "broker_ok b"
  obtains removals b' where "destroy_each hs b = Some (True, removals, b')" "broker_ok b'"
  using assms
proof (induction hs arbitrary: b thesis)
  case Nil
  then show ?case by simp
next
  case (Cons h hs)
  show ?case
  proof (cases "map_of (b_clients b) h")
    case None
    obtain removals b' where "destroy_each hs b = Some (True, removals, b')" "broker_ok b'" using Cons.IH Cons.prems(2) by blast
    then show ?thesis using Cons.prems(1) None by simp
  next
    case (Some q)
    from broker_ok_client [OF Cons.prems(2) Some] obtain p where q: "q = Some p" by blast
    obtain removal b1 where d: "destroy_client h p b = Some (removal, b1)" "broker_ok b1"
      using destroy_client_ok [OF Cons.prems(2) Some [unfolded q]] by blast
    obtain removals b' where "destroy_each hs b1 = Some (True, removals, b')" "broker_ok b'" using Cons.IH d(2) by blast
    then show ?thesis using Cons.prems(1) Some q d(1) by simp
  qed
qed

lemma destroy_marked_ok:
  assumes "broker_ok b"
  obtains b' where "DestroyMarkedClients b = Some b'" "broker_ok b'"
proof -
  obtain removals b' where "destroy_each (b_to_destroy b) b = Some (True, removals, b')" "broker_ok b'"
    by (rule destroy_each_ok [OF assms])
  then show ?thesis using that by (simp add: DestroyMarkedClients_def DestroyMarkedClientsLocked_def RemoveClientSockets_def)
qed

text \<open>A handle gets a new object, which none of the other handles has.\<close>

lemma holds_kind_put:
  assumes "broker_ok b" and "holds_kind b m ks" and "map_of m h = None" and "distinct (map fst m')"
    and "map_of m' = (if kind obj \<in> ks then (map_of m)(h \<mapsto> b_next_obj b) else map_of m)"
    and "map_of (b_clients b') = (map_of (b_clients b))(h \<mapsto> Some (b_next_obj b))"
    and "b_objs b' = objs(b_next_obj b \<mapsto> obj)"
    and "\<And>k q. k \<noteq> h \<Longrightarrow> map_of (b_clients b) k = Some (Some q) \<Longrightarrow> objs q = b_objs b q"
  shows "holds_kind b' m' ks"
proof -
  have "(map_of m' k = Some q) = (map_of (b_clients b') k = Some (Some q) \<and> (\<exists>obj. b_objs b' q = Some obj \<and> kind obj \<in> ks))" for k q
  proof (cases "k = h")
    case True
    then show ?thesis using assms(3) by (auto simp: assms(5-7))
  next
    case False
    have "q \<noteq> b_next_obj b" if "map_of (b_clients b) k = Some (Some q)"
      using broker_ok_client [OF assms(1) that] by blast
    with False assms(2,8) show ?thesis unfolding holds_kind_def assms(5-7) by (cases "kind obj \<in> ks") auto
  qed
  then show ?thesis using assms(4) by (simp add: holds_kind_def)
qed

lemma broker_ok_put:
  assumes "broker_ok b" and "obj_ok h obj" and "h \<noteq> kInvalidHandle"
    and "distinct (map fst (b_clients b'))" and "map_of (b_clients b') = (map_of (b_clients b))(h \<mapsto> Some (b_next_obj b))"
    and "b_objs b' = objs(b_next_obj b \<mapsto> obj)" and "b_next_obj b' = Suc (b_next_obj b)"
    and "\<And>k q. k \<noteq> h \<Longrightarrow> map_of (b_clients b) k = Some (Some q) \<Longrightarrow> objs q = b_objs b q"
    and "holds_kind b' (b_rpt_clients b') {Controller, Device}" and "holds_kind b' (b_controllers b') {Controller}"
    and "holds_kind b' (b_devices b') {Device}" and "max_uid_capacity (b_uids b') = max_uid_capacity (b_uids b)" and "handles_ok b'"
  shows "broker_ok b'"
proof -
  have "k \<noteq> kInvalidHandle \<and> (\<exists>p obj. q = Some p \<and> p < b_next_obj b' \<and> b_objs b' p = Some obj \<and> obj_ok k obj)"
    if q: "map_of (b_clients b') k = Some q" for k q
  proof (cases "k = h")
    case True
    then show ?thesis using assms(2,3) q by (auto simp: assms(5-7))
  next
    case False
    then have k: "map_of (b_clients b) k = Some q" using q by (simp add: assms(5))
    from broker_ok_client [OF assms(1) k] obtain p obj where "q = Some p" "p < b_next_obj b" "b_objs b p = Some obj" "obj_ok k obj"
      "k \<noteq> kInvalidHandle" .
    with assms(8) [OF False] k show ?thesis by (auto simp: assms(6,7))
  qed
  then show ?thesis using assms(1,4,9-13) by (simp add: broker_ok_def)
qed


text \<open>
  What is taken of the handle manager of EtcPal: up to the largest \<^verbatim>\<open>int\<close> it counts, and does not ask whether a value is in use.
\<close>

definition handles_count :: "'s broker_env \<Rightarrow> bool" where
  "handles_count B \<longleftrightarrow> (\<forall>in_use l. -1 \<le> l \<and> l + 1 < 2 ^ 31 \<longrightarrow> get_next_int_handle B in_use l = Some (l + 1, l + 1))"

lemma holds_kind_absent: "holds_kind b m ks \<Longrightarrow> map_of (b_clients b) h = None \<Longrightarrow> map_of m h = None"
  unfolding holds_kind_def by (metis not_None_eq)

lemma new_connection_ok:
  assumes "broker_ok b" and "handles_count B" and "gen_last_handle (b_handle_generator b) + 1 < 2 ^ 31"
  obtains r b' where "HandleNewConnection B sock b = Some (r, b')" "broker_ok b'"
proof -
  let ?g = "b_handle_generator b"
  define h where "h = gen_last_handle ?g + 1"
  let ?g' = "?g\<lparr>gen_last_handle := h\<rparr>"
  have hs: "handles_ok b" using assms(1) by (simp add: broker_ok_def)
  then have get: "GetClientHandle B in_use ?g = Some (h, ?g')" for in_use
    using assms(2,3) by (simp add: handles_count_def handles_ok_def GetClientHandle_def h_def)
  have h: "h \<notin> fst ` set (b_clients b)" "h \<noteq> kInvalidHandle" using hs by (auto simp: handles_ok_def h_def)
  then have none: "map_of (b_clients b) h = None" by (simp add: map_of_eq_None_iff)
  have hk: "holds_kind b (b_rpt_clients b) {Controller, Device}" "holds_kind b (b_controllers b) {Controller}"
    "holds_kind b (b_devices b) {Device}" using assms(1) by (simp_all add: broker_ok_def)
  let ?obj = "PendingClient (new_BrokerClient (t_start (be_timers B)) h (Some sock) 0)"
  let ?b = "b\<lparr>b_handle_generator := ?g', b_clients := alist_insert h (Some (b_next_obj b)) (b_clients b),
    b_objs := (b_objs b)(b_next_obj b \<mapsto> ?obj), b_next_obj := Suc (b_next_obj b), b_socket_calls := b_socket_calls b @ [AddSocket h sock]\<rparr>"
  have clients: "map_of (b_clients ?b) = (map_of (b_clients b))(h \<mapsto> Some (b_next_obj b))"
    by (simp add: map_of_alist_insert has_key_def none)
  note put = holds_kind_put [OF assms(1), where h = h and obj = ?obj and b' = ?b and objs = "b_objs b"]
  have "broker_ok ?b"
  proof (rule broker_ok_put [OF assms(1), where obj = ?obj and objs = "b_objs b", OF _ h(2) _ clients])
    show "holds_kind ?b (b_rpt_clients ?b) {Controller, Device}"
      by (rule put [OF hk(1) holds_kind_absent [OF hk(1) none]]) (use hk(1) clients in \<open>simp_all add: holds_kind_def\<close>)
    show "holds_kind ?b (b_controllers ?b) {Controller}"
      by (rule put [OF hk(2) holds_kind_absent [OF hk(2) none]]) (use hk(2) clients in \<open>simp_all add: holds_kind_def\<close>)
    show "holds_kind ?b (b_devices ?b) {Device}"
      by (rule put [OF hk(3) holds_kind_absent [OF hk(3) none]]) (use hk(3) clients in \<open>simp_all add: holds_kind_def\<close>)
    have "gen_last_handle ?g = h - 1" by (simp add: h_def)
    then show "handles_ok ?b" using hs none by (force simp: handles_ok_def alist_insert_def)
  qed (use assms(1) in \<open>simp_all add: new_BrokerClient_def broker_ok_def\<close>)
  moreover have "broker_ok (b\<lparr>b_handle_generator := ?g'\<rparr>)"
    using assms(1) by (auto simp: broker_ok_def holds_kind_def handles_ok_def h_def)
  ultimately have "\<exists>r b'. HandleNewConnection B sock b = Some (r, b') \<and> broker_ok b'"
    using assms(1) by (auto simp: HandleNewConnection_def Let_def has_key_def none get)
  then show ?thesis using that by blast
qed

lemma add_dynamic_ok:
  assumes "Suc (max_uid_capacity m) < 2 ^ 32"
  obtains res u' m' where "AddDynamicUid m h cid u = Some (res, u', m')" "max_uid_capacity m' = max_uid_capacity m"
proof (cases "length (uid_lookup m) \<ge> max_uid_capacity m")
  case True
  then show ?thesis using that by (simp add: AddDynamicUid_def)
next
  case False
  then have "Suc (length (uid_lookup m)) < 2 ^ 32" using assms by simp
  then obtain i where i: "next_free_id (uid_lookup m) (manu u) (next_device_id m) = Some (i, i + 1)"
    by (rule next_free_id_returns)
  show ?thesis
  proof (cases "map_of (reservations m) cid")
    case None
    then show ?thesis using that False i by (simp add: AddDynamicUid_def Let_def)
  next
    case (Some r)
    then show ?thesis using that False by (cases "currently_connected r") (simp_all add: AddDynamicUid_def)
  qed
qed

lemma resolve_uid_ok:
  assumes "Suc (max_uid_capacity (b_uids b)) < 2 ^ 32"
  obtains res m where "ResolveNewClientUid B h ce b = Some (res, b\<lparr>b_uids := m\<rparr>)"
    "max_uid_capacity m = max_uid_capacity (b_uids b)"
    "\<And>ce'. res = Inr ce' \<Longrightarrow> ce_type ce' = ce_type ce"
proof (cases "RDMNET_UID_IS_DYNAMIC_UID_REQUEST (be_macros B) (ce_uid ce)")
  case True
  obtain r u m where a: "AddDynamicUid (b_uids b) h (ce_cid ce) (ce_uid ce) = Some (r, u, m)"
    and m: "max_uid_capacity m = max_uid_capacity (b_uids b)"
    by (rule add_dynamic_ok [OF assms])
  show ?thesis by (rule that [of "if r = kOk then Inr (ce\<lparr>ce_uid := u\<rparr>) else Inl (add_status r)" m])
    (use True a m in \<open>auto simp: ResolveNewClientUid_def split: if_split_asm\<close>)
next
  case False
  obtain r m where a: "AddStaticUid (b_uids b) h (ce_uid ce) = (r, m)" by fastforce
  then have m: "max_uid_capacity m = max_uid_capacity (b_uids b)" by (auto simp: AddStaticUid_def split: if_split_asm)
  show ?thesis
  proof (cases "RDMNET_UID_IS_STATIC (be_macros B) (ce_uid ce)")
    case True
    show ?thesis by (rule that [of "if r = kOk then Inr ce else Inl (add_status r)" m])
      (use True False a m in \<open>auto simp: ResolveNewClientUid_def split: if_split_asm\<close>)
  next
    case static: False
    show ?thesis by (rule that [of "Inl kRdmnetConnectInvalidUid" "b_uids b"]) (use False static in \<open>simp_all add: ResolveNewClientUid_def\<close>)
  qed
qed


text \<open>A pending client becomes a controller or a device.\<close>

lemma replace_client_ok:
  assumes "broker_ok b" and "map_of (b_clients b) h = Some (Some p)" and "b_objs b p = Some (PendingClient c)"
    and "obj_ok h obj" and "kind obj \<noteq> Pending"
  shows "broker_ok ((replace_client h p obj b)
    \<lparr>b_controllers := (if kind obj = Controller then alist_insert h (b_next_obj b) (b_controllers b) else b_controllers b),
     b_devices := (if kind obj = Device then alist_insert h (b_next_obj b) (b_devices b) else b_devices b)\<rparr>)"
    (is "broker_ok ?b")
proof -
  have h: "h \<noteq> kInvalidHandle" using broker_ok_client [OF assms(1,2)] by blast
  have hk: "holds_kind b (b_rpt_clients b) {Controller, Device}" "holds_kind b (b_controllers b) {Controller}"
    "holds_kind b (b_devices b) {Device}" using assms(1) by (simp_all add: broker_ok_def)
  have none: "map_of m h = None" if "holds_kind b m ks" "Pending \<notin> ks" for m ks
    using that assms(2,3) unfolding holds_kind_def by (metis kind.simps(1) not_None_eq option.inject)
  let ?objs = "(b_objs b)(p := None)"
  have clients: "map_of (b_clients ?b) = (map_of (b_clients b))(h \<mapsto> Some (b_next_obj b))"
    by (simp add: replace_client_def update_conv')
  have other: "\<And>k q. k \<noteq> h \<Longrightarrow> map_of (b_clients b) k = Some (Some q) \<Longrightarrow> ?objs q = b_objs b q"
    using client_pointer_unique [OF assms(1,2)] by fastforce
  have objs: "b_objs ?b = ?objs(b_next_obj b \<mapsto> obj)" by (simp add: replace_client_def)
  note put = holds_kind_put [OF assms(1) _ _ _ _ clients objs other]
  have none': "map_of (b_rpt_clients b) h = None" "map_of (b_controllers b) h = None" "map_of (b_devices b) h = None"
    using none [OF hk(1)] none [OF hk(2)] none [OF hk(3)] by simp_all
  show ?thesis
  proof (rule broker_ok_put [OF assms(1,4) h _ clients objs _ other])
    show "holds_kind ?b (b_rpt_clients ?b) {Controller, Device}"
      by (rule put [OF hk(1) none'(1)])
        (use hk(1) none' assms(5) in \<open>cases "kind obj"; simp add: replace_client_def holds_kind_def map_of_alist_insert has_key_def\<close>)+
    show "holds_kind ?b (b_controllers ?b) {Controller}"
      by (rule put [OF hk(2) none'(2)]) (use hk(2) none' in \<open>simp_all add: holds_kind_def map_of_alist_insert has_key_def\<close>)
    show "holds_kind ?b (b_devices ?b) {Device}"
      by (rule put [OF hk(3) none'(3)]) (use hk(3) none' in \<open>simp_all add: holds_kind_def map_of_alist_insert has_key_def\<close>)
    have "fst ` set (b_clients ?b) = fst ` set (b_clients b)"
      using map_of_SomeD [OF assms(2)] by (force simp: replace_client_def AList.dom_update)
    then show "handles_ok ?b" using assms(1) by (simp add: broker_ok_def handles_ok_def replace_client_def)
  qed (use assms(1) in \<open>simp_all add: replace_client_def broker_ok_def distinct_update\<close>)
qed

lemma add_client_ok:
  assumes "broker_ok b" and "map_of (b_clients b) h = Some (Some p)" and "b_objs b p = Some (PendingClient c)"
  shows "ce_type ce = kRPTClientTypeController \<Longrightarrow>
      \<exists>b'. add_controller B h ce b = Some (Some (b_next_obj b), b') \<and> broker_ok b' \<and> b_objs b' (b_next_obj b) \<noteq> None"
    and "ce_type ce = kRPTClientTypeDevice \<Longrightarrow>
      \<exists>b'. add_device B h ce b = Some (Some (b_next_obj b), b') \<and> broker_ok b' \<and> b_objs b' (b_next_obj b) \<noteq> None"
proof -
  have handle: "bc_handle c = h" using broker_ok_client [OF assms(1,2)] assms(3) by force
  note replace = replace_client_ok [OF assms(1-3)]
  {
    assume type: "ce_type ce = kRPTClientTypeController"
    let ?c = "new_RPTController (t_start (be_timers B)) (unat (lim_controller_messages (set_limits (be_settings B)))) ce c"
    show "\<exists>b'. add_controller B h ce b = Some (Some (b_next_obj b), b') \<and> broker_ok b' \<and> b_objs b' (b_next_obj b) \<noteq> None"
      using replace [of "ControllerClient ?c"] type handle
      by (simp add: add_controller_def clients_index_def assms Let_def base_client_def new_RPTController_def replace_client_def)
  next
    assume type: "ce_type ce = kRPTClientTypeDevice"
    let ?c = "new_RPTDevice (t_start (be_timers B)) (unat (lim_device_messages (set_limits (be_settings B)))) ce c"
    have "q_ok (dev_rpt_msgs ?c)" by (simp add: new_RPTDevice_def q_ok_def)
    then show "\<exists>b'. add_device B h ce b = Some (Some (b_next_obj b), b') \<and> broker_ok b' \<and> b_objs b' (b_next_obj b) \<noteq> None"
      using replace [of "DeviceClient ?c"] type handle
      by (simp add: add_device_def clients_index_def assms Let_def base_client_def new_RPTDevice_def replace_client_def)
  }
qed

lemma broker_ok_uids: "max_uid_capacity m = max_uid_capacity (b_uids b) \<Longrightarrow> broker_ok (b\<lparr>b_uids := m\<rparr>) = broker_ok b"
  by (simp add: broker_ok_def holds_kind_def handles_ok_def)

lemma welcome_ok:
  assumes "broker_ok b" and "b_objs b p \<noteq> None"
  shows "\<exists>b3 b4. push_broker_each B msg [(h, p)] b = Some b3 \<and> SendClientsAdded B h ces b3 = Some b4 \<and> broker_ok b4"
proof -
  have "\<forall>(h, q) \<in> set [(h, p)]. b_objs b q \<noteq> None" using assms(2) by simp
  then obtain objs where b3: "push_broker_each B msg [(h, p)] b = Some (b\<lparr>b_objs := objs\<rparr>)" and f: "frame b (b\<lparr>b_objs := objs\<rparr>)"
    by (rule push_broker_each_ok)
  let ?b = "b\<lparr>b_objs := objs\<rparr>"
  have ok: "broker_ok ?b" by (rule frame_ok [OF f assms(1)])
  have "\<forall>(h, q) \<in> set (filter (\<lambda>(k, _). k \<noteq> h) (b_controllers ?b)). b_objs ?b q \<noteq> None"
    using broker_ok_live(1) [OF ok] by auto
  then obtain objs' where "SendClientsAdded B h ces ?b = Some (?b\<lparr>b_objs := objs'\<rparr>)" "frame ?b (?b\<lparr>b_objs := objs'\<rparr>)"
    unfolding SendClientsAdded_def by (rule push_broker_each_ok)
  then show ?thesis using b3 frame_ok [OF _ ok] by blast
qed


lemma process_rpt_connect_ok:
  assumes "broker_ok b" and "map_of (b_clients b) h = Some (Some p)" and "b_objs b p = Some (PendingClient c)"
  obtains r st b' where "ProcessRPTConnectRequest B h ce status b = Some (r, st, b')" "broker_ok b'"
proof -
  have cap: "Suc (max_uid_capacity (b_uids b)) < 2 ^ 32" using assms(1) by (simp add: broker_ok_def)
  obtain res m where resolve: "ResolveNewClientUid B h ce b = Some (res, b\<lparr>b_uids := m\<rparr>)"
    and m: "max_uid_capacity m = max_uid_capacity (b_uids b)"
    using resolve_uid_ok [OF cap, of B h ce] by blast
  let ?b = "b\<lparr>b_uids := m\<rparr>"
  have ok: "broker_ok ?b" using assms(1) m by (simp add: broker_ok_uids)
  have dropped: "broker_ok (?b\<lparr>b_uids := RemoveUid m u\<rparr>)" for u using broker_ok_uids [of "RemoveUid m u" b] m assms(1) by simp
  show ?thesis
  proof (cases res)
    case (Inl st)
    then show ?thesis using that ok by (auto simp: ProcessRPTConnectRequest_def Let_def resolve)
  next
    case (Inr ce')
    have client: "map_of (b_clients ?b) h = Some (Some p)" "b_objs ?b p = Some (PendingClient c)" using assms(2,3) by simp_all
    have "\<exists>r st b'. ProcessRPTConnectRequest B h ce status b = Some (r, st, b') \<and> broker_ok b'"
    proof (cases "ce_type ce' = kRPTClientTypeController")
      case True
      obtain b2 where b2: "add_controller B h ce' ?b = Some (Some (b_next_obj ?b), b2)" "broker_ok b2" "b_objs b2 (b_next_obj ?b) \<noteq> None"
        using add_client_ok(1) [OF ok client True] by blast
      from welcome_ok [OF b2(2,3)] obtain b3 b4 where "push_broker_each B (connect_reply_message (my_uid b2) (ce_uid ce')) [(h, b_next_obj ?b)] b2 = Some b3"
        "SendClientsAdded B h [ce'] b3 = Some b4" "broker_ok b4" by blast
      then show ?thesis using b2(1) dropped True
        by (auto simp add: ProcessRPTConnectRequest_def Let_def resolve Inr simp del: push_broker_each.simps)
    next
      case controller: False
      show ?thesis
      proof (cases "ce_type ce' = kRPTClientTypeDevice")
        case True
        obtain b2 where b2: "add_device B h ce' ?b = Some (Some (b_next_obj ?b), b2)" "broker_ok b2" "b_objs b2 (b_next_obj ?b) \<noteq> None"
          using add_client_ok(2) [OF ok client True] by blast
        from welcome_ok [OF b2(2,3)] obtain b3 b4 where "push_broker_each B (connect_reply_message (my_uid b2) (ce_uid ce')) [(h, b_next_obj ?b)] b2 = Some b3"
          "SendClientsAdded B h [ce'] b3 = Some b4" "broker_ok b4" by blast
        then show ?thesis using b2(1) dropped True
        by (auto simp add: ProcessRPTConnectRequest_def Let_def resolve Inr simp del: push_broker_each.simps)
      next
        case False
        with controller ok show ?thesis by (auto simp: ProcessRPTConnectRequest_def Let_def resolve Inr)
      qed
    qed
    then show ?thesis using that by blast
  qed
qed

lemma process_connect_ok:
  assumes "broker_ok b" and "map_of (b_clients b) h = Some (Some p)" and "b_objs b p = Some (PendingClient c)"
  obtains b' where "ProcessConnectRequest B h cmsg b = Some b'" "broker_ok b'"
proof -
  let ?e = "entry_rpt (ce_data (cc_client_entry cmsg))"
  obtain r st b1 where connect: "ProcessRPTConnectRequest B h ?e kRdmnetConnectScopeMismatch b = Some (r, st, b1)" "broker_ok b1"
    by (rule process_rpt_connect_ok [OF assms])
  have mark: "\<exists>b'. MarkClientForDestruction B h action b2 = Some b' \<and> broker_ok b'" if "broker_ok b2" for b2 action
    using mark_client_ok [OF that] frame_ok [OF _ that] by metis
  have "\<exists>b'. ProcessConnectRequest B h cmsg b = Some b' \<and> broker_ok b'"
    using connect mark [OF assms(1)] mark [OF connect(2)] by (cases r) (simp_all add: ProcessConnectRequest_def)
  then show ?thesis using that by blast
qed

section \<open>Runs of the broker\<close>

text \<open>What happens to a broker: its threads and sockets call the handlers in some order, each at some time.\<close>

datatype broker_event =
  NewConnection nat
| MessageReceivedFrom int RdmnetMessage
| SocketClosed int
| Service
| Stop u16

fun broker_step :: "'s broker_env \<Rightarrow> broker_event \<Rightarrow> 's broker \<Rightarrow> 's broker option" where
  "broker_step B (NewConnection sock) b = map_option snd (HandleNewConnection B sock b)"
| "broker_step B (MessageReceivedFrom h msg) b = map_option snd (HandleSocketMessageReceived B h msg b)"
| "broker_step B (SocketClosed h) b = HandleSocketClosed B h b"
| "broker_step B Service b = map_option snd (ServiceClients B b)"
| "broker_step B (Stop reason) b = StopBrokerServices B reason b"

text \<open>
  A client may connect once, while it is pending, and ask for the list of clients once it is not. There are not more
  connections than handles.
\<close>

definition is_connect :: "'s broker_env \<Rightarrow> RdmnetMessage \<Rightarrow> bool" where
  "is_connect B msg \<longleftrightarrow> msg_vector msg = ACN_VECTOR_ROOT_BROKER (be_etcpal B) \<and> bm_vector (msg_broker msg) = VECTOR_BROKER_CONNECT"

definition is_fetch :: "'s broker_env \<Rightarrow> RdmnetMessage \<Rightarrow> bool" where
  "is_fetch B msg \<longleftrightarrow> msg_vector msg = ACN_VECTOR_ROOT_BROKER (be_etcpal B) \<and> bm_vector (msg_broker msg) = VECTOR_BROKER_FETCH_CLIENT_LIST"

fun orderly :: "'s broker_env \<Rightarrow> broker_event \<Rightarrow> 's broker \<Rightarrow> bool" where
  "orderly B (NewConnection sock) b \<longleftrightarrow> gen_last_handle (b_handle_generator b) + 1 < 2 ^ 31"
| "orderly B (MessageReceivedFrom h msg) b \<longleftrightarrow> (is_connect B msg \<longrightarrow> is_pending h b) \<and> (is_fetch B msg \<longrightarrow> \<not> is_pending h b)"
| "orderly B _ b \<longleftrightarrow> True"

fun broker_run :: "'s broker_env \<Rightarrow> (broker_timers \<times> broker_event) list \<Rightarrow> 's broker \<Rightarrow> 's broker option" where
  "broker_run B [] b = Some b"
| "broker_run B ((t, ev) # evs) b = Option.bind (broker_step (B\<lparr>be_timers := t\<rparr>) ev b) (broker_run B evs)"

fun orderly_run :: "'s broker_env \<Rightarrow> (broker_timers \<times> broker_event) list \<Rightarrow> 's broker \<Rightarrow> bool" where
  "orderly_run B [] b \<longleftrightarrow> True"
| "orderly_run B ((t, ev) # evs) b \<longleftrightarrow> orderly B ev b \<and>
     (case broker_step (B\<lparr>be_timers := t\<rparr>) ev b of None \<Rightarrow> True | Some b' \<Rightarrow> orderly_run B evs b')"

lemma is_pending_client:
  assumes "is_pending h b"
  obtains p c where "map_of (b_clients b) h = Some (Some p)" "b_objs b p = Some (PendingClient c)"
proof -
  obtain p obj where "map_of (b_clients b) h = Some (Some p)" "b_objs b p = Some obj" "kind obj = Pending"
    using assms by (auto simp: is_pending_def split: option.split_asm)
  then show ?thesis using that by (cases obj) simp_all
qed

lemma is_pending_frame:
  assumes "frame b b'"
  shows "is_pending h b' = is_pending h b"
  using frame_obj [OF assms] assms
  by (auto simp: is_pending_def frame_def evolves_def split: option.splits) (metis option.distinct(1) option.inject option.rel_sel)+

lemma message_ok:
  assumes "broker_ok b" and "is_connect B msg \<longrightarrow> is_pending h b" and "is_fetch B msg \<longrightarrow> \<not> is_pending h b"
  obtains r b' where "HandleSocketMessageReceived B h msg b = Some (r, b')" "broker_ok b'"
proof -
  obtain b1 where reset: "ResetClientHeartbeatTimer B h b = Some b1" and f: "frame b b1" by (rule reset_timer_ok [OF assms(1)])
  have ok: "broker_ok b1" by (rule frame_ok [OF f assms(1)])
  have "\<exists>b2. SendClientList B h b1 = Some b2 \<and> broker_ok b2" if "is_fetch B msg"
  proof -
    have "\<not> is_pending h b1" using assms(3) that by (simp add: is_pending_frame [OF f])
    then show ?thesis using send_client_list_ok [OF ok] frame_ok [OF _ ok] by metis
  qed
  moreover obtain b3 where "MarkClientForDestruction B h DoNothing b1 = Some b3" "broker_ok b3"
    using mark_client_ok [OF ok] frame_ok [OF _ ok] by metis
  moreover obtain r b4 where "ProcessRPTMessage B h msg b1 = Some (r, b4)" "broker_ok b4"
    using process_rpt_message_ok [OF ok] frame_ok [OF _ ok] by metis
  moreover have "\<exists>b5. ProcessConnectRequest B h (client_connect (msg_broker msg)) b1 = Some b5 \<and> broker_ok b5" if "is_connect B msg"
  proof -
    have "is_pending h b1" using assms(2) that by (simp add: is_pending_frame [OF f])
    then show ?thesis by (elim is_pending_client) (metis process_connect_ok [OF ok])
  qed
  ultimately have "\<exists>r b'. HandleSocketMessageReceived B h msg b = Some (r, b') \<and> broker_ok b'"
    using reset ok by (cases "is_connect B msg"; cases "is_fetch B msg") (auto simp: HandleSocketMessageReceived_def is_connect_def is_fetch_def Let_def)
  then show ?thesis using that by blast
qed

lemma broker_step_ok:
  assumes "broker_ok b" and "sockets_answer B" and "handles_count B" and "orderly B ev b"
  obtains b' where "broker_step B ev b = Some b'" "broker_ok b'"
proof (cases ev)
  case (NewConnection sock)
  then obtain r b' where "HandleNewConnection B sock b = Some (r, b')" "broker_ok b'"
    using new_connection_ok [OF assms(1,3), of sock] assms(4) by (metis orderly.simps(1))
  then show ?thesis using that NewConnection by simp
next
  case (MessageReceivedFrom h msg)
  then obtain r b' where "HandleSocketMessageReceived B h msg b = Some (r, b')" "broker_ok b'"
    using message_ok [OF assms(1), of B msg h] assms(4) by (metis orderly.simps(2))
  then show ?thesis using that MessageReceivedFrom by simp
next
  case (SocketClosed h)
  obtain b' where "MarkClientForDestruction B h MarkSocketInvalid b = Some b'" "frame b b'" by (rule mark_client_ok [OF assms(1)])
  then show ?thesis using that SocketClosed frame_ok [OF _ assms(1)] by (simp add: HandleSocketClosed_def)
next
  case Service
  obtain r b1 where "service_each B (b_clients b) False b = Some (True, r, b1)" "frame b b1"
    by (rule service_each_ok [OF assms(1,2) subset_refl])
  moreover obtain b2 where "DestroyMarkedClients b1 = Some b2" "broker_ok b2"
    by (rule destroy_marked_ok [OF frame_ok [OF \<open>frame b b1\<close> assms(1)]])
  ultimately show ?thesis
    using that Service frame_ok [OF \<open>frame b b1\<close> assms(1)]
    by (cases "t_expired (be_timers B) (b_destroy_timer b1)") (simp_all add: ServiceClients_def)
next
  case (Stop reason)
  obtain b1 where "stop_each B reason (b_clients b) b = Some (True, b1)" "frame b b1"
    by (rule stop_each_ok [OF assms(1,2) subset_refl])
  moreover obtain b2 where "DestroyMarkedClients b1 = Some b2" "broker_ok b2"
    by (rule destroy_marked_ok [OF frame_ok [OF \<open>frame b b1\<close> assms(1)]])
  ultimately show ?thesis using that Stop by (simp add: StopBrokerServices_def)
qed


lemma startup_ok: "broker_ok (Startup B w)"
  by (simp add: broker_ok_def Startup_def Let_def holds_kind_def handles_ok_def SetNextDeviceId_def BrokerUidManager_def kDefaultMaxUidCapacity_def
      SetValueInUseFunc_def move_generator_def new_ClientHandleGenerator_def)

lemma broker_run_ok:
  assumes "broker_ok b" and "sockets_answer B" and "handles_count B" and "orderly_run B evs b"
  shows "\<exists>b'. broker_run B evs b = Some b' \<and> broker_ok b'"
  using assms(1,4)
proof (induction evs arbitrary: b)
  case (Cons x evs)
  obtain t ev where x: "x = (t, ev)" by fastforce
  let ?B = "B\<lparr>be_timers := t\<rparr>"
  have "orderly ?B ev b" using Cons.prems(2) by (cases ev) (simp_all add: x is_connect_def is_fetch_def)
  moreover have "sockets_answer ?B" "handles_count ?B" using assms(2,3) by (simp_all add: sockets_answer_def handles_count_def)
  ultimately obtain b1 where "broker_step ?B ev b = Some b1" "broker_ok b1" using broker_step_ok [OF Cons.prems(1)] by blast
  then show ?case using Cons by (simp add: x)
qed simp

text \<open>
  C2. The broker never reads through a stale pointer, casts a client to a class it does not have, or hangs: every
  run from its start gets to its end, and the maps then agree with each other and with the objects. The clients may send
  any message, in any order and at any time, except that a client connects only once, and does not ask for the list of clients
  before it has connected; and there are fewer than \<open>2\<^sup>3\<^sup>1\<close> connections. Every send on a socket is answered.
\<close>

theorem broker_memory_safe:
  assumes "sockets_answer B" and "handles_count B" and "orderly_run B evs (Startup B w)"
  shows "\<exists>b. broker_run B evs (Startup B w) = Some b \<and> broker_ok b"
  by (rule broker_run_ok [OF startup_ok assms])

text \<open>A concrete environment: the UID ranges of the standard, sockets that take everything, and no limits.\<close>

definition e133_macros :: uid_macros where
  "e133_macros =
     \<lparr>RDMNET_UID_IS_CONTROLLER_BROADCAST = (\<lambda>u. manu u = 0xFFFC \<and> dev_id u = 0xFFFFFFFF),
      RDMNET_UID_IS_DEVICE_BROADCAST = (\<lambda>u. manu u = 0xFFFD \<and> dev_id u = 0xFFFFFFFF),
      RDMNET_UID_IS_DEVICE_MANU_BROADCAST = (\<lambda>u. manu u = 0xFFFD \<and> dev_id u AND 0xFFFF = 0xFFFF),
      RDMNET_DEVICE_BROADCAST_MANU_ID = (\<lambda>u. ucast (drop_bit 16 (dev_id u))),
      RDMNET_UID_IS_DYNAMIC_UID_REQUEST = (\<lambda>u. 0x8000 \<le> manu u \<and> manu u < 0xFFFC \<and> dev_id u = 0),
      RDMNET_UID_IS_STATIC = (\<lambda>u. manu u < 0x8000)\<rparr>"

definition sim_broker :: "bytes broker_env" where
  "sim_broker =
     \<lparr>be_etcpal = etcpal_be, be_macros = e133_macros,
      be_timers = \<lparr>t_expired = (\<lambda>_. False), t_reset = id, t_start = (\<lambda>i. \<lparr>timer_interval = i, timer_reset_time = 0\<rparr>)\<rparr>,
      be_settings = \<lparr>set_cid = replicate 16 1, set_uid = \<lparr>manu = 0x6574, dev_id = 1\<rparr>,
        set_limits = \<lparr>lim_connections = 0, lim_controllers = 0, lim_controller_messages = 3, lim_devices = 0,
          lim_device_messages = 3, lim_reject_connections = 1000\<rparr>, set_scope = []\<rparr>,
      get_next_int_handle = (\<lambda>_ l. Some (l + 1, l + 1)), be_setblocking = (\<lambda>_. True), be_send = (\<lambda>_. stream_send)\<rparr>"

lemma sim_broker_ok [simp]: "sockets_answer sim_broker" "handles_count sim_broker"
  by (simp_all add: sockets_answer_def handles_count_def sim_broker_def)

definition device_connect :: "RdmUid \<Rightarrow> RdmnetMessage" where
  "device_connect u = blank_message\<lparr>msg_vector := ACN_VECTOR_ROOT_BROKER etcpal_be, sender_cid := replicate 16 2,
     msg_broker := blank_broker_message\<lparr>bm_vector := VECTOR_BROKER_CONNECT,
       client_connect := \<lparr>cc_scope = [], cc_e133_version = E133_VERSION, cc_search_domain = [], cc_connect_flags = 0,
         cc_client_entry = \<lparr>ce_client_protocol = kClientProtocolRPT,
           ce_data = (ce_data blank_client_entry)\<lparr>entry_rpt := \<lparr>ce_cid = replicate 16 2, ce_uid = u,
             ce_type = kRPTClientTypeDevice, ce_binding_cid = []\<rparr>\<rparr>\<rparr>\<rparr>\<rparr>\<rparr>"

lemma orderly_run_service: "\<forall>x \<in> set evs. snd x = Service \<Longrightarrow> orderly_run B evs b"
  by (induction evs arbitrary: b) (auto split: option.split)

theorem broker_memory_safe_witness:
  "\<exists>b. broker_run sim_broker [(be_timers sim_broker, NewConnection 7),
      (be_timers sim_broker, MessageReceivedFrom 0 (device_connect \<lparr>manu = 0x6574, dev_id = 9\<rparr>)),
      (be_timers sim_broker, Service), (be_timers sim_broker, Service)] (Startup sim_broker []) = Some b \<and> broker_ok b"
proof (rule broker_memory_safe)
  show "orderly_run sim_broker [(be_timers sim_broker, NewConnection 7),
      (be_timers sim_broker, MessageReceivedFrom 0 (device_connect \<lparr>manu = 0x6574, dev_id = 9\<rparr>)),
      (be_timers sim_broker, Service), (be_timers sim_broker, Service)] (Startup sim_broker [])"
    using orderly_run_service [of "[(be_timers sim_broker, Service), (be_timers sim_broker, Service)]" sim_broker]
    by (simp add: HandleNewConnection_def Startup_def sim_broker_def Let_def has_key_def alist_insert_def is_pending_def GetClientHandle_def
        SetValueInUseFunc_def move_generator_def new_ClientHandleGenerator_def is_fetch_def device_connect_def split: option.split)
qed simp_all

end
