(* ===== verification/Broker_Routing.thy ===== *)
theory Broker_Routing
  imports Broker_Core_Properties Rpt_Roundtrip
begin

text \<open>
  What the core of the broker does for its clients: a client that connects can be reached by its UID, and a request
  reaches exactly the device it is for. The other sections show what goes wrong: a client that connects twice leaves a
  stale pointer, status messages block a device, and an expired client takes the UID of its successor.
\<close>

section \<open>Reaching a client\<close>

lemma find_client:
  assumes "broker_ok b" and "UidToHandle (b_uids b) u = Some k" and "map_of (b_devices b) k = Some q"
  shows "FindRptClient u b = Some q"
proof -
  have "map_of (b_clients b) k = Some (Some q) \<and> (\<exists>obj. b_objs b q = Some obj \<and> kind obj \<in> {Device})"
    using assms(1,3) unfolding broker_ok_def holds_kind_def by blast
  then have "map_of (b_rpt_clients b) k = Some q" using assms(1) unfolding broker_ok_def holds_kind_def by blast
  then show ?thesis using assms(2) by (simp add: FindRptClient_def)
qed

text \<open>
  C8. A request of a controller reaches the device it is addressed to and no other client: with the UID registered for a
  device, the broker pushes the message to the queue of that device under the handle of the controller, changes
  nothing else but the heartbeat timer of the controller, and asks for the message again later exactly if the queue is full.
\<close>

theorem request_reaches_device:
  assumes "broker_ok b" and "map_of (b_clients b) h = Some (Some p)" and "b_objs b p = Some (ControllerClient c)"
    and "UidToHandle (b_uids b) (dest_uid (rm_header (msg_rpt msg))) = Some k"
    and "map_of (b_devices b) k = Some q" and "b_objs b q = Some (DeviceClient d)"
    and "msg_vector msg = ACN_VECTOR_ROOT_RPT (be_etcpal B)" and "etcpal_ok (be_etcpal B)"
    and "rm_vector (msg_rpt msg) = VECTOR_RPT_REQUEST" and "length (entries (rm_rdm (msg_rpt msg))) \<le> 1"
    and "\<not> RDMNET_UID_IS_CONTROLLER_BROADCAST (be_macros B) (dest_uid (rm_header (msg_rpt msg)))"
    and "\<not> RDMNET_UID_IS_DEVICE_BROADCAST (be_macros B) (dest_uid (rm_header (msg_rpt msg)))"
    and "\<not> RDMNET_UID_IS_DEVICE_MANU_BROADCAST (be_macros B) (dest_uid (rm_header (msg_rpt msg)))"
  shows "HandleSocketMessageReceived B h msg b =
    (let (res, d') = RPTDevice_Push_rpt (be_etcpal B) d h (sender_cid msg) (msg_rpt msg);
         c' = c\<lparr>bc_heartbeat_timer := t_reset (be_timers B) (t_reset (be_timers B) (bc_heartbeat_timer c))\<rparr> in
     Some (if res = PushQueueFull then kRetryLater else kGetNextMessage,
           b\<lparr>b_objs := (b_objs b)(p \<mapsto> ControllerClient c', q \<mapsto> DeviceClient d')\<rparr>))"
proof -
  let ?c1 = "c\<lparr>bc_heartbeat_timer := t_reset (be_timers B) (bc_heartbeat_timer c)\<rparr>"
  let ?c2 = "c\<lparr>bc_heartbeat_timer := t_reset (be_timers B) (t_reset (be_timers B) (bc_heartbeat_timer c))\<rparr>"
  let ?b1 = "store p (ControllerClient ?c1) b" and ?b2 = "store p (ControllerClient ?c2) b"
  obtain res d' where push: "RPTDevice_Push_rpt (be_etcpal B) d h (sender_cid msg) (msg_rpt msg) = (res, d')" by fastforce
  have "p \<noteq> q" using assms(3,6) by auto
  have ok: "obj_ok h (ControllerClient c)" using broker_ok_client [OF assms(1,2)] assms(3) by force
  have find: "FindRptClient (dest_uid (rm_header (msg_rpt msg))) b = Some q" by (rule find_client [OF assms(1,4,5)])
  have "ProcessRPTMessage B h msg ?b1 = RouteRPTMessage B h msg ?b2"
    using ok assms(2,4,9,10)
    by (simp add: ProcessRPTMessage_def Let_def rpt_entry_def IsValidControllerDestinationUID_def)
  also have "\<dots> = Some (if res = PushQueueFull then kRetryLater else kGetNextMessage,
      b\<lparr>b_objs := (b_objs b)(p \<mapsto> ControllerClient ?c2, q \<mapsto> DeviceClient d')\<rparr>)"
    using assms(6,11-13) find \<open>p \<noteq> q\<close> push
    by (simp add: RouteRPTMessage_def Let_def IsDeviceManuBroadcastUID_def PushToSpecificRptClient_def FindRptClient_def
        HandleRPTClientBadPushResult_def)
  finally show ?thesis
    using assms(2,3,7,8) push by (simp add: HandleSocketMessageReceived_def ResetClientHeartbeatTimer_def etcpal_simps)
qed

text \<open>
  A connect request that the broker accepts: its version and scope are right, its UID is a static one that is not in use, and
  there is room for it.
\<close>

definition asks_for :: "'s broker_env \<Rightarrow> BrokerClientConnectMsg \<Rightarrow> RdmnetRptClientEntry \<Rightarrow> bool" where
  "asks_for B cmsg ce \<longleftrightarrow> cc_e133_version cmsg \<le> E133_VERSION \<and>
     takeWhile (\<lambda>c. c \<noteq> 0) (cc_scope cmsg) = set_scope (be_settings B) \<and>
     ce_client_protocol (cc_client_entry cmsg) = kClientProtocolRPT \<and> entry_rpt (ce_data (cc_client_entry cmsg)) = ce"

definition acceptable :: "'s broker_env \<Rightarrow> RdmnetRptClientEntry \<Rightarrow> 's broker \<Rightarrow> bool" where
  "acceptable B ce b \<longleftrightarrow>
     \<not> RDMNET_UID_IS_DYNAMIC_UID_REQUEST (be_macros B) (ce_uid ce) \<and> RDMNET_UID_IS_STATIC (be_macros B) (ce_uid ce) \<and>
     length (uid_lookup (b_uids b)) < max_uid_capacity (b_uids b) \<and> \<not> has_key (uid_lookup (b_uids b)) (ce_uid ce) \<and>
     (let lim = set_limits (be_settings B) in
      ce_type ce = kRPTClientTypeController \<and> (lim_controllers lim = 0 \<or> length (b_controllers b) < unat (lim_controllers lim)) \<or>
      ce_type ce = kRPTClientTypeDevice \<and> (lim_devices lim = 0 \<or> length (b_devices b) < unat (lim_devices lim)))"

definition registered :: "int \<Rightarrow> RdmUid \<Rightarrow> 's broker \<Rightarrow> 's broker" where
  "registered h u b = b\<lparr>b_uids := snd (AddStaticUid (b_uids b) h u)\<rparr>"

lemma registered_fields [simp]:
  "b_objs (registered h u b) = b_objs b" "b_clients (registered h u b) = b_clients b" "b_next_obj (registered h u b) = b_next_obj b"
  "b_controllers (registered h u b) = b_controllers b" "b_devices (registered h u b) = b_devices b"
  "b_rpt_clients (registered h u b) = b_rpt_clients b" "my_uid (registered h u b) = my_uid b"
  by (simp_all add: registered_def)

lemma registered_route: "acceptable B ce b \<Longrightarrow> UidToHandle (b_uids (registered h (ce_uid ce) b)) (ce_uid ce) = Some h"
  by (simp add: acceptable_def registered_def AddStaticUid_def UidToHandle_def map_of_alist_insert)

lemma registered_ok: "broker_ok b \<Longrightarrow> broker_ok (registered h u b)"
  unfolding registered_def by (subst broker_ok_uids) (simp_all add: AddStaticUid_def)

lemma connect_accepted:
  assumes "asks_for B cmsg ce" and "acceptable B ce b"
    and "(if ce_type ce = kRPTClientTypeController then add_controller B h ce (registered h (ce_uid ce) b)
          else add_device B h ce (registered h (ce_uid ce) b)) = Some (Some p, b2)"
    and "push_broker_each B (connect_reply_message (my_uid b2) (ce_uid ce)) [(h, p)] b2 = Some b3"
    and "SendClientsAdded B h [ce] b3 = Some b4"
  shows "ProcessConnectRequest B h cmsg b = Some b4"
proof -
  have "ResolveNewClientUid B h ce b = Some (Inr ce, registered h (ce_uid ce) b)"
    using assms(2) by (simp add: ResolveNewClientUid_def acceptable_def AddStaticUid_def registered_def)
  then have "\<exists>st. ProcessRPTConnectRequest B h ce kRdmnetConnectScopeMismatch b = Some (True, st, b4)"
    using assms(2-5)
    by (auto simp: ProcessRPTConnectRequest_def Let_def acceptable_def not_le simp del: push_broker_each.simps split: if_split_asm)
  then show ?thesis using assms(1) by (auto simp: ProcessConnectRequest_def asks_for_def)
qed

fun obj_broker_msgs :: "ClientObj \<Rightarrow> MessageRef list" where
  "obj_broker_msgs (PendingClient c) = broker_msgs c"
| "obj_broker_msgs (ControllerClient c) = broker_msgs c"
| "obj_broker_msgs (DeviceClient c) = broker_msgs c"

text \<open>What the new object of a client that connects is like: it has its entry, and an empty queue with room.\<close>

definition fresh_client :: "RdmnetRptClientEntry \<Rightarrow> ClientObj \<Rightarrow> bool" where
  "fresh_client ce obj \<longleftrightarrow> obj_entry obj = Some ce \<and>
     (\<forall>E cid msg. pending (obj_broker_msgs (snd (obj_Push_broker E obj cid msg))) = pack_broker_message E cid msg)"

lemma fresh_controller: "fresh_client ce (ControllerClient (new_RPTController start n ce c))"
  by (auto simp: fresh_client_def rpt_entry_def new_RPTController_def RPTController_Push_broker_def push_broker_def
      RPTController_HasRoomToPush_def BrokerClient_PushPostSizeCheck_def push_packed_def pending_def)

lemma fresh_device: "fresh_client ce (DeviceClient (new_RPTDevice start n ce c))"
  by (auto simp: fresh_client_def rpt_entry_def new_RPTDevice_def RPTDevice_Push_broker_def push_broker_def RptMsgQ_size_def
      RPTDevice_HasRoomToPush_def BrokerClient_PushPostSizeCheck_def push_packed_def pending_def)

lemma add_client_fresh:
  assumes "add_controller B h ce b = Some (Some n, b') \<or> add_device B h ce b = Some (Some n, b')"
  obtains obj where "b_objs b' n = Some obj" "fresh_client ce obj"
    "map_of (b_clients b') h = Some (Some n)" "b_uids b' = b_uids b" "my_uid b' = my_uid b"
  using assms
  by (auto simp: fresh_controller fresh_device add_controller_def add_device_def replace_client_def Let_def bind_eq_Some_conv update_conv'
      split: prod.split_asm option.split_asm)

lemma push_broker_each_other:
  "push_broker_each B msg ps b = Some b' \<Longrightarrow> q \<notin> snd ` set ps \<Longrightarrow> b_objs b' q = b_objs b q"
  by (induction B msg ps b rule: push_broker_each.induct) (auto simp: bind_eq_Some_conv)

lemma push_broker_each_rest: "push_broker_each B msg ps b = Some b' \<Longrightarrow> \<exists>objs. b' = b\<lparr>b_objs := objs\<rparr>"
proof (induction B msg ps b rule: push_broker_each.induct)
  case (1 B msg b)
  then show ?case by (metis broker.update_convs(4) broker.surjective option.inject push_broker_each.simps(1))
next
  case (2 B msg h p ps b)
  then show ?case by (fastforce simp: bind_eq_Some_conv)
qed

lemma controller_pointer:
  assumes "broker_ok b" and "(k, n) \<in> set (b_controllers b)" and "map_of (b_clients b) h = Some (Some n)"
  shows "k = h"
proof -
  have "map_of (b_controllers b) k = Some n" using assms(1,2) by (simp add: broker_ok_def holds_kind_def)
  then have "map_of (b_clients b) k = Some (Some n)" using assms(1) unfolding broker_ok_def holds_kind_def by blast
  then show ?thesis using client_pointer_unique [OF assms(1)] assms(3) by blast
qed

lemma rpt_client_pointer:
  assumes "broker_ok b" and "map_of (b_clients b) h = Some (Some n)" and "b_objs b n = Some obj" and "obj_entry obj = Some ce"
  shows "map_of (b_rpt_clients b) h = Some n" and "obj_handle obj = h"
proof -
  have "kind obj \<in> {Controller, Device}" using assms(4) by (cases obj) auto
  then show "map_of (b_rpt_clients b) h = Some n" using assms(1-3) unfolding broker_ok_def holds_kind_def by blast
  have "obj_ok h obj" using broker_ok_client [OF assms(1,2)] assms(3) by force
  then show "obj_handle obj = h" by (cases obj) auto
qed

text \<open>
  C10. A client that connects can be reached: if a pending client asks to connect with a static UID that is not in use, and
  there is room for it, then afterwards its UID leads to it, its entry is the one it asked with, and the first bytes it will
  be sent are a Connect Reply with its UID. The invariant of the broker holds.
\<close>

theorem connected_client_reachable:
  assumes "broker_ok b" and "is_pending h b" and "asks_for B cmsg ce" and "acceptable B ce b"
  shows "\<exists>b' p obj. ProcessConnectRequest B h cmsg b = Some b' \<and> broker_ok b' \<and>
    FindRptClient (ce_uid ce) b' = Some p \<and> b_objs b' p = Some obj \<and> obj_handle obj = h \<and> obj_entry obj = Some ce \<and>
    pending (obj_broker_msgs obj) =
      pack_broker_message (be_etcpal B) (set_cid (be_settings B)) (connect_reply_message (my_uid b) (ce_uid ce))"
proof -
  let ?b1 = "registered h (ce_uid ce) b"
  obtain p0 c where p0: "map_of (b_clients ?b1) h = Some (Some p0)" "b_objs ?b1 p0 = Some (PendingClient c)"
    using is_pending_client [OF assms(2)] by auto
  have ok1: "broker_ok ?b1" by (rule registered_ok [OF assms(1)])
  let ?add = "if ce_type ce = kRPTClientTypeController then add_controller B h ce ?b1 else add_device B h ce ?b1"
  have "ce_type ce = kRPTClientTypeController \<or> ce_type ce = kRPTClientTypeDevice" using assms(4) by (auto simp: acceptable_def Let_def)
  then obtain n b2 where add: "?add = Some (Some n, b2)" and ok2: "broker_ok b2"
    using add_client_ok [OF ok1 p0, of ce B] by auto
  from add have "add_controller B h ce ?b1 = Some (Some n, b2) \<or> add_device B h ce ?b1 = Some (Some n, b2)"
    by (auto split: if_split_asm)
  then obtain obj where obj: "b_objs b2 n = Some obj" "fresh_client ce obj" and n: "map_of (b_clients b2) h = Some (Some n)"
    and same: "b_uids b2 = b_uids ?b1" "my_uid b2 = my_uid b" by (rule add_client_fresh) simp
  let ?reply = "connect_reply_message (my_uid b2) (ce_uid ce)"
  let ?obj = "snd (obj_Push_broker (be_etcpal B) obj (set_cid (be_settings B)) ?reply)"
  let ?b3 = "store n ?obj b2"
  have b3: "push_broker_each B ?reply [(h, n)] b2 = Some ?b3" by (simp add: obj)
  from welcome_ok [OF ok2, of n B ?reply h "[ce]"] obj obtain b4 where
    b4: "SendClientsAdded B h [ce] ?b3 = Some b4" "broker_ok b4" by (auto simp: obj)
  have "n \<notin> snd ` set (filter (\<lambda>(k, _). k \<noteq> h) (b_controllers b2))" using controller_pointer [OF ok2 _ n] by fastforce
  then have obj4: "b_objs b4 n = Some ?obj" using push_broker_each_other [OF b4(1) [unfolded SendClientsAdded_def]] by simp
  obtain objs where b4_eq: "b4 = ?b3\<lparr>b_objs := objs\<rparr>" using push_broker_each_rest [OF b4(1) [unfolded SendClientsAdded_def]] by blast
  have entry: "obj_entry ?obj = Some ce" using obj(2) evolves_push_broker by (simp add: evolves_def fresh_client_def)
  have "map_of (b_clients b4) h = Some (Some n)" using n by (simp add: b4_eq)
  note client = rpt_client_pointer [OF b4(2) this obj4 entry]
  have "FindRptClient (ce_uid ce) b4 = Some n"
    using client(1) registered_route [OF assms(4), of h] by (simp add: FindRptClient_def b4_eq same)
  moreover have "ProcessConnectRequest B h cmsg b = Some b4" by (rule connect_accepted [OF assms(3,4) add b3 b4(1)])
  ultimately show ?thesis using b4(2) obj4 client(2) entry obj(2) by (auto simp: fresh_client_def same)
qed

section \<open>A client that connects twice\<close>

lemma push_broker_each_stale:
  "(k, p) \<in> set ps \<Longrightarrow> b_objs b p = None \<Longrightarrow> push_broker_each B msg ps b = None"
proof (induction B msg ps b rule: push_broker_each.induct)
  case (2 B msg h q ps b)
  show ?case
  proof (cases "b_objs b q")
    case (Some obj)
    then have "p \<noteq> q" using "2.prems"(2) by auto
    then show ?thesis using "2.IH" [OF Some] "2.prems" Some by auto
  qed simp
qed simp

lemma evolvesD: "evolves obj obj' \<Longrightarrow> obj_ok h obj \<Longrightarrow> obj_ok h obj' \<and> kind obj' = kind obj"
  by (simp add: evolves_def)

lemma live_below:
  assumes "broker_ok b" and "(k, q) \<in> set (b_controllers b)"
  shows "q < b_next_obj b"
proof -
  have "map_of (b_controllers b) k = Some q" using assms by (simp add: broker_ok_def holds_kind_def)
  then have "map_of (b_clients b) k = Some (Some q)" using assms(1) unfolding broker_ok_def holds_kind_def by blast
  then show ?thesis using broker_ok_client [OF assms(1)] by blast
qed

lemma mark_stale:
  assumes "b_objs b n = Some obj" and "obj_ok h obj" and "kind obj \<noteq> Pending" and "(k, p) \<in> set (b_controllers b)" and "b_objs b p = None"
  shows "MarkLockedClientForDestruction B n action b = None"
proof -
  let ?obj = "obj_MarkForDestruction (be_etcpal B) obj (set_cid (be_settings B)) (my_uid b) action"
  have "obj_ok h ?obj" "kind ?obj \<noteq> Pending" using evolves_mark assms(2,3) by (auto simp: evolves_def)
  then obtain ce where "obj_protocol ?obj = kClientProtocolRPT" "obj_entry ?obj = Some ce" by (cases ?obj) auto
  moreover have "p \<noteq> n" using assms(1,5) by auto
  then have "SendClientsRemoved B [ce] ((store n ?obj b)\<lparr>b_uids := RemoveUid (b_uids b) (ce_uid ce)\<rparr>) = None"
    unfolding SendClientsRemoved_def using assms(4,5) by (intro push_broker_each_stale [of k p]) simp_all
  ultimately show ?thesis by (simp add: MarkLockedClientForDestruction_def assms(1) Let_def)
qed

text \<open>The state after the second connect request.\<close>

lemma connect_again:
  assumes "broker_ok b" and "map_of (b_clients b) h = Some (Some p)" and "b_objs b p = Some (ControllerClient c)"
    and "asks_for B cmsg ce" and "acceptable B ce b" and "ce_type ce = kRPTClientTypeController"
  obtains b' n obj where "ProcessConnectRequest B h cmsg b = Some b'" "(h, p) \<in> set (b_controllers b')" "b_objs b' p = None"
    "map_of (b_clients b') h = Some (Some n)" "b_objs b' n = Some obj" "obj_ok h obj" "kind obj = Controller"
proof -
  let ?b1 = "registered h (ce_uid ce) b"
  let ?n = "b_next_obj b"
  let ?c = "new_RPTController (t_start (be_timers B)) (unat (lim_controller_messages (set_limits (be_settings B)))) ce
    (base_client (ControllerClient c))"
  have ctl: "map_of (b_controllers b) h = Some p"
    using assms(1-3) unfolding broker_ok_def holds_kind_def by (metis kind.simps(2) singletonI)
  have "p < ?n" using broker_ok_client [OF assms(1,2)] by blast
  define b2 where "b2 = (replace_client h p (ControllerClient ?c) ?b1)\<lparr>b_controllers := alist_insert h ?n (b_controllers b)\<rparr>"
  have b2: "b_objs b2 = (b_objs b)(p := None, ?n \<mapsto> ControllerClient ?c)" "b_controllers b2 = b_controllers b"
    "map_of (b_clients b2) h = Some (Some ?n)"
    using ctl by (simp_all add: b2_def replace_client_def alist_insert_def update_conv')
  have add: "add_controller B h ce ?b1 = Some (Some ?n, b2)"
    using assms(2,3) by (simp add: add_controller_def clients_index_def b2_def)
  let ?reply = "connect_reply_message (my_uid b2) (ce_uid ce)"
  let ?obj = "snd (obj_Push_broker (be_etcpal B) (ControllerClient ?c) (set_cid (be_settings B)) ?reply)"
  let ?b3 = "store ?n ?obj b2"
  have b3: "push_broker_each B ?reply [(h, ?n)] b2 = Some ?b3" by (simp add: b2)
  have live: "\<forall>(k, q) \<in> set (filter (\<lambda>(k, _). k \<noteq> h) (b_controllers ?b3)). b_objs ?b3 q \<noteq> None"
    using broker_ok_live(1) [OF assms(1)] controller_pointer [OF assms(1) _ assms(2)] by (auto simp: b2)
  obtain objs where b4: "SendClientsAdded B h [ce] ?b3 = Some (?b3\<lparr>b_objs := objs\<rparr>)"
    using push_broker_each_ok [OF live] unfolding SendClientsAdded_def by metis
  let ?b4 = "?b3\<lparr>b_objs := objs\<rparr>"
  have other: "q \<notin> snd ` set (filter (\<lambda>(k, _). k \<noteq> h) (b_controllers ?b3)) \<Longrightarrow> objs q = b_objs ?b3 q" for q
    using push_broker_each_other [OF b4 [unfolded SendClientsAdded_def], of q] by simp
  have "p \<notin> snd ` set (filter (\<lambda>(k, _). k \<noteq> h) (b_controllers b))" "?n \<notin> snd ` set (filter (\<lambda>(k, _). k \<noteq> h) (b_controllers b))"
    using controller_pointer [OF assms(1) _ assms(2)] live_below [OF assms(1)] by fastforce+
  then have objs: "objs p = None" "objs ?n = Some ?obj" using other [of p] other [of ?n] \<open>p < ?n\<close> by (simp_all add: b2)
  have "obj_ok h (ControllerClient ?c)"
    using broker_ok_client [OF assms(1,2)] assms(3,6) by (force simp: new_RPTController_def base_client_def BrokerClient.truncate_def)
  then have "obj_ok h ?obj" "kind ?obj = Controller"
    using evolvesD [OF evolves_push_broker, of h "ControllerClient ?c"] by simp_all
  moreover have "ProcessConnectRequest B h cmsg b = Some ?b4"
    by (rule connect_accepted [OF assms(4,5) _ b3 b4]) (simp add: assms(6) add)
  ultimately show ?thesis using objs map_of_SomeD [OF ctl] that [of ?b4 ?n ?obj] by (simp add: b2)
qed

text \<open>
  A client that asks for the list of clients before it has connected: the broker casts the object, which is a plain
  \<^verbatim>\<open>BrokerClient\<close>, to an \<^verbatim>\<open>EPTClient\<close>. This happens in every consistent state of the broker, and the connection needs to have
  sent nothing else.
\<close>

lemma pending_fetch_miscasts:
  assumes "broker_ok b" and "is_pending h b" and "is_fetch B msg"
  shows "HandleSocketMessageReceived B h msg b = None"
proof -
  obtain b1 where reset: "ResetClientHeartbeatTimer B h b = Some b1" and f: "frame b b1" by (rule reset_timer_ok [OF assms(1)])
  have ok: "broker_ok b1" by (rule frame_ok [OF f assms(1)])
  have "is_pending h b1" using assms(2) by (simp add: is_pending_frame [OF f])
  then obtain p c where c: "map_of (b_clients b1) h = Some (Some p)" "b_objs b1 p = Some (PendingClient c)" by (rule is_pending_client)
  have "obj_ok h (PendingClient c)" using broker_ok_client [OF ok c(1)] c(2) by force
  then show ?thesis using assms(3) reset c
    by (simp add: HandleSocketMessageReceived_def is_fetch_def SendClientList_def Let_def)
qed

text \<open>
  C30. A controller that sends a second Connect message, with another UID, leaves a stale pointer behind: its object is replaced
  and freed, but \<^verbatim>\<open>controllers_\<close> keeps the old address, since \<^verbatim>\<open>insert\<close> does not overwrite it. When that client disconnects, the broker
  calls a method of the freed object.
\<close>

theorem second_connect_dangles:
  assumes "broker_ok b" and "map_of (b_clients b) h = Some (Some p)" and "b_objs b p = Some (ControllerClient c)"
    and "asks_for B cmsg ce" and "acceptable B ce b" and "ce_type ce = kRPTClientTypeController"
  shows "\<exists>b'. ProcessConnectRequest B h cmsg b = Some b' \<and> (h, p) \<in> set (b_controllers b') \<and> b_objs b' p = None \<and>
    HandleSocketClosed B h b' = None"
proof -
  obtain b' n obj where b': "ProcessConnectRequest B h cmsg b = Some b'" "(h, p) \<in> set (b_controllers b')" "b_objs b' p = None"
    and n: "map_of (b_clients b') h = Some (Some n)" and obj: "b_objs b' n = Some obj" "obj_ok h obj" "kind obj = Controller"
    by (rule connect_again [OF assms])
  have "MarkLockedClientForDestruction B n MarkSocketInvalid b' = None"
    using obj(3) by (intro mark_stale [OF obj(1,2) _ b'(2,3)]) simp
  then show ?thesis using b' n by (simp add: HandleSocketClosed_def MarkClientForDestruction_def)
qed

section \<open>Status messages to a device\<close>

text \<open>A device never sends its status messages, so they keep their room for good.\<close>

lemma device_ops_keep_status:
  "max_q_size (snd (RPTDevice_Push_rpt E c k cid msg)) = max_q_size c \<and>
   length (status_msgs c) \<le> length (status_msgs (snd (RPTDevice_Push_rpt E c k cid msg)))"
  "max_q_size (snd (RPTDevice_Push_broker E c cid bmsg)) = max_q_size c \<and>
   status_msgs (snd (RPTDevice_Push_broker E c cid bmsg)) = status_msgs c"
  by (simp_all add: RPTDevice_Push_rpt_def RPTClient_PushPostSizeCheck_def push_packed_def Let_def RPTDevice_Push_broker_def
      push_broker_def BrokerClient_PushPostSizeCheck_def)

fun unmarked :: "dev_op list \<Rightarrow> bool" where
  "unmarked [] \<longleftrightarrow> True"
| "unmarked (DevMark _ _ _ # ops) \<longleftrightarrow> False"
| "unmarked (DevPushRpt _ _ _ # ops) \<longleftrightarrow> unmarked ops"
| "unmarked (DevPushBroker _ _ # ops) \<longleftrightarrow> unmarked ops"
| "unmarked (DevSend # ops) \<longleftrightarrow> unmarked ops"

lemma full_of_statuses:
  assumes "dev_run E send expired reset cid ops c s = Some (ks, c', s')" and "unmarked ops"
    and "max_q_size c \<noteq> 0" and "max_q_size c \<le> length (status_msgs c)" and "\<not> marked_for_destruction c"
  shows "\<not> RPTDevice_HasRoomToPush c' \<and> \<not> marked_for_destruction c'"
  using assms
proof (induction ops arbitrary: c s ks rule: unmarked.induct)
  case (3 k from_cid msg ops)
  then show ?case using "3.IH" [of "snd (RPTDevice_Push_rpt E c k from_cid msg)" s ks] device_ops_keep_status(1) [of E c k from_cid msg]
      push_rpt_queue(2) [of E c k from_cid msg] by simp
next
  case (4 from_cid msg ops)
  then show ?case using "4.IH" [of "snd (RPTDevice_Push_broker E c from_cid msg)" s ks] device_ops_keep_status(2) [of E c from_cid msg]
    by simp
next
  case (5 ops)
  then obtain ok c2 s2 ks2 where send: "RPTDevice_Send E send expired reset s c cid = Some (ok, c2, s2)"
    and run: "dev_run E send expired reset cid ops c2 s2 = Some (ks2, c', s')" by (auto simp: bind_eq_Some_conv)
  then show ?case using "5.IH" [OF run] "5.prems" device_send_keeps [OF send] by simp
qed (auto simp: RPTDevice_HasRoomToPush_def)

text \<open>
  C31. Status messages block a device for good. They are accepted into the queue of a device, although a device is never sent
  one: as many of them as its queue holds, pushed while it is idle, and every later request to the device is refused as
  long as it is connected, whatever is sent to it.
\<close>

theorem statuses_block_device:
  assumes "dev_run E send expired reset cid (replicate (max_q_size c) (DevPushRpt h from_cid msg) @ ops) c s = Some (ks, c', s')"
    and "rm_vector msg = VECTOR_RPT_STATUS"
    and "rc_rpt_pack_status E (rc_rpt_get_status_buffer_size E (rm_status msg)) from_cid (rm_header msg) (rm_status msg) \<noteq> []"
    and "max_q_size c \<noteq> kLimitlessQueueSize" and "\<not> marked_for_destruction c"
    and "dev_msgs c = []" and "q_ok (dev_rpt_msgs c)" and "unmarked ops"
  shows "RPTDevice_Push_rpt E c' k cid' msg' = (PushQueueFull, c')"
proof -
  let ?d = "rc_rpt_pack_status E (rc_rpt_get_status_buffer_size E (rm_status msg)) from_cid (rm_header msg) (rm_status msg)"
  let ?c = "\<lambda>n. c\<lparr>status_msgs := replicate n \<lparr>mr_data = ?d, size_sent = 0\<rparr>\<rparr>"
  have empty: "broker_msgs c = []" "status_msgs c = []" "RptMsgQ_size (dev_rpt_msgs c) = 0"
    using assms(6) length_dev_msgs [OF assms(7)] by simp_all
  have run: "dev_run E send expired reset cid (replicate m (DevPushRpt h from_cid msg) @ ops) (?c n) s = Some (ks, c', s') \<Longrightarrow>
      m + n = max_q_size c \<Longrightarrow> dev_run E send expired reset cid ops (?c (max_q_size c)) s = Some (ks, c', s')" for m n
  proof (induction m arbitrary: n)
    case (Suc m)
    have "snd (RPTDevice_Push_rpt E (?c n) h from_cid msg) = ?c (Suc n)"
      using Suc.prems(2) assms(2-5) empty
      by (simp add: RPTDevice_Push_rpt_def RPTDevice_HasRoomToPush_def RPTClient_PushPostSizeCheck_def push_packed_def replicate_append_same)
    then show ?case using Suc.IH [of "Suc n"] Suc.prems by simp
  qed simp
  have "?c 0 = c" using empty(2) by simp
  then have "dev_run E send expired reset cid ops (?c (max_q_size c)) s = Some (ks, c', s')" using run [of "max_q_size c" 0] assms(1) by simp
  from full_of_statuses [OF this assms(8)] assms(4,5) show ?thesis by (simp add: RPTDevice_Push_rpt_def)
qed

section \<open>A client that is marked twice\<close>

lemma push_broker_each_uids: "push_broker_each B msg ps b = Some b' \<Longrightarrow> b_uids b' = b_uids b"
  using push_broker_each_rest by fastforce

lemma obj_ok_protocol: "obj_ok h obj \<Longrightarrow> obj_protocol obj = kClientProtocolRPT \<longleftrightarrow> (\<exists>ce. obj_entry obj = Some ce)"
  by (cases obj) auto

lemma mark_locked_route:
  assumes "MarkLockedClientForDestruction B p action b = Some (r, b')" and "b_objs b p = Some obj" and "obj_ok h obj"
  shows "UidToHandle (b_uids b') u = (if \<exists>ce. obj_entry obj = Some ce \<and> ce_uid ce = u then None else UidToHandle (b_uids b) u)"
proof -
  let ?obj = "obj_MarkForDestruction (be_etcpal B) obj (set_cid (be_settings B)) (my_uid b) action"
  have ev: "obj_entry ?obj = obj_entry obj" "obj_ok h ?obj" using evolves_mark assms(3) by (auto simp: evolves_def)
  then show ?thesis
    using assms(1) obj_ok_protocol [OF ev(2)]
    by (auto simp: MarkLockedClientForDestruction_def assms(2) Let_def bind_eq_Some_conv SendClientsRemoved_def RemoveUid_route
        dest!: push_broker_each_uids split: if_split_asm)
qed

text \<open>Neither pushing nor sending touches the heartbeat timer.\<close>

fun obj_heartbeat :: "ClientObj \<Rightarrow> EtcPalTimer" where
  "obj_heartbeat (PendingClient c) = bc_heartbeat_timer c"
| "obj_heartbeat (ControllerClient c) = bc_heartbeat_timer c"
| "obj_heartbeat (DeviceClient c) = bc_heartbeat_timer c"

lemma expired_heartbeat: "TcpConnExpired expired obj = expired (obj_heartbeat obj)"
  by (cases obj) simp_all

lemma heartbeat_push: "obj_heartbeat (snd (obj_Push_broker E obj cid msg)) = obj_heartbeat obj"
  by (cases obj) (simp_all add: BrokerClient_Push_def RPTController_Push_broker_def RPTDevice_Push_broker_def push_broker_def
      BrokerClient_PushPostSizeCheck_def push_packed_def)

lemma heartbeat_mark: "obj_heartbeat (obj_MarkForDestruction E obj cid uid action) = obj_heartbeat obj"
proof -
  have push: "bc_heartbeat_timer (snd (push_broker r E c cid msg)) = bc_heartbeat_timer c" for r c msg
    by (simp add: push_broker_def BrokerClient_PushPostSizeCheck_def push_packed_def)
  show ?thesis
    by (cases obj; cases action) (simp_all add: MarkForDestruction_def ApplyDestroyAction_def BrokerClient_ClearAllQueues_def
        RPTController_ClearAllQueues_def RPTDevice_ClearAllQueues_def BrokerClient_Push_def RPTController_Push_broker_def
        RPTDevice_Push_broker_def push)
qed

lemma heartbeat_send:
  assumes "obj_Send B s obj = Some (ok, obj', s')"
  shows "obj_heartbeat obj' = obj_heartbeat obj"
proof (cases obj)
  case (PendingClient c)
  then show ?thesis using assms unfolding BrokerClient_Send_def send_heartbeat_def
    by (simp add: BrokerClient_Send_def send_heartbeat_def split: if_split_asm Option.bind_split_asm prod.split_asm) (auto split: if_split_asm)
next
  case (ControllerClient c)
  then show ?thesis using assms
    by (simp add: RPTController_Send_def send_heartbeat_def Let_def split: if_split_asm Option.bind_split_asm prod.split_asm)
      (auto split: if_split_asm)
next
  case (DeviceClient c)
  then show ?thesis using assms
    by (simp add: RPTDevice_Send_def send_heartbeat_def Let_def split: if_split_asm option.split_asm Option.bind_split_asm prod.split_asm)
      (auto split: if_split_asm)
qed

definition same_clocks :: "'s broker \<Rightarrow> 's broker \<Rightarrow> bool" where
  "same_clocks b b' \<longleftrightarrow> (\<forall>p. map_option obj_heartbeat (b_objs b' p) = map_option obj_heartbeat (b_objs b p))"

lemma same_clocks_store: "b_objs b p = Some obj \<Longrightarrow> obj_heartbeat obj' = obj_heartbeat obj \<Longrightarrow> same_clocks b (store p obj' b)"
  by (simp add: same_clocks_def)

lemma push_broker_each_clocks: "push_broker_each B msg ps b = Some b' \<Longrightarrow> same_clocks b b'"
proof (induction B msg ps b rule: push_broker_each.induct)
  case (2 B msg h p ps b)
  then obtain obj where obj: "b_objs b p = Some obj" by (auto simp: bind_eq_Some_conv)
  show ?case using "2.IH" [OF obj] "2.prems" same_clocks_store [OF obj heartbeat_push] by (simp add: obj same_clocks_def)
qed (simp add: same_clocks_def)

lemma mark_locked_clocks:
  assumes "MarkLockedClientForDestruction B p action b = Some (r, b')" and "b_objs b p = Some obj"
  shows "same_clocks b b'"
proof -
  let ?obj = "obj_MarkForDestruction (be_etcpal B) obj (set_cid (be_settings B)) (my_uid b) action"
  have "same_clocks b (store p ?obj b)" by (rule same_clocks_store [OF assms(2) heartbeat_mark])
  then show ?thesis
    using assms
    by (auto simp: MarkLockedClientForDestruction_def Let_def bind_eq_Some_conv SendClientsRemoved_def same_clocks_def
        dest!: push_broker_each_clocks split: if_split_asm)
qed

text \<open>An expired client with the given UID among the clients still to be serviced.\<close>

definition expired_owner :: "(EtcPalTimer \<Rightarrow> bool) \<Rightarrow> RdmUid \<Rightarrow> (int \<times> nat option) list \<Rightarrow> 's broker \<Rightarrow> bool" where
  "expired_owner expired u cs b \<longleftrightarrow>
     (\<exists>h p obj ce. (h, Some p) \<in> set cs \<and> b_objs b p = Some obj \<and> expired (obj_heartbeat obj) \<and>
        obj_entry obj = Some ce \<and> ce_uid ce = u)"

lemma expired_owner_Cons:
  "expired_owner expired u ((h, Some p) # cs) b \<longleftrightarrow>
     (\<exists>obj ce. b_objs b p = Some obj \<and> expired (obj_heartbeat obj) \<and> obj_entry obj = Some ce \<and> ce_uid ce = u) \<or>
     expired_owner expired u cs b"
  unfolding expired_owner_def list.set by blast

lemma expired_owner_frame:
  assumes "frame b b'" and "same_clocks b b'" and "expired_owner expired u cs b"
  shows "expired_owner expired u cs b'"
proof -
  from assms(3) obtain h p obj ce where o: "(h, Some p) \<in> set cs" "b_objs b p = Some obj" "expired (obj_heartbeat obj)"
    "obj_entry obj = Some ce" "ce_uid ce = u" unfolding expired_owner_def by blast
  obtain obj' where obj': "b_objs b' p = Some obj'" "evolves obj obj'" using frame_obj [OF assms(1) o(2)] by blast
  have "obj_heartbeat obj' = obj_heartbeat obj" using assms(2) o(2) obj'(1) unfolding same_clocks_def by (metis option.inject option.map(2))
  with o obj' show ?thesis unfolding expired_owner_def evolves_def by metis
qed

lemma service_each_forgets:
  assumes "service_each B cs result b = Some (fin, r, b')" and "broker_ok b" and "set cs \<subseteq> set (b_clients b)"
    and "UidToHandle (b_uids b) u = None \<or> expired_owner (t_expired (be_timers B)) u cs b"
  shows "UidToHandle (b_uids b') u = None"
  using assms
proof (induction cs arbitrary: b result)
  case Nil
  then show ?case by (simp add: expired_owner_def)
next
  case (Cons x cs)
  let ?expired = "t_expired (be_timers B)"
  obtain h q where x: "x = (h, q)" by fastforce
  have "map_of (b_clients b) h = Some q" using Cons.prems(2,3) by (auto simp: x broker_ok_def)
  from broker_ok_client [OF Cons.prems(2) this] obtain p obj where
    q: "q = Some p" and obj: "b_objs b p = Some obj" and ok: "obj_ok h obj" .
  have rest: "UidToHandle (b_uids b') u = None"
    if run: "service_each B cs res b2 = Some (fin, r, b')" and f: "frame b b2" and clocks: "same_clocks b b2"
      and u: "UidToHandle (b_uids b2) u = None \<or> expired_owner ?expired u cs b" for res b2
  proof (rule Cons.IH [OF run frame_ok [OF f Cons.prems(2)]])
    show "set cs \<subseteq> set (b_clients b2)" using f Cons.prems(3) by (auto simp: frame_def)
    show "UidToHandle (b_uids b2) u = None \<or> expired_owner ?expired u cs b2" using u expired_owner_frame [OF f clocks] by blast
  qed
  show ?case
  proof (cases "?expired (obj_heartbeat obj)")
    case True
    obtain b2 r2 where mark: "MarkLockedClientForDestruction B p DoNothing b = Some (r2, b2)" and f: "frame b b2"
      by (rule mark_locked_ok [OF Cons.prems(2) obj ok])
    have "UidToHandle (b_uids b2) u = None \<or> expired_owner ?expired u cs b"
      using Cons.prems(4) mark_locked_route [OF mark obj ok, of u] by (auto simp: x q obj expired_owner_Cons)
    then show ?thesis using rest [OF _ f mark_locked_clocks [OF mark obj]] Cons.prems(1) True mark
      by (simp add: x q obj expired_heartbeat)
  next
    case False
    then obtain sent obj' w where send: "obj_Send B (b_world b) obj = Some (sent, obj', w)"
      and run: "service_each B cs (result \<or> sent) ((store p obj' b)\<lparr>b_world := w\<rparr>) = Some (fin, r, b')"
      using Cons.prems(1) by (auto simp: x q obj expired_heartbeat bind_eq_Some_conv)
    have "UidToHandle (b_uids b) u = None \<or> expired_owner ?expired u cs b"
      using Cons.prems(4) False by (auto simp: x q obj expired_owner_Cons)
    moreover have "frame b ((store p obj' b)\<lparr>b_world := w\<rparr>)" using frame_store [OF obj evolves_send [OF send]] by simp
    moreover have "same_clocks b ((store p obj' b)\<lparr>b_world := w\<rparr>)"
      using same_clocks_store [OF obj heartbeat_send [OF send]] by (simp add: same_clocks_def)
    ultimately show ?thesis using rest [OF run] by simp
  qed
qed

lemma mark_locked_timer: "MarkLockedClientForDestruction B p action b = Some (r, b') \<Longrightarrow> b_destroy_timer b' = b_destroy_timer b"
  by (auto simp: MarkLockedClientForDestruction_def Let_def bind_eq_Some_conv SendClientsRemoved_def
      dest!: push_broker_each_rest split: if_split_asm)

lemma service_each_timer: "service_each B cs result b = Some (fin, r, b') \<Longrightarrow> b_destroy_timer b' = b_destroy_timer b"
proof (induction B cs result b rule: service_each.induct)
  case (3 B h p cs result b)
  then obtain obj where obj: "b_objs b p = Some obj" by (auto simp: bind_eq_Some_conv)
  show ?case
  proof (cases "TcpConnExpired (t_expired (be_timers B)) obj")
    case True
    with 3 obj show ?thesis by (auto simp: bind_eq_Some_conv dest: mark_locked_timer)
  next
    case False
    with 3 obj show ?thesis by (auto simp: bind_eq_Some_conv)
  qed
qed auto

text \<open>
  C32. A client whose connection has expired is marked again each time the clients are serviced until it is destroyed, and each
  time its UID is unregistered. If its UID has been given to another client in the meantime, that client loses it: it stays
  connected, but messages to its UID no longer reach it.
\<close>

theorem expired_client_takes_uid:
  assumes "broker_ok b" and "sockets_answer B" and "\<not> t_expired (be_timers B) (b_destroy_timer b)"
    and "map_of (b_clients b) h = Some (Some p)" and "b_objs b p = Some obj" and "t_expired (be_timers B) (obj_heartbeat obj)"
    and "obj_entry obj = Some ce" and "UidToHandle (b_uids b) (ce_uid ce) = Some k"
    and "map_of (b_clients b) k = Some (Some q)" and "k \<noteq> h"
  shows "\<exists>r b'. ServiceClients B b = Some (r, b') \<and> map_of (b_clients b') k = Some (Some q) \<and> FindRptClient (ce_uid ce) b' = None"
proof -
  obtain r b' where run: "service_each B (b_clients b) False b = Some (True, r, b')" and f: "frame b b'"
    by (rule service_each_ok [OF assms(1,2) subset_refl])
  have "expired_owner (t_expired (be_timers B)) (ce_uid ce) (b_clients b) b"
    using map_of_SomeD [OF assms(4)] assms(5-7) unfolding expired_owner_def by blast
  then have "UidToHandle (b_uids b') (ce_uid ce) = None" using service_each_forgets [OF run assms(1) subset_refl] by blast
  moreover have "b_destroy_timer b' = b_destroy_timer b" by (rule service_each_timer [OF run])
  ultimately show ?thesis
    using run f assms(3,9) by (simp add: ServiceClients_def FindRptClient_def frame_def)
qed

section \<open>A small broker\<close>

text \<open>
  A broker with a controller, two devices of which one has lost its UID to the other, and a client that has not
  connected yet.
\<close>

definition sample_uid :: RdmUid where
  "sample_uid = \<lparr>manu = 0x6574, dev_id = 20\<rparr>"

definition sample_controller :: RPTController where
  "sample_controller = new_RPTController (\<lambda>i. \<lparr>timer_interval = i, timer_reset_time = 0\<rparr>) 3
     \<lparr>ce_cid = replicate 16 3, ce_uid = \<lparr>manu = 0x6574, dev_id = 10\<rparr>, ce_type = kRPTClientTypeController, ce_binding_cid = []\<rparr>
     (new_BrokerClient (\<lambda>i. \<lparr>timer_interval = i, timer_reset_time = 0\<rparr>) 1 (Some 6) 0)"

definition sample_device :: RPTDevice where
  "sample_device = busy_device\<lparr>bc_handle := 2, rc_uid := sample_uid\<rparr>"

definition stale_device :: RPTDevice where
  "stale_device = busy_device\<lparr>bc_handle := 4, rc_uid := sample_uid,
     bc_heartbeat_timer := \<lparr>timer_interval = 45000, timer_reset_time = 99\<rparr>\<rparr>"

definition small_broker :: "bytes broker" where
  "small_broker =
     (Startup sim_broker [])
     \<lparr>b_handle_generator := SetNextHandle (b_handle_generator (Startup sim_broker [])) 5,
      b_uids := \<lparr>uid_lookup = [(sample_uid, \<lparr>client_handle = 2, reservation = None\<rparr>)], reservations = [], next_device_id = 1,
        max_uid_capacity = 100\<rparr>,
      b_objs := [0 \<mapsto> ControllerClient sample_controller, 1 \<mapsto> DeviceClient sample_device,
        2 \<mapsto> PendingClient (new_BrokerClient (\<lambda>i. \<lparr>timer_interval = i, timer_reset_time = 0\<rparr>) 3 (Some 8) 0),
        3 \<mapsto> DeviceClient stale_device],
      b_next_obj := 4, b_clients := [(1, Some 0), (2, Some 1), (3, Some 2), (4, Some 3)],
      b_rpt_clients := [(1, 0), (2, 1), (4, 3)], b_controllers := [(1, 0)], b_devices := [(2, 1), (4, 3)]\<rparr>"

lemma small_broker_simps [simp]:
  "b_clients small_broker = [(1, Some 0), (2, Some 1), (3, Some 2), (4, Some 3)]"
  "b_rpt_clients small_broker = [(1, 0), (2, 1), (4, 3)]"
  "b_controllers small_broker = [(1, 0)]" "b_devices small_broker = [(2, 1), (4, 3)]" "b_next_obj small_broker = 4"
  "b_objs small_broker 0 = Some (ControllerClient sample_controller)"
  "b_objs small_broker 1 = Some (DeviceClient sample_device)"
  "b_objs small_broker (Suc 0) = Some (DeviceClient sample_device)"
  "b_objs small_broker 2 = Some (PendingClient (new_BrokerClient (\<lambda>i. \<lparr>timer_interval = i, timer_reset_time = 0\<rparr>) 3 (Some 8) 0))"
  "b_objs small_broker 3 = Some (DeviceClient stale_device)"
  "UidToHandle (b_uids small_broker) sample_uid = Some 2"
  by (simp_all add: small_broker_def UidToHandle_def)

lemma small_broker_ok: "broker_ok small_broker"
proof -
  have "q_ok (dev_rpt_msgs busy_device)" by (rule busy_device_ok)
  then have dev: "obj_ok 2 (DeviceClient sample_device)" "obj_ok 4 (DeviceClient stale_device)"
    by (simp_all add: sample_device_def stale_device_def) (simp_all add: busy_device_def)
  have ctl: "obj_ok 1 (ControllerClient sample_controller)" by (simp add: sample_controller_def new_RPTController_def new_BrokerClient_def)
  show ?thesis
    unfolding broker_ok_def holds_kind_def
    using dev ctl by (auto simp: new_BrokerClient_def handles_ok_def split: if_split_asm) (auto simp: small_broker_def SetNextHandle_def)
qed

definition sample_request :: RdmnetMessage where
  "sample_request = blank_message\<lparr>msg_vector := ACN_VECTOR_ROOT_RPT etcpal_be, sender_cid := replicate 16 3,
     msg_rpt := (msg_rpt blank_message)\<lparr>rm_vector := VECTOR_RPT_REQUEST, rm_header := blank_rpt_header\<lparr>dest_uid := sample_uid\<rparr>,
       rm_rdm := \<lparr>entries = [[0]], more_coming = False\<rparr>\<rparr>\<rparr>"

lemma sim_broker_simps [simp]: "be_etcpal sim_broker = etcpal_be" "be_macros sim_broker = e133_macros"
  by (simp_all add: sim_broker_def)

theorem request_reaches_device_witness:
  "HandleSocketMessageReceived sim_broker 1 sample_request small_broker =
    (let (res, d') = RPTDevice_Push_rpt etcpal_be sample_device 1 (replicate 16 3) (msg_rpt sample_request) in
     Some (if res = PushQueueFull then kRetryLater else kGetNextMessage,
           small_broker\<lparr>b_objs := (b_objs small_broker)(0 \<mapsto> ControllerClient sample_controller, 1 \<mapsto> DeviceClient d')\<rparr>))"
proof -
  have "HandleSocketMessageReceived sim_broker 1 sample_request small_broker =
    (let (res, d') = RPTDevice_Push_rpt (be_etcpal sim_broker) sample_device 1 (sender_cid sample_request) (msg_rpt sample_request);
         c' = sample_controller\<lparr>bc_heartbeat_timer := t_reset (be_timers sim_broker) (t_reset (be_timers sim_broker) (bc_heartbeat_timer sample_controller))\<rparr> in
     Some (if res = PushQueueFull then kRetryLater else kGetNextMessage,
           small_broker\<lparr>b_objs := (b_objs small_broker)(0 \<mapsto> ControllerClient c', 1 \<mapsto> DeviceClient d')\<rparr>))"
    by (rule request_reaches_device [OF small_broker_ok, where k = 2])
      (simp_all add: sample_request_def e133_macros_def sample_uid_def [symmetric], simp_all add: sample_uid_def)
  then show ?thesis by (simp add: sample_request_def sim_broker_def)
qed

definition late_client :: RdmnetRptClientEntry where
  "late_client = \<lparr>ce_cid = replicate 16 2, ce_uid = \<lparr>manu = 0x6574, dev_id = 30\<rparr>, ce_type = kRPTClientTypeController, ce_binding_cid = []\<rparr>"

definition late_connect :: BrokerClientConnectMsg where
  "late_connect = \<lparr>cc_scope = [0, 0], cc_e133_version = E133_VERSION, cc_search_domain = [], cc_connect_flags = 0,
     cc_client_entry = \<lparr>ce_client_protocol = kClientProtocolRPT,
       ce_data = (ce_data blank_client_entry)\<lparr>entry_rpt := late_client\<rparr>\<rparr>\<rparr>"

lemma late_connect_ok: "asks_for sim_broker late_connect late_client" "acceptable sim_broker late_client small_broker"
  by (simp_all add: asks_for_def acceptable_def late_connect_def late_client_def sim_broker_def e133_macros_def Let_def)
    (simp_all add: small_broker_def has_key_def sample_uid_def)

theorem connected_client_reachable_witness:
  "\<exists>b' p obj. ProcessConnectRequest sim_broker 3 late_connect small_broker = Some b' \<and> broker_ok b' \<and>
    FindRptClient (ce_uid late_client) b' = Some p \<and> b_objs b' p = Some obj \<and> obj_handle obj = 3 \<and> obj_entry obj = Some late_client \<and>
    pending (obj_broker_msgs obj) = pack_broker_message (be_etcpal sim_broker) (set_cid (be_settings sim_broker))
      (connect_reply_message (my_uid small_broker) (ce_uid late_client))"
  by (rule connected_client_reachable [OF small_broker_ok _ late_connect_ok]) (simp add: is_pending_def)

lemma pending_fetch_miscasts_example:
  "HandleSocketMessageReceived sim_broker 3 (blank_message\<lparr>msg_vector := ACN_VECTOR_ROOT_BROKER etcpal_be,
     msg_broker := blank_broker_message\<lparr>bm_vector := VECTOR_BROKER_FETCH_CLIENT_LIST\<rparr>\<rparr>) small_broker = None"
  by (rule pending_fetch_miscasts [OF small_broker_ok]) (simp_all add: is_pending_def is_fetch_def)

theorem second_connect_dangles_witness:
  "\<exists>b'. ProcessConnectRequest sim_broker 1 late_connect small_broker = Some b' \<and> (1, 0) \<in> set (b_controllers b') \<and>
    b_objs b' 0 = None \<and> HandleSocketClosed sim_broker 1 b' = None"
  by (rule second_connect_dangles [OF small_broker_ok _ _ late_connect_ok]) (simp_all add: late_client_def)

definition late_timers :: broker_timers where
  "late_timers = (be_timers sim_broker)\<lparr>t_expired := (\<lambda>t. timer_reset_time t = 99)\<rparr>"

theorem expired_client_takes_uid_witness:
  "\<exists>r b'. ServiceClients (sim_broker\<lparr>be_timers := late_timers\<rparr>) small_broker = Some (r, b') \<and>
    map_of (b_clients b') 2 = Some (Some 1) \<and> FindRptClient (ce_uid (rpt_entry stale_device)) b' = None"
proof (rule expired_client_takes_uid [OF small_broker_ok, where h = 4 and p = 3 and k = 2 and obj = "DeviceClient stale_device"])
  show "sockets_answer (sim_broker\<lparr>be_timers := late_timers\<rparr>)" using sim_broker_ok(1) by (simp add: sockets_answer_def)
  show "\<not> t_expired (be_timers (sim_broker\<lparr>be_timers := late_timers\<rparr>)) (b_destroy_timer small_broker)"
    by (simp add: late_timers_def small_broker_def Startup_def sim_broker_def Let_def)
  show "UidToHandle (b_uids small_broker) (ce_uid (rpt_entry stale_device)) = Some 2" by (simp add: rpt_entry_def stale_device_def)
qed (simp_all add: late_timers_def stale_device_def)

definition idle_device :: RPTDevice where
  "idle_device = sample_device\<lparr>max_q_size := 1, dev_rpt_msgs := \<lparr>total_msg_count = 0, rpt_msgs = [], current_controller = kInvalidHandle\<rparr>\<rparr>"

definition sample_status :: RptMessage where
  "sample_status = (msg_rpt blank_message)\<lparr>rm_vector := VECTOR_RPT_STATUS,
     rm_status := \<lparr>status_code = VECTOR_RPT_STATUS_RDM_TIMEOUT, status_string = None\<rparr>\<rparr>"

lemma sample_status_packs:
  "rc_rpt_pack_status etcpal_be (rc_rpt_get_status_buffer_size etcpal_be (rm_status sample_status)) (replicate 16 4)
     (rm_header sample_status) (rm_status sample_status) \<noteq> []"
  using rpt_packed(2) [of etcpal_be "replicate 16 4" "replicate 5 0" VECTOR_RPT_STATUS "rm_header sample_status"]
  by (simp add: rc_rpt_pack_status_def Let_def sample_status_def calc_status_pdu_size_def)

lemma idle_device_run:
  "\<exists>c'. dev_run etcpal_be stream_send (\<lambda>_. False) id [] (replicate (max_q_size idle_device) (DevPushRpt 7 (replicate 16 4) sample_status) @
     [DevSend]) idle_device [] = Some ([], c', [])"
  by (simp add: idle_device_def sample_device_def busy_device_def RPTDevice_Push_rpt_def RPTDevice_HasRoomToPush_def RptMsgQ_size_def
      RPTClient_PushPostSizeCheck_def push_packed_def RPTDevice_Send_def RptMsgQ_empty_def send_heartbeat_def served_def)
    (simp add: sample_status_def)

theorem statuses_block_device_witness:
  "\<exists>c'. dev_run etcpal_be stream_send (\<lambda>_. False) id [] (replicate (max_q_size idle_device) (DevPushRpt 7 (replicate 16 4) sample_status) @
     [DevSend]) idle_device [] = Some ([], c', []) \<and>
   RPTDevice_Push_rpt etcpal_be c' 1 (replicate 16 3) (msg_rpt sample_request) = (PushQueueFull, c')"
proof -
  obtain c' where run: "dev_run etcpal_be stream_send (\<lambda>_. False) id [] (replicate (max_q_size idle_device)
      (DevPushRpt 7 (replicate 16 4) sample_status) @ [DevSend]) idle_device [] = Some ([], c', [])" using idle_device_run by blast
  have "RPTDevice_Push_rpt etcpal_be c' 1 (replicate 16 3) (msg_rpt sample_request) = (PushQueueFull, c')"
    by (rule statuses_block_device [OF run _ sample_status_packs])
      (simp_all add: sample_status_def idle_device_def sample_device_def busy_device_def dev_msgs_def q_ok_def)
  with run show ?thesis by blast
qed

end
