(* ===== verification/Llrp_Prot.thy ===== *)
theory Llrp_Prot
  imports Roundtrip
begin

text \<open>
  The LLRP protocol, \<^verbatim>\<open>src/rdmnet/core/llrp_prot.c\<close> and \<^verbatim>\<open>llrp_prot.h\<close>: parsing and packing of probe requests,
  probe replies and RDM commands in UDP datagrams.

  The parts of EtcPal and of the RDM library that only LLRP uses are a second parameter \<open>L\<close>, with \<open>llrp_ok\<close> for what is
  documented of them. A datagram and its length are a list. What parsing leaves in the message when it fails is not read
  by any caller, so the result is then \<^const>\<open>None\<close>; the union in the message is a datatype. The buffers that the callers
  pass are large enough for every message, so that packing gives the bytes of the datagram.
\<close>

section \<open>The libraries\<close>

record llrp_lib =
  ll_etcpal :: etcpal
  acn_parse_udp_preamble :: "bytes \<Rightarrow> bytes option"
  acn_pack_udp_preamble :: bytes
  acn_parse_root_layer_pdu :: "bytes \<Rightarrow> (AcnRootLayerPdu \<times> bytes) option"
  ACN_UDP_PREAMBLE_SIZE :: nat
  ACN_VECTOR_ROOT_LLRP :: u32
  kLlrpBroadcastCid :: EtcPalUuid
  rdm_uid_compare :: "RdmUid \<Rightarrow> RdmUid \<Rightarrow> int"
  RDM_UID_IS_BROADCAST :: "RdmUid \<Rightarrow> bool"
  kRdmBroadcastUid :: RdmUid

text \<open>A UID as the 48-bit number that it is in the RDM standard; UIDs are compared as such.\<close>

definition uid_val :: "RdmUid \<Rightarrow> nat" where
  "uid_val u = unat (manu u) * 2 ^ 32 + unat (dev_id u)"

definition llrp_ok :: "llrp_lib \<Rightarrow> bool" where
  "llrp_ok L \<longleftrightarrow>
     etcpal_ok (ll_etcpal L) \<and>
     (\<forall>r. acn_parse_udp_preamble L (acn_pack_udp_preamble L @ r) = Some r) \<and>
     length (acn_pack_udp_preamble L) = 16 \<and>
     (\<forall>p d. length (rlp_sender_cid p) = 16 \<and> rlp_data_len p = length d \<and> length d + 23 < 2 ^ 20 \<longrightarrow>
        acn_parse_root_layer_pdu L (acn_pack_root_layer_header (ll_etcpal L) p @ d) = Some (p, d)) \<and>
     ACN_UDP_PREAMBLE_SIZE L = 16 \<and> ACN_VECTOR_ROOT_LLRP L = 0xA \<and> length (kLlrpBroadcastCid L) = 16 \<and>
     (\<forall>u v. (rdm_uid_compare L u v \<le> 0 \<longleftrightarrow> uid_val u \<le> uid_val v) \<and> (rdm_uid_compare L u v \<ge> 0 \<longleftrightarrow> uid_val u \<ge> uid_val v)) \<and>
     kRdmBroadcastUid L = \<lparr>manu = 0xffff, dev_id = 0xffffffff\<rparr> \<and> RDM_UID_IS_BROADCAST L (kRdmBroadcastUid L) \<and>
     (\<forall>u. RDM_UID_IS_BROADCAST L u \<longrightarrow> dev_id u = 0xffffffff)"

section \<open>Constants and messages\<close>

abbreviation (input) VECTOR_LLRP_PROBE_REQUEST :: u32 where "VECTOR_LLRP_PROBE_REQUEST \<equiv> 1"
abbreviation (input) VECTOR_LLRP_PROBE_REPLY :: u32 where "VECTOR_LLRP_PROBE_REPLY \<equiv> 2"
abbreviation (input) VECTOR_LLRP_RDM_CMD :: u32 where "VECTOR_LLRP_RDM_CMD \<equiv> 3"
abbreviation (input) VECTOR_PROBE_REQUEST_DATA :: u8 where "VECTOR_PROBE_REQUEST_DATA \<equiv> 1"
abbreviation (input) VECTOR_PROBE_REPLY_DATA :: u8 where "VECTOR_PROBE_REPLY_DATA \<equiv> 1"
abbreviation (input) LLRP_KNOWN_UID_SIZE :: nat where "LLRP_KNOWN_UID_SIZE \<equiv> 200"
abbreviation (input) LLRP_HEADER_SIZE :: nat where "LLRP_HEADER_SIZE \<equiv> 27"
abbreviation (input) PROBE_REQUEST_PDU_MIN_SIZE :: nat where "PROBE_REQUEST_PDU_MIN_SIZE \<equiv> 18"
abbreviation (input) PROBE_REPLY_PDU_SIZE :: nat where "PROBE_REPLY_PDU_SIZE \<equiv> 17"
abbreviation (input) LLRP_MIN_PDU_SIZE :: nat where "LLRP_MIN_PDU_SIZE \<equiv> LLRP_HEADER_SIZE + PROBE_REPLY_PDU_SIZE"

definition LLRP_MIN_TOTAL_MESSAGE_SIZE :: "llrp_lib \<Rightarrow> nat" where
  "LLRP_MIN_TOTAL_MESSAGE_SIZE L =
     ACN_UDP_PREAMBLE_SIZE L + ACN_RLP_HEADER_SIZE_EXT_LEN (ll_etcpal L) + LLRP_MIN_PDU_SIZE"

definition LLRP_RDM_CMD_PDU_MIN_SIZE :: "llrp_lib \<Rightarrow> nat" where
  "LLRP_RDM_CMD_PDU_MIN_SIZE L = 3 + RDM_MIN_BYTES (ll_etcpal L)"

definition LLRP_RDM_CMD_PDU_MAX_SIZE :: "llrp_lib \<Rightarrow> nat" where
  "LLRP_RDM_CMD_PDU_MAX_SIZE L = 3 + RDM_MAX_BYTES (ll_etcpal L)"

record LlrpHeader =
  lh_sender_cid :: EtcPalUuid
  lh_dest_cid :: EtcPalUuid
  lh_transaction_number :: u32

record LlrpMessageInterest =
  interested_in_probe_request :: bool
  interested_in_probe_reply :: bool
  my_cid :: EtcPalUuid
  li_my_uid :: RdmUid

record RemoteProbeRequest =
  contains_my_uid :: bool
  rp_filter :: u16

record LocalProbeRequest =
  lower_uid :: RdmUid
  upper_uid :: RdmUid
  lp_filter :: u16
  lp_known_uids :: "RdmUid list"

record LlrpDiscoveredTarget =
  dt_cid :: EtcPalUuid
  dt_uid :: RdmUid
  hardware_address :: bytes
  dt_component_type :: u8

datatype LlrpMessageData = ProbeRequest RemoteProbeRequest | ProbeReply LlrpDiscoveredTarget | LlrpRdm RdmBuffer

record LlrpMessage =
  lm_vector :: u32
  lm_header :: LlrpHeader
  lm_data :: LlrpMessageData

section \<open>Parsing\<close>

definition rc_get_llrp_destination_cid :: "llrp_lib \<Rightarrow> bytes \<Rightarrow> EtcPalUuid option" where
  "rc_get_llrp_destination_cid L buf =
     (let E = ll_etcpal L in
      if length buf < LLRP_MIN_TOTAL_MESSAGE_SIZE L then None
      else do {
        rlp_block \<leftarrow> acn_parse_udp_preamble L buf;
        (rlp, pdata) \<leftarrow> acn_parse_root_layer_pdu L rlp_block;
        let llrp_pdu_len = ACN_PDU_LENGTH E pdata;
        if llrp_pdu_len > rlp_data_len rlp \<or> llrp_pdu_len < LLRP_MIN_PDU_SIZE then None
        else Some (take (ETCPAL_UUID_BYTES E) (drop 7 pdata))
      })"

text \<open>Whether the UID is in the list of known UIDs, which ends at the end of the PDU.\<close>

fun known_uid :: "etcpal \<Rightarrow> RdmUid \<Rightarrow> bytes \<Rightarrow> bool" where
  "known_uid E u d =
     (if length d < 6 then False
      else if unpack_uid E d = u then True
      else known_uid E u (drop 6 d))"

declare known_uid.simps [simp del]

definition parse_llrp_probe_request :: "llrp_lib \<Rightarrow> bytes \<Rightarrow> nat \<Rightarrow> LlrpMessageInterest \<Rightarrow> RemoteProbeRequest option" where
  "parse_llrp_probe_request L buf buflen interest =
     (let E = ll_etcpal L; pdu_len = ACN_PDU_LENGTH E buf in
      if buflen < PROBE_REQUEST_PDU_MIN_SIZE then None
      else if pdu_len > buflen \<or> pdu_len < PROBE_REQUEST_PDU_MIN_SIZE then None
      else if hd (drop 3 buf) \<noteq> VECTOR_PROBE_REQUEST_DATA then None
      else
        (let lower_uid_bound = unpack_uid E (drop 4 buf); upper_uid_bound = unpack_uid E (drop 10 buf);
             in_range = rdm_uid_compare L (li_my_uid interest) lower_uid_bound \<ge> 0 \<and>
               rdm_uid_compare L (li_my_uid interest) upper_uid_bound \<le> 0 in
         Some \<lparr>contains_my_uid = in_range \<and> \<not> known_uid E (li_my_uid interest) (drop 18 (take pdu_len buf)),
               rp_filter = unpack_u16b E (drop 16 buf)\<rparr>))"

definition parse_llrp_probe_reply :: "llrp_lib \<Rightarrow> bytes \<Rightarrow> nat \<Rightarrow> EtcPalUuid \<Rightarrow> LlrpDiscoveredTarget option" where
  "parse_llrp_probe_reply L buf buflen cid =
     (let E = ll_etcpal L in
      if buflen < PROBE_REPLY_PDU_SIZE then None
      else if ACN_PDU_LENGTH E buf \<noteq> PROBE_REPLY_PDU_SIZE then None
      else if hd (drop 3 buf) \<noteq> VECTOR_PROBE_REPLY_DATA then None
      else Some \<lparr>dt_cid = cid, dt_uid = unpack_uid E (drop 4 buf), hardware_address = take 6 (drop 10 buf),
                 dt_component_type = hd (drop 16 buf)\<rparr>)"

definition parse_llrp_rdm_command :: "llrp_lib \<Rightarrow> bytes \<Rightarrow> nat \<Rightarrow> RdmBuffer option" where
  "parse_llrp_rdm_command L buf buflen =
     (let pdu_len = ACN_PDU_LENGTH (ll_etcpal L) buf in
      if buflen < LLRP_RDM_CMD_PDU_MIN_SIZE L then None
      else if pdu_len > buflen \<or> pdu_len > LLRP_RDM_CMD_PDU_MAX_SIZE L \<or> pdu_len < LLRP_RDM_CMD_PDU_MIN_SIZE L then None
      else if hd (drop 3 buf) \<noteq> VECTOR_RDM_CMD_RDM_DATA then None
      else Some (take (pdu_len - 3) (drop 3 buf)))"

definition parse_llrp_pdu :: "llrp_lib \<Rightarrow> bytes \<Rightarrow> nat \<Rightarrow> LlrpMessageInterest \<Rightarrow> EtcPalUuid \<Rightarrow> LlrpMessage option" where
  "parse_llrp_pdu L buf buflen interest sender =
     (let E = ll_etcpal L; llrp_pdu_len = ACN_PDU_LENGTH E buf; vector = unpack_u32b E (drop 3 buf);
          cid = take (ETCPAL_UUID_BYTES E) (drop 7 buf);
          header = \<lparr>lh_sender_cid = sender, lh_dest_cid = cid, lh_transaction_number = unpack_u32b E (drop (7 + ETCPAL_UUID_BYTES E) buf)\<rparr>;
          body = drop (11 + ETCPAL_UUID_BYTES E) buf; body_len = llrp_pdu_len - LLRP_HEADER_SIZE;
          msg = (\<lambda>data. \<lparr>lm_vector = vector, lm_header = header, lm_data = data\<rparr>) in
      if buflen < LLRP_MIN_PDU_SIZE then None
      else if llrp_pdu_len > buflen \<or> llrp_pdu_len < LLRP_MIN_PDU_SIZE then None
      else if cid = kLlrpBroadcastCid L \<or> cid = my_cid interest then
        (if vector = VECTOR_LLRP_PROBE_REQUEST then
           (if interested_in_probe_request interest
            then map_option (msg \<circ> ProbeRequest) (parse_llrp_probe_request L body body_len interest) else None)
         else if vector = VECTOR_LLRP_PROBE_REPLY then
           (if interested_in_probe_reply interest
            then map_option (msg \<circ> ProbeReply) (parse_llrp_probe_reply L body body_len sender) else None)
         else if vector = VECTOR_LLRP_RDM_CMD then map_option (msg \<circ> LlrpRdm) (parse_llrp_rdm_command L body body_len)
         else None)
      else None)"

definition rc_parse_llrp_message :: "llrp_lib \<Rightarrow> bytes \<Rightarrow> LlrpMessageInterest \<Rightarrow> LlrpMessage option" where
  "rc_parse_llrp_message L buf interest =
     (if length buf < LLRP_MIN_TOTAL_MESSAGE_SIZE L then None
      else do {
        rlp_block \<leftarrow> acn_parse_udp_preamble L buf;
        (rlp, pdata) \<leftarrow> acn_parse_root_layer_pdu L rlp_block;
        parse_llrp_pdu L pdata (rlp_data_len rlp) interest (rlp_sender_cid rlp)
      })"

section \<open>Packing and sending\<close>

definition pack_llrp_header :: "llrp_lib \<Rightarrow> nat \<Rightarrow> u32 \<Rightarrow> LlrpHeader \<Rightarrow> bytes" where
  "pack_llrp_header L pdu_len vector header =
     (let E = ll_etcpal L in
      pack_pdu_length E pdu_len @ pack_u32b E vector @ lh_dest_cid header @ pack_u32b E (lh_transaction_number header))"

text \<open>What the three kinds of datagrams share: preamble, root layer header and LLRP header.\<close>

definition llrp_datagram :: "llrp_lib \<Rightarrow> u32 \<Rightarrow> LlrpHeader \<Rightarrow> bytes \<Rightarrow> bytes" where
  "llrp_datagram L vector header body =
     (let data_len = LLRP_HEADER_SIZE + length body in
      acn_pack_udp_preamble L @
      acn_pack_root_layer_header (ll_etcpal L) (rlp_pdu (lh_sender_cid header) (ACN_VECTOR_ROOT_LLRP L) data_len) @
      pack_llrp_header L data_len vector header @ body)"

definition probe_request_pdu :: "llrp_lib \<Rightarrow> LocalProbeRequest \<Rightarrow> bytes" where
  "probe_request_pdu L req =
     (let E = ll_etcpal L in
      pack_pdu_length E (PROBE_REQUEST_PDU_MIN_SIZE + length (lp_known_uids req) * 6) @ [VECTOR_PROBE_REQUEST_DATA] @
      pack_uid E (lower_uid req) @ pack_uid E (upper_uid req) @ pack_u16b E (lp_filter req) @
      concat (map (pack_uid E) (lp_known_uids req)))"

definition probe_reply_pdu :: "llrp_lib \<Rightarrow> LlrpDiscoveredTarget \<Rightarrow> bytes" where
  "probe_reply_pdu L target_info =
     (let E = ll_etcpal L in
      pack_pdu_length E PROBE_REPLY_PDU_SIZE @ [VECTOR_PROBE_REPLY_DATA] @ pack_uid E (dt_uid target_info) @
      hardware_address target_info @ [dt_component_type target_info])"

definition rdm_command_pdu :: "llrp_lib \<Rightarrow> RdmBuffer \<Rightarrow> bytes" where
  "rdm_command_pdu L rdm_msg = pack_pdu_length (ll_etcpal L) (3 + length rdm_msg) @ rdm_msg"

text \<open>
  \<open>fails\<close> is the error that \<^verbatim>\<open>etcpal_sendto\<close> has for a datagram, if any; the second component of the result is
  what has been sent.
\<close>

datatype llrp_addr = kLlrpIpv4RequestAddr | kLlrpIpv6RequestAddr | kLlrpIpv4RespAddr | kLlrpIpv6RespAddr

type_synonym datagram = "llrp_addr \<times> bytes"

definition sendto :: "(datagram \<Rightarrow> etcpal_error_t option) \<Rightarrow> datagram \<Rightarrow> etcpal_error_t \<times> datagram list" where
  "sendto fails dg = (case fails dg of None \<Rightarrow> (kEtcPalErrOk, [dg]) | Some e \<Rightarrow> (e, []))"

definition rc_send_llrp_probe_request ::
  "llrp_lib \<Rightarrow> (datagram \<Rightarrow> etcpal_error_t option) \<Rightarrow> bool \<Rightarrow> LlrpHeader \<Rightarrow> LocalProbeRequest \<Rightarrow> etcpal_error_t \<times> datagram list" where
  "rc_send_llrp_probe_request L fails ipv6 header req =
     (if length (lp_known_uids req) > LLRP_KNOWN_UID_SIZE then (kEtcPalErrInvalid, [])
      else sendto fails (if ipv6 then kLlrpIpv6RequestAddr else kLlrpIpv4RequestAddr,
             llrp_datagram L VECTOR_LLRP_PROBE_REQUEST header (probe_request_pdu L req)))"

definition rc_send_llrp_probe_reply ::
  "llrp_lib \<Rightarrow> (datagram \<Rightarrow> etcpal_error_t option) \<Rightarrow> bool \<Rightarrow> LlrpHeader \<Rightarrow> LlrpDiscoveredTarget \<Rightarrow> etcpal_error_t \<times> datagram list" where
  "rc_send_llrp_probe_reply L fails ipv6 header target_info =
     sendto fails (if ipv6 then kLlrpIpv6RespAddr else kLlrpIpv4RespAddr,
       llrp_datagram L VECTOR_LLRP_PROBE_REPLY header (probe_reply_pdu L target_info))"

definition send_llrp_rdm ::
  "llrp_lib \<Rightarrow> (datagram \<Rightarrow> etcpal_error_t option) \<Rightarrow> llrp_addr \<Rightarrow> LlrpHeader \<Rightarrow> RdmBuffer \<Rightarrow> etcpal_error_t \<times> datagram list" where
  "send_llrp_rdm L fails dest_addr header rdm_msg =
     sendto fails (dest_addr, llrp_datagram L VECTOR_LLRP_RDM_CMD header (rdm_command_pdu L rdm_msg))"

definition rc_send_llrp_rdm_command ::
  "llrp_lib \<Rightarrow> (datagram \<Rightarrow> etcpal_error_t option) \<Rightarrow> bool \<Rightarrow> LlrpHeader \<Rightarrow> RdmBuffer \<Rightarrow> etcpal_error_t \<times> datagram list" where
  "rc_send_llrp_rdm_command L fails ipv6 header cmd =
     send_llrp_rdm L fails (if ipv6 then kLlrpIpv6RequestAddr else kLlrpIpv4RequestAddr) header cmd"

definition rc_send_llrp_rdm_response ::
  "llrp_lib \<Rightarrow> (datagram \<Rightarrow> etcpal_error_t option) \<Rightarrow> bool \<Rightarrow> LlrpHeader \<Rightarrow> RdmBuffer \<Rightarrow> etcpal_error_t \<times> datagram list" where
  "rc_send_llrp_rdm_response L fails ipv6 header resp =
     send_llrp_rdm L fails (if ipv6 then kLlrpIpv6RespAddr else kLlrpIpv4RespAddr) header resp"


section \<open>What is parsed is what was packed\<close>

named_theorems llrp_simps \<open>what llrp_ok gives, as rewrite rules\<close>

lemma llrp_ok_etcpal [simp]: "llrp_ok L \<Longrightarrow> etcpal_ok (ll_etcpal L)"
  by (simp add: llrp_ok_def)

lemma llrp_ok_fields [llrp_simps]:
  assumes "llrp_ok L"
  shows "acn_parse_udp_preamble L (acn_pack_udp_preamble L @ r) = Some r" "length (acn_pack_udp_preamble L) = 16"
    "ACN_UDP_PREAMBLE_SIZE L = 16" "ACN_VECTOR_ROOT_LLRP L = 0xA" "length (kLlrpBroadcastCid L) = 16"
    "rdm_uid_compare L u v \<le> 0 \<longleftrightarrow> uid_val u \<le> uid_val v" "rdm_uid_compare L u v \<ge> 0 \<longleftrightarrow> uid_val v \<le> uid_val u"
    "kRdmBroadcastUid L = \<lparr>manu = 0xffff, dev_id = 0xffffffff\<rparr>" "RDM_UID_IS_BROADCAST L \<lparr>manu = 0xffff, dev_id = 0xffffffff\<rparr>"
  using assms by (simp_all add: llrp_ok_def) metis

lemma llrp_ok_root [llrp_simps]:
  "llrp_ok L \<Longrightarrow> length (rlp_sender_cid p) = 16 \<Longrightarrow> rlp_data_len p = length d \<Longrightarrow> length d + 23 < 2 ^ 20 \<Longrightarrow>
   acn_parse_root_layer_pdu L (acn_pack_root_layer_header (ll_etcpal L) p @ d) = Some (p, d)"
  by (simp add: llrp_ok_def)

lemma llrp_not_broadcast: "llrp_ok L \<Longrightarrow> dev_id u \<noteq> 0xffffffff \<Longrightarrow> \<not> RDM_UID_IS_BROADCAST L u"
  by (auto simp: llrp_ok_def)

lemma length_pack_llrp_header [simp]:
  "llrp_ok L \<Longrightarrow> length (lh_dest_cid h) = 16 \<Longrightarrow> length (pack_llrp_header L n v h) = 27"
  by (simp add: pack_llrp_header_def Let_def etcpal_simps)

definition valid_header :: "LlrpHeader \<Rightarrow> bool" where
  "valid_header h \<longleftrightarrow> length (lh_sender_cid h) = 16 \<and> length (lh_dest_cid h) = 16"

lemma llrp_min_total: "llrp_ok L \<Longrightarrow> LLRP_MIN_TOTAL_MESSAGE_SIZE L = 83"
  by (simp add: LLRP_MIN_TOTAL_MESSAGE_SIZE_def llrp_simps etcpal_simps)

lemma llrp_datagram_layers:
  assumes "llrp_ok L" "valid_header h" "length body < 2 ^ 19"
  shows "acn_parse_udp_preamble L (llrp_datagram L v h body) \<bind> acn_parse_root_layer_pdu L =
      Some (rlp_pdu (lh_sender_cid h) 0xA (27 + length body), pack_llrp_header L (27 + length body) v h @ body)"
    and "length (llrp_datagram L v h body) = 66 + length body"
  using assms by (simp_all add: llrp_datagram_def Let_def llrp_simps etcpal_simps valid_header_def rlp_pdu_def)

lemma packed_header_fields:
  assumes "llrp_ok L" "valid_header h" "n < 2 ^ 20"
  shows "ACN_PDU_LENGTH (ll_etcpal L) (pack_llrp_header L n v h @ body) = n"
    "unpack_u32b (ll_etcpal L) (drop 3 (pack_llrp_header L n v h @ body)) = v"
    "take 16 (drop 7 (pack_llrp_header L n v h @ body)) = lh_dest_cid h"
    "unpack_u32b (ll_etcpal L) (drop 23 (pack_llrp_header L n v h @ body)) = lh_transaction_number h"
    "drop 27 (pack_llrp_header L n v h @ body) = body"
  using assms by (simp_all add: pack_llrp_header_def Let_def pack_pdu_length_def etcpal_simps valid_header_def)

lemma llrp_datagram_parts:
  assumes "llrp_ok L" "valid_header h" "length body < 2 ^ 19"
  obtains blk pd where "acn_parse_udp_preamble L (llrp_datagram L v h body) = Some blk"
    "acn_parse_root_layer_pdu L blk = Some (rlp_pdu (lh_sender_cid h) 0xA (27 + length body), pd)"
    "ACN_PDU_LENGTH (ll_etcpal L) pd = 27 + length body" "unpack_u32b (ll_etcpal L) (drop 3 pd) = v"
    "take 16 (drop 7 pd) = lh_dest_cid h" "unpack_u32b (ll_etcpal L) (drop 23 pd) = lh_transaction_number h" "drop 27 pd = body"
proof -
  have "27 + length body < 2 ^ 20" using assms(3) by simp
  note packed_header_fields [OF assms(1,2) this, of v body]
  with llrp_datagram_layers(1) [OF assms, of v] that show thesis by (auto simp: bind_eq_Some_conv)
qed

lemma destination_cid_packed:
  assumes "llrp_ok L" "valid_header h" "17 \<le> length body" "length body < 2 ^ 19"
  shows "rc_get_llrp_destination_cid L (llrp_datagram L v h body) = Some (lh_dest_cid h)"
  using llrp_datagram_layers(2) [OF assms(1,2,4)] assms
  by (rule_tac llrp_datagram_parts [OF assms(1,2,4), of v])
    (simp add: rc_get_llrp_destination_cid_def Let_def llrp_min_total rlp_pdu_def etcpal_simps)

lemma message_packed:
  assumes "llrp_ok L" "valid_header h" "17 \<le> length body" "length body < 2 ^ 19"
  shows "rc_parse_llrp_message L (llrp_datagram L v h body) interest =
    (let msg = \<lambda>data. \<lparr>lm_vector = v, lm_header = h, lm_data = data\<rparr> in
     if lh_dest_cid h = kLlrpBroadcastCid L \<or> lh_dest_cid h = my_cid interest then
       (if v = VECTOR_LLRP_PROBE_REQUEST then
          (if interested_in_probe_request interest
           then map_option (msg \<circ> ProbeRequest) (parse_llrp_probe_request L body (length body) interest) else None)
        else if v = VECTOR_LLRP_PROBE_REPLY then
          (if interested_in_probe_reply interest
           then map_option (msg \<circ> ProbeReply) (parse_llrp_probe_reply L body (length body) (lh_sender_cid h)) else None)
        else if v = VECTOR_LLRP_RDM_CMD then map_option (msg \<circ> LlrpRdm) (parse_llrp_rdm_command L body (length body))
        else None)
     else None)"
  using llrp_datagram_layers(2) [OF assms(1,2,4)] assms
  by (rule_tac llrp_datagram_parts [OF assms(1,2,4), of v], cases h)
    (simp add: rc_parse_llrp_message_def parse_llrp_pdu_def Let_def llrp_min_total rlp_pdu_def etcpal_simps)

lemma known_uid_packed:
  "etcpal_ok E \<Longrightarrow> known_uid E u (concat (map (pack_uid E) us)) \<longleftrightarrow> u \<in> set us"
  by (induction us) (auto simp: known_uid.simps)

lemma length_known_uids: "etcpal_ok E \<Longrightarrow> length (concat (map (pack_uid E) us)) = 6 * length us"
  by (induction us) simp_all

lemma length_probe_request_pdu:
  "llrp_ok L \<Longrightarrow> length (probe_request_pdu L req) = 18 + 6 * length (lp_known_uids req)"
  by (simp add: probe_request_pdu_def Let_def etcpal_simps length_known_uids)

lemma parse_packed_probe_request:
  assumes "llrp_ok L" and "length (lp_known_uids req) \<le> LLRP_KNOWN_UID_SIZE"
  shows "parse_llrp_probe_request L (probe_request_pdu L req) (length (probe_request_pdu L req)) interest =
    Some \<lparr>contains_my_uid = uid_val (lower_uid req) \<le> uid_val (li_my_uid interest) \<and>
            uid_val (li_my_uid interest) \<le> uid_val (upper_uid req) \<and> li_my_uid interest \<notin> set (lp_known_uids req),
          rp_filter = lp_filter req\<rparr>"
proof -
  have E: "etcpal_ok (ll_etcpal L)" using assms(1) by simp
  note len = length_probe_request_pdu [OF assms(1), of req]
  have "ACN_PDU_LENGTH (ll_etcpal L) (probe_request_pdu L req) = 18 + 6 * length (lp_known_uids req)"
    using assms(2) by (simp add: probe_request_pdu_def Let_def pack_pdu_length_def etcpal_simps E mult.commute)
  moreover have "drop 18 (probe_request_pdu L req) = concat (map (pack_uid (ll_etcpal L)) (lp_known_uids req))"
    "unpack_uid (ll_etcpal L) (drop 4 (probe_request_pdu L req)) = lower_uid req"
    "unpack_uid (ll_etcpal L) (drop 10 (probe_request_pdu L req)) = upper_uid req"
    "unpack_u16b (ll_etcpal L) (drop 16 (probe_request_pdu L req)) = lp_filter req"
    "hd (drop 3 (probe_request_pdu L req)) = 1"
    using E by (simp_all add: probe_request_pdu_def Let_def etcpal_simps)
  ultimately show ?thesis
    using assms(1) len by (simp add: parse_llrp_probe_request_def Let_def llrp_simps known_uid_packed)
qed


lemma parse_packed_probe_reply:
  assumes "llrp_ok L" and "length (hardware_address t) = 6" and "dt_cid t = cid"
  shows "length (probe_reply_pdu L t) = 17" "parse_llrp_probe_reply L (probe_reply_pdu L t) 17 cid = Some t"
  using assms by (simp_all add: probe_reply_pdu_def parse_llrp_probe_reply_def Let_def pack_pdu_length_def etcpal_simps)

lemma parse_packed_rdm_command:
  assumes "llrp_ok L" and "26 \<le> length cmd" and "length cmd \<le> 257" and "hd cmd = VECTOR_RDM_CMD_RDM_DATA"
  shows "length (rdm_command_pdu L cmd) = 3 + length cmd"
    "parse_llrp_rdm_command L (rdm_command_pdu L cmd) (3 + length cmd) = Some cmd"
  using assms by (simp_all add: rdm_command_pdu_def parse_llrp_rdm_command_def Let_def pack_pdu_length_def etcpal_simps
      LLRP_RDM_CMD_PDU_MIN_SIZE_def LLRP_RDM_CMD_PDU_MAX_SIZE_def)

text \<open>
  What a target reads in a probe request is what the manager asked: the request parses, with its header and filter, and
  it counts as a request for the target exactly if the target's UID lies within the bounds and is not one of the known UIDs.
\<close>

lemma probe_request_roundtrip:
  assumes "llrp_ok L" and "valid_header h" and "length (lp_known_uids req) \<le> LLRP_KNOWN_UID_SIZE"
    and "lh_dest_cid h = kLlrpBroadcastCid L" and "interested_in_probe_request interest"
  shows "\<exists>buf. rc_send_llrp_probe_request L (\<lambda>_. None) ipv6 h req =
      (kEtcPalErrOk, [(if ipv6 then kLlrpIpv6RequestAddr else kLlrpIpv4RequestAddr, buf)]) \<and>
    rc_parse_llrp_message L buf interest = Some \<lparr>lm_vector = VECTOR_LLRP_PROBE_REQUEST, lm_header = h, lm_data = ProbeRequest
      \<lparr>contains_my_uid = uid_val (lower_uid req) \<le> uid_val (li_my_uid interest) \<and>
         uid_val (li_my_uid interest) \<le> uid_val (upper_uid req) \<and> li_my_uid interest \<notin> set (lp_known_uids req),
       rp_filter = lp_filter req\<rparr>\<rparr>"
  using assms length_probe_request_pdu [OF assms(1), of req] parse_packed_probe_request [OF assms(1,3), of interest]
  by (simp add: rc_send_llrp_probe_request_def sendto_def message_packed)

text \<open>
  A probe reply and an RDM command arrive as they were sent, at the receiver they are addressed to.
\<close>

lemma llrp_reply_roundtrip:
  assumes "llrp_ok L" and "valid_header h" and "my_cid interest = lh_dest_cid h"
  shows "length (hardware_address t) = 6 \<and> dt_cid t = lh_sender_cid h \<and> interested_in_probe_reply interest \<longrightarrow>
      (\<exists>buf. rc_send_llrp_probe_reply L (\<lambda>_. None) ipv6 h t =
          (kEtcPalErrOk, [(if ipv6 then kLlrpIpv6RespAddr else kLlrpIpv4RespAddr, buf)]) \<and>
        rc_get_llrp_destination_cid L buf = Some (lh_dest_cid h) \<and>
        rc_parse_llrp_message L buf interest = Some \<lparr>lm_vector = VECTOR_LLRP_PROBE_REPLY, lm_header = h, lm_data = ProbeReply t\<rparr>)"
    and "26 \<le> length cmd \<and> length cmd \<le> 257 \<and> hd cmd = VECTOR_RDM_CMD_RDM_DATA \<longrightarrow>
      (\<exists>buf. rc_send_llrp_rdm_command L (\<lambda>_. None) ipv6 h cmd =
          (kEtcPalErrOk, [(if ipv6 then kLlrpIpv6RequestAddr else kLlrpIpv4RequestAddr, buf)]) \<and>
        rc_get_llrp_destination_cid L buf = Some (lh_dest_cid h) \<and>
        rc_parse_llrp_message L buf interest = Some \<lparr>lm_vector = VECTOR_LLRP_RDM_CMD, lm_header = h, lm_data = LlrpRdm cmd\<rparr>)"
  using assms
  by (auto simp: rc_send_llrp_probe_reply_def rc_send_llrp_rdm_command_def send_llrp_rdm_def sendto_def message_packed
      destination_cid_packed parse_packed_probe_reply parse_packed_rdm_command)


section \<open>A concrete library\<close>

definition llrp_be :: llrp_lib where
  "llrp_be = \<lparr>
     ll_etcpal = etcpal_be,
     acn_parse_udp_preamble = (\<lambda>d. if take 16 d = [0, 16, 0, 0] @ ACN_PACKET_IDENT then Some (drop 16 d) else None),
     acn_pack_udp_preamble = [0, 16, 0, 0] @ ACN_PACKET_IDENT,
     acn_parse_root_layer_pdu = (\<lambda>d. do {
       p \<leftarrow> be_root_parse d;
       if rlp_data_len p + 23 \<le> length d then Some (p, drop 23 d) else None
     }),
     ACN_UDP_PREAMBLE_SIZE = 16, ACN_VECTOR_ROOT_LLRP = 0xA, kLlrpBroadcastCid =
       [0xfb, 0xad, 0x82, 0x2c, 0xbd, 0x0c, 0x4d, 0x4c, 0xbd, 0xc8, 0x7e, 0xab, 0xeb, 0xc8, 0x5a, 0xff],
     rdm_uid_compare = (\<lambda>u v. int (uid_val u) - int (uid_val v)),
     RDM_UID_IS_BROADCAST = (\<lambda>u. dev_id u = 0xffffffff),
     kRdmBroadcastUid = \<lparr>manu = 0xffff, dev_id = 0xffffffff\<rparr>\<rparr>"

lemma llrp_be_ok [simp]: "llrp_ok llrp_be"
proof -
  have "be_root_parse (be_root_pack p @ d) = Some p" "length (be_root_pack p) = 23"
    if "length (rlp_sender_cid p) = 16" "rlp_data_len p + 23 < 2 ^ 20" for p d
    using etcpal_ok_root [OF etcpal_be_ok that] by (simp_all add: etcpal_be_def)
  then show ?thesis
    by (simp add: llrp_ok_def llrp_be_def ACN_PACKET_IDENT_def)
      (simp add: etcpal_be_def)
qed

end
