(* ===== verification/Llrp_Manager.thy ===== *)
theory Llrp_Manager
  imports Llrp_Prot
begin

text \<open>
  An LLRP manager, \<^verbatim>\<open>src/rdmnet/core/llrp_manager.c\<close>: discovery of targets by probing ranges of UIDs, and RDM commands.

  The red-black tree of EtcPal, in which a manager keeps the targets it has discovered, is a parameter: a type of trees
  and the functions on it, which are given the order of \<^verbatim>\<open>discovered_target_compare\<close>. A node holds a UID, and the targets with
  that UID are the chain of the node: their CIDs in the order of discovery. Sockets, timers, memory and the RDM library are
  fields of the environment. What is sent is a result of the functions, and so is the event that goes to the owner of the
  manager. Locks are taken to succeed, and logging is left out.
\<close>

section \<open>Environment and state\<close>

record 't uid_tree =
  rb_init :: 't
  rb_inorder :: "'t \<Rightarrow> RdmUid list"
  rb_find :: "'t \<Rightarrow> RdmUid \<Rightarrow> bool"
  rb_insert :: "'t \<Rightarrow> RdmUid \<Rightarrow> 't"
  rb_clear :: "'t \<Rightarrow> 't"

text \<open>The tree is ordered, and a UID is found in it if it was inserted since it was cleared.\<close>

definition uid_tree_ok :: "'t uid_tree \<Rightarrow> bool" where
  "uid_tree_ok T \<longleftrightarrow>
     rb_inorder T (rb_init T) = [] \<and> (\<forall>t. rb_inorder T (rb_clear T t) = []) \<and>
     (\<forall>t u. rb_find T t u \<longleftrightarrow> u \<in> set (rb_inorder T t)) \<and>
     (\<forall>t u. \<not> rb_find T t u \<longrightarrow> rb_inorder T (rb_insert T t u) = insort_key uid_val u (rb_inorder T t))"

record RdmCommandHeader =
  ch_source_uid :: RdmUid
  ch_dest_uid :: RdmUid
  ch_transaction_num :: u8
  ch_port_id :: u8
  ch_subdevice :: u16
  ch_command_class :: u8
  ch_param_id :: u16

record RdmResponseHeader =
  rh_source_uid :: RdmUid
  rh_dest_uid :: RdmUid
  rh_transaction_num :: u8
  rh_resp_type :: u8
  rh_msg_count :: u8
  rh_subdevice :: u16
  rh_command_class :: u8
  rh_param_id :: u16

record 't llrp_env =
  le_lib :: llrp_lib
  le_tree :: "'t uid_tree"
  le_fails :: "datagram \<Rightarrow> etcpal_error_t option"
  le_expired :: "EtcPalTimer \<Rightarrow> bool"
  le_start :: "u32 \<Rightarrow> EtcPalTimer"
  le_malloc :: bool
  le_node_alloc :: bool
  rdm_pack_command :: "RdmCommandHeader \<Rightarrow> bytes \<Rightarrow> etcpal_error_t + RdmBuffer"
  rdm_unpack_response :: "RdmBuffer \<Rightarrow> (RdmResponseHeader \<times> bytes) option"

record EtcPalMcastNetintId =
  netint_index :: nat
  netint_v6 :: bool

record 't RCLlrpManager =
  mgr_cid :: EtcPalUuid
  mgr_uid :: RdmUid
  mgr_netint :: EtcPalMcastNetintId
  transaction_number :: u32
  discovery_active :: bool
  target_discovered_since_last_probe :: bool
  num_clean_sends :: u32
  disc_timer :: EtcPalTimer
  disc_filter :: u16
  discovered_targets :: 't
  target_chains :: "RdmUid \<Rightarrow> EtcPalUuid list"
  cur_range_low :: RdmUid
  cur_range_high :: RdmUid
  known_uids :: "RdmUid list"

record LlrpRdmResponse =
  resp_source_cid :: EtcPalUuid
  resp_seq_num :: u32
  resp_rdm_header :: RdmResponseHeader
  resp_rdm_data :: bytes

datatype RCLlrpManagerEvent =
    MgrEventNone
  | MgrTargetDiscovered LlrpDiscoveredTarget
  | MgrDiscoveryFinished
  | MgrRdmRespReceived LlrpRdmResponse

record LlrpDestinationAddr =
  da_dest_cid :: EtcPalUuid
  da_dest_uid :: RdmUid
  da_subdevice :: u16

abbreviation (input) LLRP_TIMEOUT_MS :: u32 where "LLRP_TIMEOUT_MS \<equiv> 2000"

section \<open>Probing\<close>

text \<open>
  The known UIDs of the current range, from the tree in its order. If there are more than fit in a request, the range is cut
  off in the middle of them.
\<close>

fun gather_known :: "llrp_lib \<Rightarrow> RdmUid \<Rightarrow> RdmUid \<Rightarrow> RdmUid list \<Rightarrow> RdmUid list \<Rightarrow> RdmUid \<times> RdmUid list" where
  "gather_known L low high [] known = (high, known)"
| "gather_known L low high (u # us) known =
     (if \<not> rdm_uid_compare L u high \<le> 0 then (high, known)
      else if known \<noteq> [] then
        (if length known + 1 \<le> LLRP_KNOWN_UID_SIZE then gather_known L low high us (known @ [u])
         else (known ! (LLRP_KNOWN_UID_SIZE div 2 - 1), take (LLRP_KNOWN_UID_SIZE div 2) known))
      else if rdm_uid_compare L u low \<ge> 0 then gather_known L low high us [u]
      else gather_known L low high us known)"

definition next_range_low :: "RdmUid \<Rightarrow> RdmUid" where
  "next_range_low high =
     (if dev_id high = 0xffffffff then \<lparr>manu = manu high + 1, dev_id = 0\<rparr>
      else \<lparr>manu = manu high, dev_id = dev_id high + 1\<rparr>)"

definition update_probe_range :: "'t llrp_env \<Rightarrow> 't RCLlrpManager \<Rightarrow> bool \<times> 't RCLlrpManager" where
  "update_probe_range env m =
     (let L = le_lib env in
      if num_clean_sends m \<ge> 3 \<and> RDM_UID_IS_BROADCAST L (cur_range_high m) then (False, m)
      else
        (let m1 = (if num_clean_sends m \<ge> 3
                   then m\<lparr>cur_range_low := next_range_low (cur_range_high m), cur_range_high := kRdmBroadcastUid L,
                          num_clean_sends := 0\<rparr>
                   else m) in
         case gather_known L (cur_range_low m1) (cur_range_high m1) (rb_inorder (le_tree env) (discovered_targets m1)) [] of
           (high, known) \<Rightarrow> (True, m1\<lparr>cur_range_high := high, known_uids := known\<rparr>)))"

definition send_next_probe :: "'t llrp_env \<Rightarrow> 't RCLlrpManager \<Rightarrow> bool \<times> datagram list \<times> 't RCLlrpManager" where
  "send_next_probe env m =
     (case update_probe_range env m of
        (False, m1) \<Rightarrow> (False, [], m1)
      | (True, m1) \<Rightarrow>
          (let header = \<lparr>lh_sender_cid = mgr_cid m1, lh_dest_cid = kLlrpBroadcastCid (le_lib env),
                 lh_transaction_number = transaction_number m1\<rparr>;
               m2 = m1\<lparr>transaction_number := transaction_number m1 + 1\<rparr>;
               req = \<lparr>lower_uid = cur_range_low m2, upper_uid = cur_range_high m2, lp_filter = disc_filter m2,
                 lp_known_uids = known_uids m2\<rparr> in
           case rc_send_llrp_probe_request (le_lib env) (le_fails env) (netint_v6 (mgr_netint m2)) header req of
             (res, sent) \<Rightarrow>
               if res = kEtcPalErrOk then (True, sent, m2\<lparr>disc_timer := le_start env LLRP_TIMEOUT_MS\<rparr>)
               else (False, sent, m2)))"

definition rc_llrp_manager_start_discovery ::
  "'t llrp_env \<Rightarrow> 't RCLlrpManager \<Rightarrow> u16 \<Rightarrow> etcpal_error_t \<times> datagram list \<times> 't RCLlrpManager" where
  "rc_llrp_manager_start_discovery env m filt =
     (if \<not> discovery_active m then
        (let m1 = m\<lparr>cur_range_low := \<lparr>manu = 0, dev_id = 0\<rparr>, cur_range_high := kRdmBroadcastUid (le_lib env),
               target_discovered_since_last_probe := False, num_clean_sends := 0, discovery_active := True,
               disc_filter := filt\<rparr> in
         case send_next_probe env m1 of
           (True, sent, m2) \<Rightarrow> (kEtcPalErrOk, sent, m2)
         | (False, sent, m2) \<Rightarrow> (kEtcPalErrSys, sent, m2\<lparr>discovery_active := False\<rparr>))
      else (kEtcPalErrAlready, [], m))"

definition rc_llrp_manager_stop_discovery :: "'t llrp_env \<Rightarrow> 't RCLlrpManager \<Rightarrow> etcpal_error_t \<times> 't RCLlrpManager" where
  "rc_llrp_manager_stop_discovery env m =
     (if discovery_active m
      then (kEtcPalErrOk, m\<lparr>discovered_targets := rb_clear (le_tree env) (discovered_targets m), discovery_active := False\<rparr>)
      else (kEtcPalErrInvalid, m))"

definition process_manager_state ::
  "'t llrp_env \<Rightarrow> 't RCLlrpManager \<Rightarrow> RCLlrpManagerEvent \<times> datagram list \<times> 't RCLlrpManager" where
  "process_manager_state env m =
     (if discovery_active m \<and> le_expired env (disc_timer m) then
        (let m1 = (if target_discovered_since_last_probe m
                   then m\<lparr>target_discovered_since_last_probe := False, num_clean_sends := 0\<rparr>
                   else m\<lparr>num_clean_sends := num_clean_sends m + 1\<rparr>) in
         case send_next_probe env m1 of
           (True, sent, m2) \<Rightarrow> (MgrEventNone, sent, m2)
         | (False, sent, m2) \<Rightarrow>
             (MgrDiscoveryFinished, sent,
              m2\<lparr>discovered_targets := rb_clear (le_tree env) (discovered_targets m2), discovery_active := False\<rparr>))
      else (MgrEventNone, [], m))"

section \<open>Messages and commands\<close>

text \<open>
  A target with a UID that is in the tree is new if its CID is not in the chain of that UID yet. Whether the tree could be given a
  new node is not looked at.
\<close>

definition handle_llrp_message :: "'t llrp_env \<Rightarrow> 't RCLlrpManager \<Rightarrow> LlrpMessage \<Rightarrow> RCLlrpManagerEvent \<times> 't RCLlrpManager" where
  "handle_llrp_message env m msg =
     (case lm_data msg of
        ProbeReply target \<Rightarrow>
          (let u = dt_uid target; cid = lh_sender_cid (lm_header msg); chain = target_chains m u;
               new = (\<lambda>m'. (MgrTargetDiscovered target, m'\<lparr>target_discovered_since_last_probe := True\<rparr>)) in
           if discovery_active m \<and> lh_dest_cid (lm_header msg) = mgr_cid m \<and> le_malloc env then
             (if rb_find (le_tree env) (discovered_targets m) u then
                (if cid \<in> set chain then (MgrEventNone, m)
                 else new (m\<lparr>target_chains := (target_chains m)(u := chain @ [cid])\<rparr>))
              else if le_node_alloc env
              then new (m\<lparr>discovered_targets := rb_insert (le_tree env) (discovered_targets m) u,
                          target_chains := (target_chains m)(u := [cid])\<rparr>)
              else new m)
           else (MgrEventNone, m))
      | LlrpRdm buf \<Rightarrow>
          (case rdm_unpack_response env buf of
             None \<Rightarrow> (MgrEventNone, m)
           | Some (rdm_header, rdm_data) \<Rightarrow>
               (MgrRdmRespReceived \<lparr>resp_source_cid = lh_sender_cid (lm_header msg),
                  resp_seq_num = lh_transaction_number (lm_header msg), resp_rdm_header = rdm_header, resp_rdm_data = rdm_data\<rparr>, m))
      | ProbeRequest _ \<Rightarrow> (MgrEventNone, m))"

text \<open>The sequence number is only taken if the caller wants to know it.\<close>

definition rc_llrp_manager_send_rdm_command ::
  "'t llrp_env \<Rightarrow> 't RCLlrpManager \<Rightarrow> LlrpDestinationAddr \<Rightarrow> u8 \<Rightarrow> u16 \<Rightarrow> bytes \<Rightarrow> bool
   \<Rightarrow> etcpal_error_t \<times> u32 option \<times> datagram list \<times> 't RCLlrpManager" where
  "rc_llrp_manager_send_rdm_command env m destination command_class param_id data want_seq_num =
     (let rdm_header = \<lparr>ch_source_uid = mgr_uid m, ch_dest_uid = da_dest_uid destination,
            ch_transaction_num = ucast (transaction_number m), ch_port_id = 1, ch_subdevice = da_subdevice destination,
            ch_command_class = command_class, ch_param_id = param_id\<rparr> in
      case rdm_pack_command env rdm_header data of
        Inl e \<Rightarrow> (e, None, [], m)
      | Inr cmd_buf \<Rightarrow>
          (let header = \<lparr>lh_sender_cid = mgr_cid m, lh_dest_cid = da_dest_cid destination,
                 lh_transaction_number = transaction_number m\<rparr> in
           case rc_send_llrp_rdm_command (le_lib env) (le_fails env) (netint_v6 (mgr_netint m)) header cmd_buf of
             (res, sent) \<Rightarrow>
               if res = kEtcPalErrOk \<and> want_seq_num
               then (res, Some (transaction_number m), sent, m\<lparr>transaction_number := transaction_number m + 1\<rparr>)
               else (res, None, sent, m)))"

text \<open>What \<^verbatim>\<open>rc_llrp_manager_data_received\<close> does with a datagram for this manager.\<close>

definition manager_data_received ::
  "'t llrp_env \<Rightarrow> bytes \<Rightarrow> 't RCLlrpManager \<Rightarrow> RCLlrpManagerEvent \<times> 't RCLlrpManager" where
  "manager_data_received env data m =
     (case rc_parse_llrp_message (le_lib env) data
             \<lparr>interested_in_probe_request = False, interested_in_probe_reply = True, my_cid = mgr_cid m, li_my_uid = mgr_uid m\<rparr> of
        None \<Rightarrow> (MgrEventNone, m)
      | Some msg \<Rightarrow> handle_llrp_message env m msg)"

end
