(* ===== verification/Llrp_Target.thy ===== *)
theory Llrp_Target
  imports Llrp_Manager
begin

text \<open>
  An LLRP target, \<^verbatim>\<open>src/rdmnet/core/llrp_target.c\<close>: replies to probe requests after a random time, and responses to
  RDM commands.

  The environment holds the libraries, the sockets, the timers, the next value of \<^verbatim>\<open>rand\<close>, the lowest hardware address of the
  system (\<^verbatim>\<open>rc_mcast_get_lowest_mac_addr\<close>), and the callback of the owner of the target. The result \<^const>\<open>None\<close> stands for
  undefined behaviour: an overflow of \<^verbatim>\<open>int\<close>, or a string written past the end of its buffer. Of logging, the buffers on the stack
  that \<^verbatim>\<open>send_response_if_requested\<close> has the CIDs written to are modelled, with the function of EtcPal that writes them.
\<close>

section \<open>Environment and state\<close>

record RCLlrpTargetNetintInfo =
  tn_id :: EtcPalMcastNetintId
  reply_pending :: bool
  pending_reply_cid :: EtcPalUuid
  pending_reply_trans_num :: u32
  reply_backoff :: EtcPalTimer

record RCLlrpTarget =
  tgt_cid :: EtcPalUuid
  tgt_uid :: RdmUid
  component_type :: u8
  tgt_netints :: "RCLlrpTargetNetintInfo list"
  connected_to_broker :: bool

record LlrpRdmCommand =
  cmd_source_cid :: EtcPalUuid
  cmd_seq_num :: u32
  cmd_netint_id :: EtcPalMcastNetintId
  cmd_rdm_header :: RdmCommandHeader
  cmd_data :: bytes

text \<open>
  The response a callback asks for: an ACK with a length and a buffer, which may be null, a NACK with its reason, or
  nothing for now.
\<close>

datatype RCLlrpTargetSyncRdmResponse = SyncSendAck nat "bytes option" | SyncSendNack u16 | SyncNoResponse

record target_env =
  te_lib :: llrp_lib
  te_fails :: "datagram \<Rightarrow> etcpal_error_t option"
  te_expired :: "EtcPalTimer \<Rightarrow> bool"
  te_start :: "u32 \<Rightarrow> EtcPalTimer"
  te_rand :: int
  RAND_MAX :: int
  te_can_log_err :: bool
  etcpal_uuid_to_string :: "EtcPalUuid \<Rightarrow> bytes"
  te_lowest_mac :: bytes
  rdm_unpack_command :: "RdmBuffer \<Rightarrow> (RdmCommandHeader \<times> bytes) option"
  rdm_pack_response :: "RdmCommandHeader \<Rightarrow> bytes \<Rightarrow> etcpal_error_t + RdmBuffer"
  rdm_pack_nack_response :: "RdmCommandHeader \<Rightarrow> u16 \<Rightarrow> etcpal_error_t + RdmBuffer"
  rdm_command_received :: "RCLlrpTarget \<Rightarrow> LlrpRdmCommand \<Rightarrow> RCLlrpTargetSyncRdmResponse"

abbreviation (input) LLRP_FILTERVAL_CLIENT_CONN_INACTIVE :: u16 where "LLRP_FILTERVAL_CLIENT_CONN_INACTIVE \<equiv> 1"
abbreviation (input) LLRP_FILTERVAL_BROKERS_ONLY :: u16 where "LLRP_FILTERVAL_BROKERS_ONLY \<equiv> 2"
abbreviation (input) kLlrpCompBroker :: u8 where "kLlrpCompBroker \<equiv> 2"
abbreviation (input) LLRP_MAX_BACKOFF_MS :: int where "LLRP_MAX_BACKOFF_MS \<equiv> 1500"
abbreviation (input) RDM_MAX_PDL :: nat where "RDM_MAX_PDL \<equiv> 231"

section \<open>Network interfaces\<close>

fun get_target_netint :: "RCLlrpTargetNetintInfo list \<Rightarrow> EtcPalMcastNetintId \<Rightarrow> RCLlrpTargetNetintInfo option" where
  "get_target_netint [] i = None"
| "get_target_netint (n # ns) i = (if tn_id n = i then Some n else get_target_netint ns i)"

text \<open>The interface is changed in place.\<close>

fun set_target_netint :: "RCLlrpTargetNetintInfo list \<Rightarrow> EtcPalMcastNetintId \<Rightarrow> RCLlrpTargetNetintInfo \<Rightarrow> RCLlrpTargetNetintInfo list" where
  "set_target_netint [] i n' = []"
| "set_target_netint (n # ns) i n' = (if tn_id n = i then n' # ns else n # set_target_netint ns i n')"

section \<open>Probe replies\<close>

definition pending_reply_header :: "RCLlrpTarget \<Rightarrow> RCLlrpTargetNetintInfo \<Rightarrow> LlrpHeader" where
  "pending_reply_header target n =
     \<lparr>lh_sender_cid = tgt_cid target, lh_dest_cid = pending_reply_cid n, lh_transaction_number = pending_reply_trans_num n\<rparr>"

definition target_info :: "target_env \<Rightarrow> RCLlrpTarget \<Rightarrow> LlrpDiscoveredTarget" where
  "target_info env target = \<lparr>dt_cid = tgt_cid target, dt_uid = tgt_uid target, hardware_address = te_lowest_mac env,
     dt_component_type = component_type target\<rparr>"

fun process_netints ::
  "target_env \<Rightarrow> RCLlrpTarget \<Rightarrow> RCLlrpTargetNetintInfo list \<Rightarrow> datagram list \<times> RCLlrpTargetNetintInfo list" where
  "process_netints env target [] = ([], [])"
| "process_netints env target (n # ns) =
     (let (sent, n') =
            (if reply_pending n \<and> te_expired env (reply_backoff n)
             then (snd (rc_send_llrp_probe_reply (te_lib env) (te_fails env) (netint_v6 (tn_id n))
                          (pending_reply_header target n) (target_info env target)), n\<lparr>reply_pending := False\<rparr>)
             else ([], n));
          (sents, ns') = process_netints env target ns in
      (sent @ sents, n' # ns'))"

definition process_target_state :: "target_env \<Rightarrow> RCLlrpTarget \<Rightarrow> datagram list \<times> RCLlrpTarget" where
  "process_target_state env target =
     (case process_netints env target (tgt_netints target) of (sent, ns) \<Rightarrow> (sent, target\<lparr>tgt_netints := ns\<rparr>))"

text \<open>\<^verbatim>\<open>(uint32_t)(rand() * LLRP_MAX_BACKOFF_MS / RAND_MAX)\<close>, where the product is an \<^verbatim>\<open>int\<close> of 32 bits.\<close>

definition reply_backoff_ms :: "int \<Rightarrow> int \<Rightarrow> u32 option" where
  "reply_backoff_ms r rand_max =
     (if r * LLRP_MAX_BACKOFF_MS < 2 ^ 31 then Some (word_of_int (r * LLRP_MAX_BACKOFF_MS div rand_max)) else None)"

definition passes_filter :: "u16 \<Rightarrow> RCLlrpTarget \<Rightarrow> bool" where
  "passes_filter filt target \<longleftrightarrow>
     \<not> (filt AND LLRP_FILTERVAL_BROKERS_ONLY \<noteq> 0 \<and> component_type target \<noteq> kLlrpCompBroker) \<and>
     \<not> (filt AND LLRP_FILTERVAL_CLIENT_CONN_INACTIVE \<noteq> 0 \<and> connected_to_broker target)"

definition handle_probe_request ::
  "target_env \<Rightarrow> RCLlrpTarget \<Rightarrow> RCLlrpTargetNetintInfo \<Rightarrow> LlrpHeader \<Rightarrow> RemoteProbeRequest \<Rightarrow> RCLlrpTarget option" where
  "handle_probe_request env target n header request =
     (if contains_my_uid request \<and> \<not> reply_pending n \<and> passes_filter (rp_filter request) target then do {
        backoff_ms \<leftarrow> reply_backoff_ms (te_rand env) (RAND_MAX env);
        Some (target\<lparr>tgt_netints := set_target_netint (tgt_netints target) (tn_id n)
          (n\<lparr>reply_pending := True, pending_reply_cid := lh_sender_cid header,
             pending_reply_trans_num := lh_transaction_number header, reply_backoff := te_start env backoff_ms\<rparr>)\<rparr>)
      }
      else Some target)"

section \<open>RDM commands\<close>

definition target_send_ack_internal ::
  "target_env \<Rightarrow> RCLlrpTarget \<Rightarrow> EtcPalUuid \<Rightarrow> u32 \<Rightarrow> RdmCommandHeader \<Rightarrow> EtcPalMcastNetintId \<Rightarrow> bytes \<Rightarrow> etcpal_error_t \<times> datagram list" where
  "target_send_ack_internal env target cid received_seq_num received_rdm_header received_netint_id response_data =
     (case rdm_pack_response env received_rdm_header response_data of
        Inl e \<Rightarrow> (e, [])
      | Inr resp_buf \<Rightarrow>
          (case get_target_netint (tgt_netints target) received_netint_id of
             None \<Rightarrow> (kEtcPalErrSys, [])
           | Some n \<Rightarrow> rc_send_llrp_rdm_response (te_lib env) (te_fails env) (netint_v6 (tn_id n))
               \<lparr>lh_sender_cid = tgt_cid target, lh_dest_cid = cid, lh_transaction_number = received_seq_num\<rparr> resp_buf))"

definition target_send_nack_internal ::
  "target_env \<Rightarrow> RCLlrpTarget \<Rightarrow> EtcPalUuid \<Rightarrow> u32 \<Rightarrow> RdmCommandHeader \<Rightarrow> EtcPalMcastNetintId \<Rightarrow> u16 \<Rightarrow> etcpal_error_t \<times> datagram list" where
  "target_send_nack_internal env target cid received_seq_num received_rdm_header received_netint_id nack_reason =
     (case get_target_netint (tgt_netints target) received_netint_id of
        None \<Rightarrow> (kEtcPalErrSys, [])
      | Some n \<Rightarrow>
          (case rdm_pack_nack_response env received_rdm_header nack_reason of
             Inl e \<Rightarrow> (e, [])
           | Inr nack_buf \<Rightarrow> rc_send_llrp_rdm_response (te_lib env) (te_fails env) (netint_v6 (tn_id n))
               \<lparr>lh_sender_cid = tgt_cid target, lh_dest_cid = cid, lh_transaction_number = received_seq_num\<rparr> nack_buf))"

definition rc_llrp_target_send_ack ::
  "target_env \<Rightarrow> RCLlrpTarget \<Rightarrow> LlrpRdmCommand \<Rightarrow> bytes \<Rightarrow> etcpal_error_t \<times> datagram list" where
  "rc_llrp_target_send_ack env target cmd response_data =
     target_send_ack_internal env target (cmd_source_cid cmd) (cmd_seq_num cmd) (cmd_rdm_header cmd) (cmd_netint_id cmd) response_data"

definition rc_llrp_target_send_nack ::
  "target_env \<Rightarrow> RCLlrpTarget \<Rightarrow> LlrpRdmCommand \<Rightarrow> u16 \<Rightarrow> etcpal_error_t \<times> datagram list" where
  "rc_llrp_target_send_nack env target cmd nack_reason =
     target_send_nack_internal env target (cmd_source_cid cmd) (cmd_seq_num cmd) (cmd_rdm_header cmd) (cmd_netint_id cmd) nack_reason"

text \<open>
  A string with its final null is written to a zeroed buffer of \<open>n\<close> characters. Errors are logged with the CIDs as strings, each in
  a buffer of \<^verbatim>\<open>ETCPAL_UUID_BYTES\<close> characters.
\<close>

definition char_buffer :: "nat \<Rightarrow> bytes \<Rightarrow> bytes option" where
  "char_buffer n str = (if length str \<le> n then Some (str @ replicate (n - length str) 0) else None)"

fun cid_buffers :: "target_env \<Rightarrow> EtcPalUuid list \<Rightarrow> bytes list option" where
  "cid_buffers env [] = Some []"
| "cid_buffers env (cid # cids) = do {
     buf \<leftarrow> char_buffer (ETCPAL_UUID_BYTES (ll_etcpal (te_lib env))) (etcpal_uuid_to_string env cid);
     bufs \<leftarrow> cid_buffers env cids;
     Some (buf # bufs)
   }"

definition log_cids :: "target_env \<Rightarrow> EtcPalUuid list \<Rightarrow> datagram list \<Rightarrow> datagram list option" where
  "log_cids env cids sent =
     (if te_can_log_err env then do {
        _ \<leftarrow> cid_buffers env cids;
        Some sent
      }
      else Some sent)"

definition send_response_if_requested ::
  "target_env \<Rightarrow> RCLlrpTarget \<Rightarrow> LlrpRdmCommand \<Rightarrow> RCLlrpTargetSyncRdmResponse \<Rightarrow> datagram list option" where
  "send_response_if_requested env target cmd response =
     (case response of
        SyncSendAck len buf \<Rightarrow>
          (if len \<noteq> 0 \<and> buf = None then log_cids env [tgt_cid target] []
           else if len > RDM_MAX_PDL then log_cids env [tgt_cid target] []
           else
             (case target_send_ack_internal env target (cmd_source_cid cmd) (cmd_seq_num cmd) (cmd_rdm_header cmd)
                     (cmd_netint_id cmd) (case buf of None \<Rightarrow> [] | Some d \<Rightarrow> take len d) of
                (res, sent) \<Rightarrow> if res = kEtcPalErrOk then Some sent else log_cids env [tgt_cid target, cmd_source_cid cmd] sent))
      | SyncSendNack reason \<Rightarrow>
          (case target_send_nack_internal env target (cmd_source_cid cmd) (cmd_seq_num cmd) (cmd_rdm_header cmd)
                  (cmd_netint_id cmd) reason of
             (res, sent) \<Rightarrow> if res = kEtcPalErrOk then Some sent else log_cids env [tgt_cid target, cmd_source_cid cmd] sent)
      | SyncNoResponse \<Rightarrow> Some [])"

text \<open>A datagram on one of the interfaces of the target.\<close>

definition target_handle_llrp_message ::
  "target_env \<Rightarrow> RCLlrpTarget \<Rightarrow> bytes \<Rightarrow> EtcPalMcastNetintId \<Rightarrow> (datagram list \<times> RCLlrpTarget) option" where
  "target_handle_llrp_message env target data i =
     (case get_target_netint (tgt_netints target) i of
        None \<Rightarrow> Some ([], target)
      | Some n \<Rightarrow>
          (case rc_parse_llrp_message (te_lib env) data
                  \<lparr>interested_in_probe_request = True, interested_in_probe_reply = False, my_cid = tgt_cid target,
                   li_my_uid = tgt_uid target\<rparr> of
             None \<Rightarrow> Some ([], target)
           | Some msg \<Rightarrow>
               (case lm_data msg of
                  ProbeRequest request \<Rightarrow>
                    map_option (Pair []) (handle_probe_request env target n (lm_header msg) request)
                | LlrpRdm buf \<Rightarrow>
                    (case rdm_unpack_command env buf of
                       None \<Rightarrow> Some ([], target)
                     | Some (rdm_header, data) \<Rightarrow>
                         (let cmd = \<lparr>cmd_source_cid = lh_sender_cid (lm_header msg),
                                cmd_seq_num = lh_transaction_number (lm_header msg), cmd_netint_id = tn_id n,
                                cmd_rdm_header = rdm_header, cmd_data = data\<rparr> in
                          map_option (\<lambda>sent. (sent, target))
                            (send_response_if_requested env target cmd (rdm_command_received env target cmd))))
                | ProbeReply _ \<Rightarrow> Some ([], target))))"

definition rc_llrp_target_update_connection_state :: "RCLlrpTarget \<Rightarrow> bool \<Rightarrow> RCLlrpTarget" where
  "rc_llrp_target_update_connection_state target connected = target\<lparr>connected_to_broker := connected\<rparr>"

end
