(* ===== verification/Llrp_Discovery.thy ===== *)
theory Llrp_Discovery
  imports Llrp_Target
begin

text \<open>
  Discovery of the LLRP targets of a network interface: the manager of llrp_manager.c and any number of targets of
  llrp_target.c composed, in rounds. In a round the probe that the manager sent reaches every target, each target
  schedules its reply and sends it when its backoff has expired, the replies that the network does not lose reach the
  manager in any order, and the manager's timer expires. The result is that discovery ends, and that every target that
  passes the filter has been reported, once, when it does.
\<close>


section \<open>Rounds of discovery\<close>

text \<open>
  A target gets the datagram of a probe request, and when its backoff timer has expired it sends what is pending.
\<close>

definition target_round ::
  "target_env \<Rightarrow> EtcPalMcastNetintId \<Rightarrow> bytes \<Rightarrow> RCLlrpTarget \<Rightarrow> (bytes list \<times> RCLlrpTarget) option" where
  "target_round env i p t = do {
     (_, t1) \<leftarrow> target_handle_llrp_message env t p i;
     let (sent, t2) = process_target_state env t1;
     Some (map snd sent, t2)
   }"

fun targets_round ::
  "(EtcPalUuid \<Rightarrow> target_env) \<Rightarrow> EtcPalMcastNetintId \<Rightarrow> bytes \<Rightarrow> RCLlrpTarget list \<Rightarrow> (bytes list \<times> RCLlrpTarget list) option" where
  "targets_round tenv i p [] = Some ([], [])"
| "targets_round tenv i p (t # ts) = do {
     (ds, t') \<leftarrow> target_round (tenv (tgt_cid t)) i p t;
     (ds', ts') \<leftarrow> targets_round tenv i p ts;
     Some (ds @ ds', t' # ts')
   }"

fun manager_hears :: "'t llrp_env \<Rightarrow> bytes list \<Rightarrow> 't RCLlrpManager \<Rightarrow> RCLlrpManagerEvent list \<times> 't RCLlrpManager" where
  "manager_hears env [] m = ([], m)"
| "manager_hears env (d # ds) m =
     (let (ev, m1) = manager_data_received env d m; (evs, m2) = manager_hears env ds m1 in
      ((if ev = MgrEventNone then evs else ev # evs), m2))"

text \<open>
  Discovery goes on in rounds, each from a probe request to the next: the targets reply to the request, the manager hears
  what \<open>heard\<close> leaves of the replies of the round, and when its timer has expired it goes on to the next request or ends.
  The result is what the owner of the manager is told; it is \<^const>\<open>None\<close> if the given number of rounds is not enough.
\<close>

fun discovery_rounds ::
  "'t llrp_env \<Rightarrow> (EtcPalUuid \<Rightarrow> target_env) \<Rightarrow> (nat \<Rightarrow> bytes list \<Rightarrow> bytes list) \<Rightarrow> nat \<Rightarrow> nat \<Rightarrow> bytes
   \<Rightarrow> 't RCLlrpManager \<Rightarrow> RCLlrpTarget list \<Rightarrow> (RCLlrpManagerEvent list \<times> 't RCLlrpManager) option" where
  "discovery_rounds env tenv heard 0 k p m ts = None"
| "discovery_rounds env tenv heard (Suc n) k p m ts = do {
     (ds, ts1) \<leftarrow> targets_round tenv (mgr_netint m) p ts;
     let (evs, m1) = manager_hears env (heard k ds) m;
     let (ev, sent, m2) = process_manager_state env m1;
     (case sent of
        [(_, p')] \<Rightarrow> do {
          (evs', m') \<leftarrow> discovery_rounds env tenv heard n (Suc k) p' m2 ts1;
          Some (evs @ evs', m')
        }
      | _ \<Rightarrow> Some (evs @ (if ev = MgrEventNone then [] else [ev]), m2))
   }"

text \<open>
  What is taken of the world: no socket fails, there is memory, and at the end of a round every timer has expired. The
  backoff times are defined.
\<close>

definition lab_env :: "'t llrp_env \<Rightarrow> (EtcPalUuid \<Rightarrow> target_env) \<Rightarrow> bool" where
  "lab_env env tenv \<longleftrightarrow>
     llrp_ok (le_lib env) \<and> uid_tree_ok (le_tree env) \<and> le_fails env = (\<lambda>_. None) \<and> le_malloc env \<and> le_node_alloc env \<and>
     (\<forall>t. le_expired env t) \<and>
     (\<forall>cid. te_lib (tenv cid) = le_lib env \<and> te_fails (tenv cid) = (\<lambda>_. None) \<and> (\<forall>t. te_expired (tenv cid) t) \<and>
       length (te_lowest_mac (tenv cid)) = 6 \<and> reply_backoff_ms (te_rand (tenv cid)) (RAND_MAX (tenv cid)) \<noteq> None)"

text \<open>
  The network may lose replies, repeat them and change their order, but not make them up; and of any three rounds in a row,
  in one some reply arrives if any was sent.
\<close>

definition fair_network :: "(nat \<Rightarrow> bytes list \<Rightarrow> bytes list) \<Rightarrow> bool" where
  "fair_network heard \<longleftrightarrow>
     (\<forall>k ds. set (heard k ds) \<subseteq> set ds) \<and>
     (\<forall>k. \<exists>j \<in> {k, k + 1, k + 2}. \<forall>ds. ds \<noteq> [] \<longrightarrow> heard j ds \<noteq> [])"

definition target_ok :: "EtcPalMcastNetintId \<Rightarrow> RCLlrpTarget \<Rightarrow> bool" where
  "target_ok i t \<longleftrightarrow>
     length (tgt_cid t) = 16 \<and> get_target_netint (tgt_netints t) i \<noteq> None \<and>
     (\<forall>n \<in> set (tgt_netints t). \<not> reply_pending n) \<and> dev_id (tgt_uid t) \<noteq> 0xffffffff"

section \<open>Targets\<close>

definition request_of :: "'t RCLlrpManager \<Rightarrow> LocalProbeRequest" where
  "request_of m = \<lparr>lower_uid = cur_range_low m, upper_uid = cur_range_high m, lp_filter = disc_filter m, lp_known_uids = known_uids m\<rparr>"

definition probe_header :: "'t llrp_env \<Rightarrow> 't RCLlrpManager \<Rightarrow> u32 \<Rightarrow> LlrpHeader" where
  "probe_header env m n = \<lparr>lh_sender_cid = mgr_cid m, lh_dest_cid = kLlrpBroadcastCid (le_lib env), lh_transaction_number = n\<rparr>"

definition probe_of :: "'t llrp_env \<Rightarrow> 't RCLlrpManager \<Rightarrow> u32 \<Rightarrow> bytes" where
  "probe_of env m n = llrp_datagram (le_lib env) VECTOR_LLRP_PROBE_REQUEST (probe_header env m n) (probe_request_pdu (le_lib env) (request_of m))"

definition reply_of :: "(EtcPalUuid \<Rightarrow> target_env) \<Rightarrow> EtcPalUuid \<Rightarrow> u32 \<Rightarrow> RCLlrpTarget \<Rightarrow> bytes" where
  "reply_of tenv cid n t =
     (let env = tenv (tgt_cid t) in
      llrp_datagram (te_lib env) VECTOR_LLRP_PROBE_REPLY
        \<lparr>lh_sender_cid = tgt_cid t, lh_dest_cid = cid, lh_transaction_number = n\<rparr> (probe_reply_pdu (te_lib env) (target_info env t)))"

text \<open>The targets that a probe request asks for.\<close>

definition asked :: "LocalProbeRequest \<Rightarrow> RCLlrpTarget \<Rightarrow> bool" where
  "asked req t \<longleftrightarrow> uid_val (lower_uid req) \<le> uid_val (tgt_uid t) \<and> uid_val (tgt_uid t) \<le> uid_val (upper_uid req) \<and>
     tgt_uid t \<notin> set (lp_known_uids req) \<and> passes_filter (lp_filter req) t"

text \<open>A round changes nothing of a target but the fields of the last reply.\<close>

definition same_target :: "RCLlrpTarget \<Rightarrow> RCLlrpTarget \<Rightarrow> bool" where
  "same_target t t' \<longleftrightarrow> tgt_cid t' = tgt_cid t \<and> tgt_uid t' = tgt_uid t \<and> component_type t' = component_type t \<and>
     connected_to_broker t' = connected_to_broker t"

lemma get_set_netint:
  "get_target_netint ns i = Some n \<Longrightarrow> tn_id n = i"
  "get_target_netint ns i \<noteq> None \<Longrightarrow> tn_id n' = i \<Longrightarrow> get_target_netint (set_target_netint ns i n') i = Some n'"
  by (induction ns) (auto split: if_splits)

lemma process_netints_idle:
  "\<forall>n \<in> set ns. \<not> reply_pending n \<Longrightarrow> process_netints env t ns = ([], ns)"
  by (induction ns) simp_all

lemma process_netints_one:
  assumes "\<forall>n \<in> set ns. \<not> reply_pending n" and "get_target_netint ns i \<noteq> None" and "tn_id n' = i" and "reply_pending n'"
    and "te_expired env (reply_backoff n')"
  shows "process_netints env t (set_target_netint ns i n') =
    (snd (rc_send_llrp_probe_reply (te_lib env) (te_fails env) (netint_v6 i) (pending_reply_header t n') (target_info env t)),
     set_target_netint ns i (n'\<lparr>reply_pending := False\<rparr>))"
  using assms by (induction ns) (simp_all add: process_netints_idle split: if_split_asm del: not_None_eq)

lemma set_netint_idle:
  "\<forall>n \<in> set ns. \<not> reply_pending n \<Longrightarrow> \<not> reply_pending n' \<Longrightarrow> \<forall>n \<in> set (set_target_netint ns i n'). \<not> reply_pending n"
  by (induction ns) simp_all

lemma get_netint_in: "get_target_netint ns i = Some n \<Longrightarrow> n \<in> set ns"
  by (induction ns) (auto split: if_splits)

lemma target_parses_probe:
  assumes "lab_env env tenv" and "length (mgr_cid m) = 16" and "length (known_uids m) \<le> LLRP_KNOWN_UID_SIZE"
  shows "rc_parse_llrp_message (le_lib env) (probe_of env m n) \<lparr>interested_in_probe_request = True, interested_in_probe_reply = False,
      my_cid = tgt_cid t, li_my_uid = tgt_uid t\<rparr> =
    Some \<lparr>lm_vector = VECTOR_LLRP_PROBE_REQUEST, lm_header = probe_header env m n, lm_data = ProbeRequest
      \<lparr>contains_my_uid = uid_val (cur_range_low m) \<le> uid_val (tgt_uid t) \<and> uid_val (tgt_uid t) \<le> uid_val (cur_range_high m) \<and>
         tgt_uid t \<notin> set (known_uids m), rp_filter = disc_filter m\<rparr>\<rparr>"
proof -
  have ok: "llrp_ok (le_lib env)" using assms(1) by (simp add: lab_env_def)
  moreover have "valid_header (probe_header env m n)" using assms(2) ok by (simp add: valid_header_def probe_header_def llrp_simps)
  moreover have "length (lp_known_uids (request_of m)) \<le> LLRP_KNOWN_UID_SIZE" using assms(3) by (simp add: request_of_def)
  ultimately show ?thesis
    using parse_packed_probe_request [of "le_lib env" "request_of m"] length_probe_request_pdu [of "le_lib env" "request_of m"]
    by (simp add: probe_of_def message_packed probe_header_def request_of_def)
qed

lemma target_round_spec:
  assumes "lab_env env tenv" and "length (mgr_cid m) = 16" and "length (known_uids m) \<le> LLRP_KNOWN_UID_SIZE"
    and "target_ok i t"
  shows "\<exists>t'. target_round (tenv (tgt_cid t)) i (probe_of env m n) t =
      Some (if asked (request_of m) t then [reply_of tenv (mgr_cid m) n t] else [], t') \<and> target_ok i t' \<and> same_target t t'"
proof -
  let ?te = "tenv (tgt_cid t)"
  obtain ni where ni: "get_target_netint (tgt_netints t) i = Some ni" using assms(4) by (auto simp: target_ok_def)
  then have i: "tn_id ni = i" by (rule get_set_netint)
  obtain ms where ms: "reply_backoff_ms (te_rand ?te) (RAND_MAX ?te) = Some ms" using assms(1) unfolding lab_env_def by blast
  note parsed = target_parses_probe [OF assms(1-3), of n t]
  show ?thesis
  proof (cases "asked (request_of m) t")
    case False
    moreover have "target_handle_llrp_message ?te t (probe_of env m n) i = Some ([], t)"
      using False ni parsed assms(1) by (auto simp: target_handle_llrp_message_def handle_probe_request_def asked_def request_of_def lab_env_def)
    moreover have "process_target_state ?te t = ([], t)"
      using assms(4) by (simp add: process_target_state_def target_ok_def process_netints_idle)
    ultimately show ?thesis using assms(4) by (simp add: target_round_def same_target_def)
  next
    case True
    let ?n = "ni\<lparr>reply_pending := True, pending_reply_cid := mgr_cid m, pending_reply_trans_num := n, reply_backoff := te_start ?te ms\<rparr>"
    let ?t = "t\<lparr>tgt_netints := set_target_netint (tgt_netints t) i ?n\<rparr>"
    let ?t' = "t\<lparr>tgt_netints := set_target_netint (tgt_netints t) i (?n\<lparr>reply_pending := False\<rparr>)\<rparr>"
    have idle: "\<forall>x \<in> set (tgt_netints t). \<not> reply_pending x" using assms(4) by (simp add: target_ok_def)
    then have "\<not> reply_pending ni" using get_netint_in [OF ni] by blast
    then have handled: "target_handle_llrp_message ?te t (probe_of env m n) i = Some ([], ?t)"
      using True ni parsed assms(1) i ms
      by (simp add: target_handle_llrp_message_def handle_probe_request_def asked_def request_of_def lab_env_def probe_header_def)
    have "process_target_state ?te ?t = ([(if netint_v6 i then kLlrpIpv6RespAddr else kLlrpIpv4RespAddr, reply_of tenv (mgr_cid m) n t)], ?t')"
      using process_netints_one [OF idle, of i ?n ?te ?t] ni i assms(1)
      by (simp add: process_target_state_def lab_env_def rc_send_llrp_probe_reply_def sendto_def reply_of_def pending_reply_header_def target_info_def)
    moreover have "target_ok i ?t'"
      using assms(4) i ni get_set_netint(2) [of "tgt_netints t" i "?n\<lparr>reply_pending := False\<rparr>"] set_netint_idle [OF idle, of "?n\<lparr>reply_pending := False\<rparr>" i]
      by (simp add: target_ok_def)
    ultimately show ?thesis using True handled by (simp add: target_round_def same_target_def)
  qed
qed

lemma targets_round_spec:
  assumes "lab_env env tenv" and "length (mgr_cid m) = 16" and "length (known_uids m) \<le> LLRP_KNOWN_UID_SIZE"
    and "\<forall>t \<in> set ts. target_ok i t"
  shows "\<exists>ts'. targets_round tenv i (probe_of env m n) ts =
      Some (map (reply_of tenv (mgr_cid m) n) (filter (asked (request_of m)) ts), ts') \<and>
    (\<forall>t \<in> set ts'. target_ok i t) \<and> list_all2 same_target ts ts'"
  using assms(4)
proof (induction ts)
  case (Cons t ts)
  then obtain ts' where "targets_round tenv i (probe_of env m n) ts =
      Some (map (reply_of tenv (mgr_cid m) n) (filter (asked (request_of m)) ts), ts')"
    "\<forall>t \<in> set ts'. target_ok i t" "list_all2 same_target ts ts'" by auto
  moreover obtain t' where "target_round (tenv (tgt_cid t)) i (probe_of env m n) t =
      Some (if asked (request_of m) t then [reply_of tenv (mgr_cid m) n t] else [], t')" "target_ok i t'" "same_target t t'"
    using target_round_spec [OF assms(1-3), of i t n] Cons.prems by auto
  ultimately show ?case by auto
qed simp

section \<open>The manager\<close>

lemma uid_val_inj: "uid_val u = uid_val v \<Longrightarrow> u = v"
proof -
  assume eq: "uid_val u = uid_val v"
  have "unat (dev_id w) < 2 ^ 32" for w :: RdmUid using unsigned_less [where 'a = nat, of "dev_id w"] by simp
  then have "unat (manu w) = uid_val w div 2 ^ 32 \<and> unat (dev_id w) = uid_val w mod 2 ^ 32" for w
    by (simp add: uid_val_def)
  then have "unat (manu u) = unat (manu v)" "unat (dev_id u) = unat (dev_id v)" using eq by metis+
  then show "u = v" by (cases u; cases v) (simp add: word_eq_iff_unsigned [where 'a = nat])
qed

lemma uid_val_eq [simp]: "uid_val u = uid_val v \<longleftrightarrow> u = v"
  using uid_val_inj by blast

lemma uid_val_max: "uid_val u \<le> uid_val \<lparr>manu = 0xffff, dev_id = 0xffffffff\<rparr>"
proof -
  have "unat (manu u) \<le> 65535" "unat (dev_id u) \<le> 4294967295"
    using unsigned_less [where 'a = nat, of "manu u"] unsigned_less [where 'a = nat, of "dev_id u"] by simp_all
  then show ?thesis by (simp add: uid_val_def)
qed

lemma next_range_low_val:
  assumes "dev_id u \<noteq> 0xffffffff"
  shows "uid_val (next_range_low u) = Suc (uid_val u)"
proof -
  have "unat (dev_id u) \<noteq> unat (0xffffffff :: u32)" using assms unsigned_word_eqI by blast
  moreover have "unat (dev_id u) < 2 ^ 32" using unsigned_less [where 'a = nat, of "dev_id u"] by simp
  ultimately have "unat (dev_id u + 1) = Suc (unat (dev_id u))" by (simp add: unat_word_ariths)
  then show ?thesis using assms by (simp add: next_range_low_def uid_val_def)
qed

lemma sorted_cut:
  assumes "sorted_wrt (\<lambda>u v. uid_val u < uid_val v) (us @ vs)" and "i < length us"
  shows "set (take (Suc i) us) = {v \<in> set (us @ vs). uid_val v \<le> uid_val (us ! i)}"
proof -
  have split: "us = take (Suc i) us @ drop (Suc i) us" by simp
  have "uid_val (us ! i) < uid_val v" if "v \<in> set (drop (Suc i) us @ vs)" for v
  proof -
    have "sorted_wrt (\<lambda>u v. uid_val u < uid_val v) (take i us @ us ! i # drop (Suc i) us @ vs)"
      using assms id_take_nth_drop [OF assms(2)] by (metis append.assoc append_Cons)
    then show ?thesis using that by (auto simp: sorted_wrt_append)
  qed
  moreover have "uid_val v \<le> uid_val (us ! i)" if "v \<in> set (take (Suc i) us)" for v
  proof -
    have "sorted_wrt (\<lambda>u v. uid_val u < uid_val v) (take i us @ [us ! i])"
      using assms take_Suc_conv_app_nth [OF assms(2)] by (metis append_take_drop_id sorted_wrt_append)
    then show ?thesis using that take_Suc_conv_app_nth [OF assms(2)] by (auto simp: sorted_wrt_append)
  qed
  moreover have "set (us @ vs) = set (take (Suc i) us) \<union> set (drop (Suc i) us @ vs)"
    using split by (metis append.assoc set_append)
  ultimately show ?thesis by fastforce
qed

text \<open>The list of known UIDs is complete for the range that is asked for.\<close>

lemma gather_known_spec:
  assumes "llrp_ok L" and "sorted_wrt (\<lambda>u v. uid_val u < uid_val v) (known @ us)"
    and "\<forall>u \<in> set known. uid_val low \<le> uid_val u \<and> uid_val u \<le> uid_val high" and "length known \<le> 200"
    and "uid_val low \<le> uid_val high" and "gather_known L low high us known = (high', known')"
  shows "length known' \<le> 200 \<and> uid_val low \<le> uid_val high' \<and> (high' = high \<or> high' \<in> set (known @ us)) \<and>
    set known' = {u \<in> set (known @ us). uid_val low \<le> uid_val u \<and> uid_val u \<le> uid_val high'}"
  using assms(2-6)
proof (induction us arbitrary: known)
  case (Cons u us)
  have cmp: "rdm_uid_compare L u high \<le> 0 \<longleftrightarrow> uid_val u \<le> uid_val high" "rdm_uid_compare L u low \<ge> 0 \<longleftrightarrow> uid_val low \<le> uid_val u"
    using assms(1) by (simp_all add: llrp_simps)
  consider "uid_val high < uid_val u" | "uid_val u \<le> uid_val high" "known \<noteq> []" "length known < 200"
    | "uid_val u \<le> uid_val high" "known \<noteq> []" "length known = 200" | "uid_val u \<le> uid_val high" "known = []" "uid_val low \<le> uid_val u"
    | "uid_val u \<le> uid_val high" "known = []" "uid_val u < uid_val low"
    using Cons.prems(3) by linarith
  then show ?case
  proof cases
    case 1
    then show ?thesis using Cons.prems cmp by (auto simp: sorted_wrt_append)
  next
    case 2
    moreover have "uid_val low \<le> uid_val u" using 2(2) Cons.prems(1,2) by (cases known) (auto simp: sorted_wrt_append)
    ultimately show ?thesis using Cons.IH [of "known @ [u]"] Cons.prems cmp by simp
  next
    case 3
    then have eq: "high' = known ! 99" "known' = take 100 known" using Cons.prems(5) cmp by simp_all
    have "set (take 100 known) = {v \<in> set (known @ u # us). uid_val low \<le> uid_val v \<and> uid_val v \<le> uid_val (known ! 99)}"
      using sorted_cut [OF Cons.prems(1), of 99] 3(3) Cons.prems(2) by (auto dest: in_set_takeD)
    then show ?thesis using eq 3(3) Cons.prems(2) by simp
  next
    case 4
    then show ?thesis using Cons.IH [of "[u]"] Cons.prems cmp by simp
  next
    case 5
    then show ?thesis using Cons.IH [of "[]"] Cons.prems cmp by auto
  qed
qed auto

definition tree_uids :: "'t llrp_env \<Rightarrow> 't RCLlrpManager \<Rightarrow> RdmUid list" where
  "tree_uids env m = rb_inorder (le_tree env) (discovered_targets m)"

text \<open>The targets a manager has discovered, by UID and CID.\<close>

definition found :: "'t llrp_env \<Rightarrow> 't RCLlrpManager \<Rightarrow> (RdmUid \<times> EtcPalUuid) set" where
  "found env m = {(u, cid). u \<in> set (tree_uids env m) \<and> cid \<in> set (target_chains m u)}"

definition key :: "RCLlrpTarget \<Rightarrow> RdmUid \<times> EtcPalUuid" where
  "key t = (tgt_uid t, tgt_cid t)"

definition info :: "(EtcPalUuid \<Rightarrow> target_env) \<Rightarrow> RCLlrpTarget \<Rightarrow> LlrpDiscoveredTarget" where
  "info tenv t = target_info (tenv (tgt_cid t)) t"

definition uids_sorted :: "RdmUid list \<Rightarrow> bool" where
  "uids_sorted us \<longleftrightarrow> sorted_wrt (\<lambda>u v. uid_val u < uid_val v) us"

text \<open>Replies change only what has been found.\<close>

definition listening :: "'t RCLlrpManager \<Rightarrow> 't RCLlrpManager \<Rightarrow> bool" where
  "listening m m' \<longleftrightarrow> (\<exists>t ch b. m' = m\<lparr>discovered_targets := t, target_chains := ch, target_discovered_since_last_probe := b\<rparr>)"

lemma listening_refl: "listening m m"
  unfolding listening_def by (intro exI [of _ "discovered_targets m"] exI [of _ "target_chains m"] exI [of _ "target_discovered_since_last_probe m"]) simp

lemma listening_update: "listening m (m\<lparr>discovered_targets := t, target_chains := ch, target_discovered_since_last_probe := b\<rparr>)"
  unfolding listening_def by blast

lemma listening_trans: "listening m m1 \<Longrightarrow> listening m1 m2 \<Longrightarrow> listening m m2"
  by (clarsimp simp: listening_def) (intro exI, rule refl)

lemma listeningD:
  assumes "listening m m'"
  shows "mgr_cid m' = mgr_cid m" "mgr_netint m' = mgr_netint m" "discovery_active m' = discovery_active m"
    "num_clean_sends m' = num_clean_sends m" "disc_filter m' = disc_filter m" "cur_range_low m' = cur_range_low m"
    "cur_range_high m' = cur_range_high m" "known_uids m' = known_uids m" "transaction_number m' = transaction_number m"
    "disc_timer m' = disc_timer m"
  using assms by (auto simp: listening_def)

lemma insort_uids:
  "uids_sorted us \<Longrightarrow> u \<notin> set us \<Longrightarrow> uids_sorted (insort_key uid_val u us)"
  unfolding uids_sorted_def
proof (induction us)
  case (Cons v us)
  then have "uid_val u < uid_val v \<or> uid_val v < uid_val u" using uid_val_inj [of u v] by (metis linorder_neqE_nat list.set_intros(1))
  with Cons show ?case by (auto simp: set_insort_key)
qed simp

lemma manager_gets_reply:
  assumes "lab_env env tenv" and "length (mgr_cid m) = 16" and "length (tgt_cid t) = 16"
  shows "manager_data_received env (reply_of tenv (mgr_cid m) n t) m =
    handle_llrp_message env m \<lparr>lm_vector = VECTOR_LLRP_PROBE_REPLY, lm_header =
      \<lparr>lh_sender_cid = tgt_cid t, lh_dest_cid = mgr_cid m, lh_transaction_number = n\<rparr>, lm_data = ProbeReply (info tenv t)\<rparr>"
proof -
  have ok: "llrp_ok (le_lib env)" and te: "te_lib (tenv (tgt_cid t)) = le_lib env" "length (te_lowest_mac (tenv (tgt_cid t))) = 6"
    using assms(1) by (auto simp: lab_env_def)
  then have "length (probe_reply_pdu (le_lib env) (info tenv t)) = 17"
    "parse_llrp_probe_reply (le_lib env) (probe_reply_pdu (le_lib env) (info tenv t)) 17 (tgt_cid t) = Some (info tenv t)"
    by (auto intro!: parse_packed_probe_reply simp: target_info_def key_def info_def)
  then show ?thesis using ok te assms(2,3) by (simp add: manager_data_received_def reply_of_def Let_def message_packed valid_header_def info_def)
qed

lemma manager_hears_one:
  assumes "lab_env env tenv" and "length (mgr_cid m) = 16" and "length (tgt_cid t) = 16" and "discovery_active m"
    and "uids_sorted (tree_uids env m)" and "manager_data_received env (reply_of tenv (mgr_cid m) n t) m = (ev, m')"
  shows "listening m m' \<and> uids_sorted (tree_uids env m') \<and> set (tree_uids env m') = insert (tgt_uid t) (set (tree_uids env m)) \<and>
    found env m' = insert (key t) (found env m) \<and>
    ev = (if key t \<in> found env m then MgrEventNone else MgrTargetDiscovered (info tenv t)) \<and>
    (target_discovered_since_last_probe m' \<longleftrightarrow> target_discovered_since_last_probe m \<or> key t \<notin> found env m)"
proof -
  have env: "le_malloc env" "le_node_alloc env" "uid_tree_ok (le_tree env)" using assms(1) by (auto simp: lab_env_def)
  have handled: "handle_llrp_message env m \<lparr>lm_vector = VECTOR_LLRP_PROBE_REPLY, lm_header =
      \<lparr>lh_sender_cid = tgt_cid t, lh_dest_cid = mgr_cid m, lh_transaction_number = n\<rparr>, lm_data = ProbeReply (info tenv t)\<rparr> = (ev, m')"
    using manager_gets_reply [OF assms(1-3), of n] assms(6) by simp
  have new: "rb_inorder (le_tree env) (rb_insert (le_tree env) (discovered_targets m) (tgt_uid t)) =
      insort_key uid_val (tgt_uid t) (tree_uids env m)" if "tgt_uid t \<notin> set (tree_uids env m)"
    using env(3) that by (auto simp: uid_tree_ok_def tree_uids_def)
  have find: "rb_find (le_tree env) (discovered_targets m) (tgt_uid t) \<longleftrightarrow> tgt_uid t \<in> set (tree_uids env m)"
    using env(3) by (simp add: uid_tree_ok_def tree_uids_def)
  consider "key t \<in> found env m" | "tgt_uid t \<in> set (tree_uids env m)" "key t \<notin> found env m" | "tgt_uid t \<notin> set (tree_uids env m)"
    by blast
  then show ?thesis
  proof cases
    case 1
    then have "m' = m" "ev = MgrEventNone" "tgt_uid t \<in> set (tree_uids env m)"
      using handled env find assms(4) by (auto simp: handle_llrp_message_def Let_def found_def target_info_def key_def info_def)
    then show ?thesis using 1 assms(5) by (auto simp: listening_refl)
  next
    case 2
    then have "m' = m\<lparr>target_chains := (target_chains m)(tgt_uid t := target_chains m (tgt_uid t) @ [tgt_cid t]),
        target_discovered_since_last_probe := True\<rparr>" "ev = MgrTargetDiscovered (info tenv t)"
      using handled env find assms(4) by (auto simp: handle_llrp_message_def Let_def found_def target_info_def key_def info_def)
    moreover from this have "listening m m'" using listening_update [where m = m and t = "discovered_targets m"] by simp
    ultimately show ?thesis using 2 assms(5) by (auto simp: tree_uids_def found_def key_def split: if_split_asm)
  next
    case 3
    then have "m' = m\<lparr>discovered_targets := rb_insert (le_tree env) (discovered_targets m) (tgt_uid t),
        target_chains := (target_chains m)(tgt_uid t := [tgt_cid t]), target_discovered_since_last_probe := True\<rparr>"
      "ev = MgrTargetDiscovered (info tenv t)"
      using handled env find assms(4) by (auto simp: handle_llrp_message_def Let_def found_def target_info_def key_def info_def)
    moreover from this have "tree_uids env m' = insort_key uid_val (tgt_uid t) (tree_uids env m)" using new [OF 3] by (simp add: tree_uids_def)
    moreover have "listening m m'" using calculation(1) listening_update by simp
    ultimately show ?thesis using 3 assms(5) insort_uids [OF assms(5) 3]
      by (auto simp: found_def key_def set_insort_key split: if_split_asm)
  qed
qed

lemma manager_hears_spec:
  assumes "lab_env env tenv" and "length (mgr_cid m) = 16" and "\<forall>t \<in> set rs. length (tgt_cid t) = 16" and "discovery_active m"
    and "uids_sorted (tree_uids env m)" and "manager_hears env (map (reply_of tenv (mgr_cid m) n) rs) m = (evs, m')"
  shows "\<exists>news. listening m m' \<and> uids_sorted (tree_uids env m') \<and> set (tree_uids env m') = set (tree_uids env m) \<union> tgt_uid ` set rs \<and>
    found env m' = found env m \<union> key ` set rs \<and>
    evs = map (\<lambda>t. MgrTargetDiscovered (info tenv t)) news \<and> set news \<subseteq> set rs \<and> distinct (map key news) \<and> key ` set news \<inter> found env m = {} \<and>
    key ` set rs \<subseteq> found env m \<union> key ` set news \<and> (target_discovered_since_last_probe m' \<longleftrightarrow> target_discovered_since_last_probe m \<or> news \<noteq> [])"
  using assms(2-6)
proof (induction rs arbitrary: m evs)
  case Nil
  then show ?case by (auto simp: listening_refl)
next
  case (Cons t rs)
  obtain ev m1 where one: "manager_data_received env (reply_of tenv (mgr_cid m) n t) m = (ev, m1)" by force
  obtain evs' where rest: "manager_hears env (map (reply_of tenv (mgr_cid m) n) rs) m1 = (evs', m')"
    and evs: "evs = (if ev = MgrEventNone then evs' else ev # evs')"
    using Cons.prems(5) one by (auto split: prod.split_asm)
  note spec = manager_hears_one [OF assms(1) Cons.prems(1) _ Cons.prems(3,4) one]
  have l: "listening m m1" using spec Cons.prems(2) by simp
  obtain news where news: "listening m1 m'" "uids_sorted (tree_uids env m')" "set (tree_uids env m') = set (tree_uids env m1) \<union> tgt_uid ` set rs"
    "found env m' = found env m1 \<union> key ` set rs" "evs' = map (\<lambda>t. MgrTargetDiscovered (info tenv t)) news" "set news \<subseteq> set rs" "distinct (map key news)"
    "key ` set news \<inter> found env m1 = {}" "key ` set rs \<subseteq> found env m1 \<union> key ` set news"
    "target_discovered_since_last_probe m' \<longleftrightarrow> target_discovered_since_last_probe m1 \<or> news \<noteq> []"
    using Cons.IH [of m1 evs'] rest spec Cons.prems(1-3) listeningD(1,3) [OF l] by (simp only: list.set) blast
  have "listening m m'" using l news(1) by (rule listening_trans)
  then show ?case
    using news spec Cons.prems(2) evs
    by (intro exI [of _ "if key t \<in> found env m then news else t # news"]) auto
qed

section \<open>Ranges\<close>

lemma sorted_distinct_uids: "sorted_wrt (\<lambda>u v. uid_val u < uid_val v) us \<Longrightarrow> distinct us"
  by (induction us) auto

lemma gather_known_stays:
  assumes "llrp_ok L" and "sorted_wrt (\<lambda>u v. uid_val u < uid_val v) (known @ us)"
    and "\<forall>u \<in> set known. uid_val low \<le> uid_val u \<and> uid_val u \<le> uid_val high" and "length known \<le> 200"
    and "card {u \<in> set (known @ us). uid_val low \<le> uid_val u \<and> uid_val u \<le> uid_val high} \<le> 200"
  shows "fst (gather_known L low high us known) = high"
  using assms(2-5)
proof (induction us arbitrary: known)
  case (Cons u us)
  have cmp: "rdm_uid_compare L u high \<le> 0 \<longleftrightarrow> uid_val u \<le> uid_val high" "rdm_uid_compare L u low \<ge> 0 \<longleftrightarrow> uid_val low \<le> uid_val u"
    using assms(1) by (simp_all add: llrp_simps)
  show ?case
  proof (cases "uid_val u \<le> uid_val high \<and> known \<noteq> []")
    case True
    then have u: "uid_val low \<le> uid_val u" "u \<notin> set known" using Cons.prems(1,2) by (cases known; auto simp: sorted_wrt_append)+
    have "distinct known" using Cons.prems(1) by (auto simp: sorted_wrt_append intro: sorted_distinct_uids)
    then have "Suc (length known) = card (set (u # known))" using u(2) by (simp add: distinct_card)
    also have "\<dots> \<le> 200" using Cons.prems(2,4) True u(1) by (intro order.trans [OF card_mono Cons.prems(4)]) auto
    finally show ?thesis using True Cons.IH [of "known @ [u]"] Cons.prems u(1) cmp by simp
  next
    case False
    show ?thesis
    proof (cases "uid_val u \<le> uid_val high \<and> uid_val u < uid_val low")
      case True
      then have "{v \<in> set ([] @ u # us). uid_val low \<le> uid_val v \<and> uid_val v \<le> uid_val high} =
        {v \<in> set us. uid_val low \<le> uid_val v \<and> uid_val v \<le> uid_val high}" by auto
      then show ?thesis using True False Cons.IH [of "[]"] Cons.prems cmp by simp
    next
      case high: False
      then show ?thesis using False Cons.IH [of "[u]"] Cons.prems cmp by (cases "uid_val u \<le> uid_val high") auto
    qed
  qed
qed simp

text \<open>The UIDs of the targets that the filter of the discovery lets through, and those of them that the current probe asks for.\<close>

definition wanted :: "u16 \<Rightarrow> RCLlrpTarget list \<Rightarrow> RdmUid set" where
  "wanted filt ts = tgt_uid ` {t \<in> set ts. passes_filter filt t}"

definition missing :: "'t RCLlrpManager \<Rightarrow> RdmUid set \<Rightarrow> RdmUid set" where
  "missing m W = {u \<in> W. uid_val (cur_range_low m) \<le> uid_val u \<and> uid_val u \<le> uid_val (cur_range_high m) \<and> u \<notin> set (known_uids m)}"

definition lively :: "(bytes list \<Rightarrow> bytes list) \<Rightarrow> bool" where
  "lively h \<longleftrightarrow> (\<forall>ds. ds \<noteq> [] \<longrightarrow> h ds \<noteq> [])"

text \<open>
  The manager between two probes. Of the targets below the current range it has found all that are wanted, the list of known
  UIDs is complete for the range, and the probes of the range that brought nothing did so because no target is missing or
  because no reply got through.
\<close>

definition range_ok :: "'t llrp_env \<Rightarrow> RdmUid set \<Rightarrow> 't RCLlrpManager \<Rightarrow> bool" where
  "range_ok env U m \<longleftrightarrow>
     length (mgr_cid m) = 16 \<and> discovery_active m \<and> uids_sorted (tree_uids env m) \<and> set (tree_uids env m) \<subseteq> U \<and>
     uid_val (cur_range_low m) \<le> uid_val (cur_range_high m) \<and>
     (cur_range_high m = kRdmBroadcastUid (le_lib env) \<or> cur_range_high m \<in> set (tree_uids env m))"

definition known_ok :: "'t llrp_env \<Rightarrow> 't RCLlrpManager \<Rightarrow> bool" where
  "known_ok env m \<longleftrightarrow> length (known_uids m) \<le> LLRP_KNOWN_UID_SIZE \<and>
     set (known_uids m) = {u \<in> set (tree_uids env m). uid_val (cur_range_low m) \<le> uid_val u \<and> uid_val u \<le> uid_val (cur_range_high m)}"

definition probing :: "'t llrp_env \<Rightarrow> (nat \<Rightarrow> bytes list \<Rightarrow> bytes list) \<Rightarrow> RdmUid set \<Rightarrow> RdmUid set \<Rightarrow> nat \<Rightarrow> 't RCLlrpManager \<Rightarrow> bool" where
  "probing env heard U W k m \<longleftrightarrow>
     range_ok env U m \<and> known_ok env m \<and> \<not> target_discovered_since_last_probe m \<and>
     unat (num_clean_sends m) < 3 \<and> unat (num_clean_sends m) \<le> k \<and>
     (\<forall>u \<in> W. uid_val u < uid_val (cur_range_low m) \<longrightarrow> u \<in> set (tree_uids env m)) \<and>
     (missing m W \<noteq> {} \<longrightarrow> (\<forall>j \<in> {k - unat (num_clean_sends m)..<k}. \<not> lively (heard j)))"

lemma update_range_spec:
  assumes "llrp_ok (le_lib env)" and "range_ok env U m" and "num_clean_sends m < 3"
  shows "\<exists>high known. update_probe_range env m = (True, m\<lparr>cur_range_high := high, known_uids := known\<rparr>) \<and>
    range_ok env U (m\<lparr>cur_range_high := high, known_uids := known\<rparr>) \<and> known_ok env (m\<lparr>cur_range_high := high, known_uids := known\<rparr>) \<and>
    (card {u \<in> set (tree_uids env m). uid_val (cur_range_low m) \<le> uid_val u \<and> uid_val u \<le> uid_val (cur_range_high m)} \<le> 200 \<longrightarrow>
      high = cur_range_high m)"
proof -
  obtain high known where g: "gather_known (le_lib env) (cur_range_low m) (cur_range_high m) (tree_uids env m) [] = (high, known)" by force
  have sorted: "sorted_wrt (\<lambda>u v. uid_val u < uid_val v) ([] @ tree_uids env m)" using assms(2) by (simp add: range_ok_def uids_sorted_def)
  have "update_probe_range env m = (True, m\<lparr>cur_range_high := high, known_uids := known\<rparr>)"
    using assms(3) g by (simp add: update_probe_range_def tree_uids_def not_le [symmetric])
  moreover note gather_known_spec [OF assms(1) sorted _ _ _ g] gather_known_stays [OF assms(1) sorted, of "cur_range_low m" "cur_range_high m"]
  ultimately show ?thesis using assms(2) g by (auto simp: range_ok_def known_ok_def tree_uids_def)
qed

lemma next_range_spec:
  assumes "llrp_ok (le_lib env)" and "range_ok env U m" and "num_clean_sends m \<ge> 3" and "\<forall>u \<in> U. dev_id u \<noteq> 0xffffffff"
  shows "cur_range_high m = kRdmBroadcastUid (le_lib env) \<longrightarrow> update_probe_range env m = (False, m)"
    and "cur_range_high m \<noteq> kRdmBroadcastUid (le_lib env) \<longrightarrow>
      (let m' = m\<lparr>cur_range_low := next_range_low (cur_range_high m), cur_range_high := kRdmBroadcastUid (le_lib env), num_clean_sends := 0\<rparr> in
       update_probe_range env m = update_probe_range env m' \<and> range_ok env U m' \<and>
       uid_val (cur_range_low m') = Suc (uid_val (cur_range_high m)))"
proof -
  have bc: "kRdmBroadcastUid (le_lib env) = \<lparr>manu = 0xffff, dev_id = 0xffffffff\<rparr>" "RDM_UID_IS_BROADCAST (le_lib env) (kRdmBroadcastUid (le_lib env))"
    using assms(1) by (simp_all add: llrp_simps)
  show "cur_range_high m = kRdmBroadcastUid (le_lib env) \<longrightarrow> update_probe_range env m = (False, m)"
    using assms(3) bc(2) by (simp add: update_probe_range_def)
  show "cur_range_high m \<noteq> kRdmBroadcastUid (le_lib env) \<longrightarrow>
      (let m' = m\<lparr>cur_range_low := next_range_low (cur_range_high m), cur_range_high := kRdmBroadcastUid (le_lib env), num_clean_sends := 0\<rparr> in
       update_probe_range env m = update_probe_range env m' \<and> range_ok env U m' \<and>
       uid_val (cur_range_low m') = Suc (uid_val (cur_range_high m)))"
  proof
    assume "cur_range_high m \<noteq> kRdmBroadcastUid (le_lib env)"
    then have high: "dev_id (cur_range_high m) \<noteq> 0xffffffff" using assms(2,4) by (auto simp: range_ok_def)
    then show "let m' = m\<lparr>cur_range_low := next_range_low (cur_range_high m), cur_range_high := kRdmBroadcastUid (le_lib env), num_clean_sends := 0\<rparr> in
       update_probe_range env m = update_probe_range env m' \<and> range_ok env U m' \<and>
       uid_val (cur_range_low m') = Suc (uid_val (cur_range_high m))"
      using assms(2,3) llrp_not_broadcast [OF assms(1) high] uid_val_max [of "next_range_low (cur_range_high m)"] bc(1)
      by (simp add: update_probe_range_def Let_def range_ok_def tree_uids_def next_range_low_val)
  qed
qed

section \<open>A round\<close>

text \<open>What the manager goes on with after a probe: the state is the same but for the number of the probe and the timer.\<close>

definition sent_probe :: "'t llrp_env \<Rightarrow> 't RCLlrpManager \<Rightarrow> 't RCLlrpManager" where
  "sent_probe env m = m\<lparr>transaction_number := transaction_number m + 1, disc_timer := le_start env LLRP_TIMEOUT_MS\<rparr>"

lemma sent_probe_simps [simp]:
  "range_ok env U (sent_probe env m) = range_ok env U m" "known_ok env (sent_probe env m) = known_ok env m"
  "probing env heard U W k (sent_probe env m) = probing env heard U W k m" "missing (sent_probe env m) W = missing m W"
  "tree_uids env (sent_probe env m) = tree_uids env m" "found env (sent_probe env m) = found env m"
  "mgr_cid (sent_probe env m) = mgr_cid m" "mgr_netint (sent_probe env m) = mgr_netint m" "disc_filter (sent_probe env m) = disc_filter m"
  "cur_range_low (sent_probe env m) = cur_range_low m" "num_clean_sends (sent_probe env m) = num_clean_sends m"
  "probe_of env (sent_probe env m) n = probe_of env m n" "known_uids (sent_probe env m) = known_uids m"
  by (simp_all add: sent_probe_def range_ok_def known_ok_def probing_def missing_def tree_uids_def found_def probe_of_def probe_header_def
      request_of_def)

lemma send_next_probe_ok:
  assumes "lab_env env tenv" and "update_probe_range env m = (True, m1)" and "known_ok env m1"
  shows "\<exists>a. send_next_probe env m = (True, [(a, probe_of env m1 (transaction_number m1))], sent_probe env m1)"
  using assms by (auto simp: send_next_probe_def lab_env_def known_ok_def rc_send_llrp_probe_request_def sendto_def sent_probe_def probe_of_def
      probe_header_def request_of_def)

text \<open>The manager after the replies of a round: it has found the targets with the UIDs \<open>R\<close>.\<close>

definition round_heard :: "'t llrp_env \<Rightarrow> 't RCLlrpManager \<Rightarrow> RdmUid set \<Rightarrow> 't RCLlrpManager \<Rightarrow> bool" where
  "round_heard env m R m1 \<longleftrightarrow>
     listening m m1 \<and> uids_sorted (tree_uids env m1) \<and> set (tree_uids env m1) = set (tree_uids env m) \<union> R \<and>
     (target_discovered_since_last_probe m1 \<longleftrightarrow> R \<noteq> {})"

text \<open>What is left to do: the UIDs to find, the range to cover, and the probes of the range.\<close>

definition todo :: "'t llrp_env \<Rightarrow> RdmUid set \<Rightarrow> 't RCLlrpManager \<Rightarrow> nat \<times> nat \<times> nat" where
  "todo env U m = (card (U - set (tree_uids env m)), 2 ^ 48 - uid_val (cur_range_low m), 3 - unat (num_clean_sends m))"

definition todo_rel :: "((nat \<times> nat \<times> nat) \<times> (nat \<times> nat \<times> nat)) set" where
  "todo_rel = less_than <*lex*> less_than <*lex*> less_than"

text \<open>The manager goes on to another probe, with less left to do.\<close>

definition goes_on ::
  "'t llrp_env \<Rightarrow> (nat \<Rightarrow> bytes list \<Rightarrow> bytes list) \<Rightarrow> RdmUid set \<Rightarrow> RdmUid set \<Rightarrow> nat \<Rightarrow> 't RCLlrpManager \<Rightarrow> 't RCLlrpManager \<Rightarrow> 't RCLlrpManager \<Rightarrow> bool" where
  "goes_on env heard U W k m m1 m2 \<longleftrightarrow>
     (\<exists>a n. process_manager_state env m1 = (MgrEventNone, [(a, probe_of env m2 n)], m2)) \<and> probing env heard U W (Suc k) m2 \<and>
     tree_uids env m2 = tree_uids env m1 \<and> found env m2 = found env m1 \<and> mgr_cid m2 = mgr_cid m \<and> mgr_netint m2 = mgr_netint m \<and>
     disc_filter m2 = disc_filter m \<and> (todo env U m2, todo env U m) \<in> todo_rel"

lemma goes_onI:
  assumes "lab_env env tenv" and "listening m m1" and "discovery_active m1"
    and "m1' = (if target_discovered_since_last_probe m1 then m1\<lparr>target_discovered_since_last_probe := False, num_clean_sends := 0\<rparr>
                else m1\<lparr>num_clean_sends := num_clean_sends m1 + 1\<rparr>)"
    and "update_probe_range env m1' = (True, m2)" and "probing env heard U W (Suc k) m2"
    and "tree_uids env m2 = tree_uids env m1" and "found env m2 = found env m1" and "mgr_cid m2 = mgr_cid m1" "mgr_netint m2 = mgr_netint m1"
    and "disc_filter m2 = disc_filter m1" and "(todo env U m2, todo env U m) \<in> todo_rel"
  shows "\<exists>m2. goes_on env heard U W k m m1 m2"
proof -
  have "known_ok env m2" using assms(6) by (simp add: probing_def)
  then obtain a where "send_next_probe env m1' = (True, [(a, probe_of env m2 (transaction_number m2))], sent_probe env m2)"
    using send_next_probe_ok [OF assms(1,5)] by blast
  then have "process_manager_state env m1 = (MgrEventNone, [(a, probe_of env (sent_probe env m2) (transaction_number m2))], sent_probe env m2)"
    using assms(1,3,4) by (simp add: process_manager_state_def lab_env_def Let_def)
  moreover have "todo env U (sent_probe env m2) = todo env U m2" by (simp add: todo_def)
  ultimately show ?thesis using assms listeningD [OF assms(2)]
    by (intro exI [of _ "sent_probe env m2"]) (auto simp: goes_on_def)
qed

lemma round_with_news:
  assumes "lab_env env tenv" and "probing env heard U W k m" and "finite U" and "round_heard env m R m1" and "R \<noteq> {}"
    and "R \<subseteq> missing m W" and "W \<subseteq> U"
  shows "\<exists>m2. goes_on env heard U W k m m1 m2"
proof -
  have L: "llrp_ok (le_lib env)" using assms(1) by (simp add: lab_env_def)
  let ?m = "m1\<lparr>target_discovered_since_last_probe := False, num_clean_sends := 0\<rparr>"
  have l: "listening m m1" and td: "target_discovered_since_last_probe m1" and tree: "set (tree_uids env m1) = set (tree_uids env m) \<union> R"
    using assms(4,5) by (simp_all add: round_heard_def)
  have R: "R \<subseteq> U" "R \<inter> set (tree_uids env m) = {}"
    using assms(2,6,7) by (auto simp: probing_def known_ok_def missing_def)
  have "range_ok env U ?m"
    using assms(2,4) tree R listeningD [OF l] by (auto simp: probing_def range_ok_def round_heard_def tree_uids_def)
  then obtain high known where u: "update_probe_range env ?m = (True, ?m\<lparr>cur_range_high := high, known_uids := known\<rparr>)"
    and r: "range_ok env U (?m\<lparr>cur_range_high := high, known_uids := known\<rparr>)" and kn: "known_ok env (?m\<lparr>cur_range_high := high, known_uids := known\<rparr>)"
    using update_range_spec [OF L, of U ?m] by auto
  let ?m2 = "?m\<lparr>cur_range_high := high, known_uids := known\<rparr>"
  have trees: "tree_uids env ?m2 = tree_uids env m1" by (simp add: tree_uids_def)
  have p: "probing env heard U W (Suc k) ?m2"
    using assms(2) r kn tree trees listeningD [OF l] by (auto simp: probing_def)
  have "card (U - set (tree_uids env m1)) < card (U - set (tree_uids env m))"
    using R assms(3,5) tree by (intro psubset_card_mono) auto
  then have "(todo env U ?m2, todo env U m) \<in> todo_rel" using trees by (simp add: todo_def todo_rel_def)
  moreover have "discovery_active m1" using assms(2) listeningD [OF l] by (simp add: probing_def range_ok_def)
  ultimately show ?thesis using goes_onI [OF assms(1) l _ _ u p] td by (simp add: tree_uids_def found_def)
qed

lemma silent_round:
  assumes "lab_env env tenv" and "probing env heard U W k m" and "round_heard env m {} m1" and "unat (num_clean_sends m) < 2"
    and "missing m W \<noteq> {} \<longrightarrow> \<not> lively (heard k)"
  shows "\<exists>m2. goes_on env heard U W k m m1 m2"
proof -
  have L: "llrp_ok (le_lib env)" using assms(1) by (simp add: lab_env_def)
  let ?m = "m1\<lparr>num_clean_sends := num_clean_sends m1 + 1\<rparr>" and ?c = "unat (num_clean_sends m)"
  have l: "listening m m1" and td: "\<not> target_discovered_since_last_probe m1" and tree: "set (tree_uids env m1) = set (tree_uids env m)"
    using assms(3) by (simp_all add: round_heard_def)
  note same = listeningD [OF l]
  have clean: "unat (num_clean_sends m1 + 1) = Suc ?c" using assms(4) same(4) by (simp add: unat_word_ariths)
  then have lt: "num_clean_sends m1 + 1 < 3" using assms(4) by (simp add: word_less_nat_alt)
  have "range_ok env U ?m" using assms(2,3) tree same by (auto simp: probing_def range_ok_def round_heard_def tree_uids_def)
  then obtain high known where u: "update_probe_range env ?m = (True, ?m\<lparr>cur_range_high := high, known_uids := known\<rparr>)"
    and r: "range_ok env U (?m\<lparr>cur_range_high := high, known_uids := known\<rparr>)" and kn: "known_ok env (?m\<lparr>cur_range_high := high, known_uids := known\<rparr>)"
    and high: "card {u \<in> set (tree_uids env m). uid_val (cur_range_low m) \<le> uid_val u \<and> uid_val u \<le> uid_val (cur_range_high m)} \<le> 200 \<longrightarrow>
      high = cur_range_high m"
    using update_range_spec [OF L, of U ?m] lt tree same by (auto simp: tree_uids_def)
  let ?m2 = "?m\<lparr>cur_range_high := high, known_uids := known\<rparr>"
  have "card (set (known_uids m)) \<le> 200" using assms(2) card_length [of "known_uids m"] by (simp add: probing_def known_ok_def)
  then have h: "high = cur_range_high m" using high assms(2) by (simp add: probing_def known_ok_def)
  then have "set known = set (known_uids m)" using kn assms(2) tree same by (simp add: probing_def known_ok_def tree_uids_def)
  then have miss: "missing ?m2 W = missing m W" using h same by (simp add: missing_def)
  have trees: "tree_uids env ?m2 = tree_uids env m1" by (simp add: tree_uids_def)
  have "\<forall>j \<in> {k - ?c..<Suc k}. \<not> lively (heard j)" if "missing m W \<noteq> {}"
    using that assms(2,5) by (auto simp: probing_def less_Suc_eq)
  then have p: "probing env heard U W (Suc k) ?m2"
    using assms(2,4) r kn tree trees same clean miss td by (auto simp: probing_def)
  have "(todo env U ?m2, todo env U m) \<in> todo_rel" using trees tree clean same assms(4) by (auto simp: todo_def todo_rel_def)
  moreover have "discovery_active m1" using assms(2) same by (simp add: probing_def range_ok_def)
  ultimately show ?thesis using goes_onI [OF assms(1) l _ _ u p] td by (simp add: tree_uids_def found_def)
qed

lemma third_silent_round:
  assumes "lab_env env tenv" and "probing env heard U W k m" and "fair_network heard" and "round_heard env m {} m1"
    and "unat (num_clean_sends m) = 2" and "missing m W \<noteq> {} \<longrightarrow> \<not> lively (heard k)"
    and "\<forall>u \<in> U. dev_id u \<noteq> 0xffffffff"
  shows "(\<exists>m2. goes_on env heard U W k m m1 m2) \<or>
    (\<exists>m2. process_manager_state env m1 = (MgrDiscoveryFinished, [], m2) \<and> \<not> discovery_active m2 \<and> W \<subseteq> set (tree_uids env m1))"
proof -
  have L: "llrp_ok (le_lib env)" using assms(1) by (simp add: lab_env_def)
  let ?m = "m1\<lparr>num_clean_sends := num_clean_sends m1 + 1\<rparr>"
  have l: "listening m m1" and td: "\<not> target_discovered_since_last_probe m1" and tree: "set (tree_uids env m1) = set (tree_uids env m)"
    using assms(4) by (simp_all add: round_heard_def)
  note same = listeningD [OF l]
  have ge: "num_clean_sends ?m \<ge> 3" using assms(5) same(4) by (simp add: word_le_nat_alt unat_word_ariths)
  have r: "range_ok env U ?m" using assms(2,4) tree same by (auto simp: probing_def range_ok_def round_heard_def tree_uids_def)
  have act: "discovery_active m1" using assms(2) same by (simp add: probing_def range_ok_def)
  have "\<not> lively (heard j)" if "missing m W \<noteq> {}" "j \<in> {k - 2, k - 2 + 1, k - 2 + 2}" for j
  proof -
    have "2 \<le> k" using assms(2,5) by (simp add: probing_def)
    then have "j = k \<or> j \<in> {k - 2..<k}" using that(2) by auto
    then show ?thesis using that(1) assms(2,5,6) by (auto simp: probing_def)
  qed
  then have none: "missing m W = {}" using assms(3) unfolding fair_network_def lively_def by metis
  then have below: "u \<in> set (tree_uids env m)" if "u \<in> W" "uid_val u \<le> uid_val (cur_range_high m)" for u
    using that assms(2) by (cases "uid_val u < uid_val (cur_range_low m)") (auto simp: probing_def missing_def known_ok_def)
  note next_range = next_range_spec [OF L r ge assms(7)]
  show ?thesis
  proof (cases "cur_range_high m = kRdmBroadcastUid (le_lib env)")
    case True
    then have "W \<subseteq> set (tree_uids env m1)" using below tree uid_val_max L by (auto simp: llrp_simps)
    moreover have "update_probe_range env ?m = (False, ?m)" using next_range(1) True same by simp
    then have "process_manager_state env m1 = (MgrDiscoveryFinished, [],
        ?m\<lparr>discovered_targets := rb_clear (le_tree env) (discovered_targets ?m), discovery_active := False\<rparr>)"
      using assms(1) act td by (simp add: process_manager_state_def lab_env_def send_next_probe_def)
    ultimately show ?thesis by auto
  next
    case False
    let ?m' = "?m\<lparr>cur_range_low := next_range_low (cur_range_high m), cur_range_high := kRdmBroadcastUid (le_lib env), num_clean_sends := 0\<rparr>"
    have n: "update_probe_range env ?m = update_probe_range env ?m'" "range_ok env U ?m'" "uid_val (cur_range_low ?m') = Suc (uid_val (cur_range_high m))"
      using next_range(2) False same by (simp_all add: Let_def)
    obtain high known where u: "update_probe_range env ?m' = (True, ?m'\<lparr>cur_range_high := high, known_uids := known\<rparr>)"
      and r2: "range_ok env U (?m'\<lparr>cur_range_high := high, known_uids := known\<rparr>)" and kn: "known_ok env (?m'\<lparr>cur_range_high := high, known_uids := known\<rparr>)"
      using update_range_spec [OF L n(2)] by auto
    let ?m2 = "?m'\<lparr>cur_range_high := high, known_uids := known\<rparr>"
    have trees: "tree_uids env ?m2 = tree_uids env m1" by (simp add: tree_uids_def)
    have p: "probing env heard U W (Suc k) ?m2"
      using r2 kn tree trees n(3) below td by (auto simp: probing_def)
    have "uid_val (cur_range_low m) \<le> uid_val (cur_range_high m)" "uid_val (cur_range_high m) < 2 ^ 48"
      using assms(2) uid_val_max [of "cur_range_high m"] by (auto simp: probing_def range_ok_def uid_val_def)
    then have "(todo env U ?m2, todo env U m) \<in> todo_rel" using trees tree n(3) by (auto simp: todo_def todo_rel_def)
    then have "\<exists>m2. goes_on env heard U W k m m1 m2"
      using goes_onI [OF assms(1) l act _ u [folded n(1)] p] td by (simp add: tree_uids_def found_def)
    then show ?thesis by blast
  qed
qed

section \<open>Discovery\<close>

lemma heard_replies:
  "set xs \<subseteq> f ` S \<Longrightarrow> \<exists>ys. xs = map f ys \<and> set ys \<subseteq> S"
proof (induction xs)
  case (Cons x xs)
  then obtain ys y where "xs = map f ys" "set ys \<subseteq> S" "x = f y" "y \<in> S" by auto
  then show ?case by (intro exI [of _ "y # ys"]) auto
qed simp

lemma map_filter_same:
  assumes "list_all2 same_target ts ts'" and "\<And>t t'. same_target t t' \<Longrightarrow> f t' = f t \<and> P t' = P t"
  shows "f ` {t \<in> set ts'. P t} = f ` {t \<in> set ts. P t}"
proof -
  have "map f (filter P ts') = map f (filter P ts)" using assms by (induction rule: list_all2_induct) auto
  then have "set (map f (filter P ts')) = set (map f (filter P ts))" by simp
  then show ?thesis by simp
qed

lemma same_targets:
  assumes "list_all2 same_target ts ts'"
  shows "tgt_uid ` set ts' = tgt_uid ` set ts" "wanted filt ts' = wanted filt ts"
    "info tenv ` {t \<in> set ts'. passes_filter filt t} = info tenv ` {t \<in> set ts. passes_filter filt t}"
  using map_filter_same [OF assms, of tgt_uid "\<lambda>_. True"] map_filter_same [OF assms, of tgt_uid "passes_filter filt"]
    map_filter_same [OF assms, of "info tenv" "passes_filter filt"]
  by (auto simp: same_target_def passes_filter_def info_def target_info_def wanted_def)

definition dkey :: "LlrpDiscoveredTarget \<Rightarrow> RdmUid \<times> EtcPalUuid" where
  "dkey d = (dt_uid d, dt_cid d)"

lemma dkey_info [simp]: "dkey (info tenv t) = key t" "dt_uid (info tenv t) = tgt_uid t"
  by (simp_all add: dkey_def info_def target_info_def key_def)

text \<open>What a round brings: the targets that are new, of those that the probe asked for and that were heard.\<close>

lemma round_spec:
  assumes "lab_env env tenv" and "fair_network heard" and "probing env heard U (wanted (disc_filter m) ts) k m"
    and "\<forall>t \<in> set ts. target_ok (mgr_netint m) t"
  shows "\<exists>ds ts' news R m1. targets_round tenv (mgr_netint m) (probe_of env m n) ts = Some (ds, ts') \<and>
    (\<forall>t \<in> set ts'. target_ok (mgr_netint m) t) \<and> list_all2 same_target ts ts' \<and>
    manager_hears env (heard k ds) m = (map (\<lambda>t. MgrTargetDiscovered (info tenv t)) news, m1) \<and>
    round_heard env m R m1 \<and> R \<subseteq> missing m (wanted (disc_filter m) ts) \<and>
    (missing m (wanted (disc_filter m) ts) \<noteq> {} \<and> lively (heard k) \<longrightarrow> R \<noteq> {}) \<and>
    R \<subseteq> tgt_uid ` set news \<and> set news \<subseteq> {t \<in> set ts. passes_filter (disc_filter m) t} \<and> distinct (map key news) \<and>
    key ` set news \<inter> found env m = {} \<and> found env m \<union> key ` set news \<subseteq> found env m1"
proof -
  let ?W = "wanted (disc_filter m) ts" and ?asked = "filter (asked (request_of m)) ts"
  have m: "length (mgr_cid m) = 16" "length (known_uids m) \<le> 200" "discovery_active m" "uids_sorted (tree_uids env m)" "\<not> target_discovered_since_last_probe m"
    using assms(3) by (simp_all add: probing_def range_ok_def known_ok_def)
  obtain ts' where ts': "targets_round tenv (mgr_netint m) (probe_of env m n) ts = Some (map (reply_of tenv (mgr_cid m) n) ?asked, ts')"
    "\<forall>t \<in> set ts'. target_ok (mgr_netint m) t" "list_all2 same_target ts ts'"
    using targets_round_spec [OF assms(1) m(1,2) assms(4)] by blast
  let ?ds = "map (reply_of tenv (mgr_cid m) n) ?asked"
  have "set (heard k ?ds) \<subseteq> set ?ds" using assms(2) unfolding fair_network_def by blast
  then obtain rs where rs: "heard k ?ds = map (reply_of tenv (mgr_cid m) n) rs" "set rs \<subseteq> set ?asked"
    using heard_replies [of "heard k ?ds" "reply_of tenv (mgr_cid m) n" "set ?asked"] by auto
  obtain evs m1 where hears: "manager_hears env (map (reply_of tenv (mgr_cid m) n) rs) m = (evs, m1)" by force
  have "\<forall>t \<in> set rs. length (tgt_cid t) = 16" using rs(2) assms(4) by (auto simp: target_ok_def)
  from manager_hears_spec [OF assms(1) m(1) this m(3,4) hears] obtain news where news:
    "listening m m1" "uids_sorted (tree_uids env m1)" "set (tree_uids env m1) = set (tree_uids env m) \<union> tgt_uid ` set rs"
    "found env m1 = found env m \<union> key ` set rs" "evs = map (\<lambda>t. MgrTargetDiscovered (info tenv t)) news" "set news \<subseteq> set rs"
    "distinct (map key news)" "key ` set news \<inter> found env m = {}" "key ` set rs \<subseteq> found env m \<union> key ` set news"
    "target_discovered_since_last_probe m1 \<longleftrightarrow> target_discovered_since_last_probe m \<or> news \<noteq> []" by blast
  have miss: "tgt_uid t \<in> missing m ?W" if "t \<in> set ?asked" for t
    using that by (auto simp: asked_def request_of_def missing_def wanted_def)
  have "tgt_uid t \<notin> set (tree_uids env m)" if "t \<in> set rs" for t
    using miss [of t] that rs(2) assms(3) by (auto simp: missing_def probing_def known_ok_def)
  then have new: "key t \<in> key ` set news" if "t \<in> set rs" for t
    using that news(9) by (auto simp: found_def key_def)
  then have R: "tgt_uid ` set rs \<subseteq> tgt_uid ` set news" by (fastforce simp: key_def)
  have heard_one: "rs \<noteq> []" if "missing m ?W \<noteq> {}" "lively (heard k)"
  proof -
    from that(1) have "?asked \<noteq> []" by (auto simp: missing_def wanted_def asked_def request_of_def filter_empty_conv)
    then show ?thesis using that(2) rs(1) unfolding lively_def by (metis list.map_disc_iff)
  qed
  have "news = [] \<longleftrightarrow> rs = []" using new [of "hd rs"] news(6) by (cases rs) auto
  then have "round_heard env m (tgt_uid ` set rs) m1" using news(1-3,10) m(5) by (simp add: round_heard_def)
  moreover have "tgt_uid ` set rs \<subseteq> missing m ?W" using miss rs(2) by blast
  moreover have "set news \<subseteq> {t \<in> set ts. passes_filter (disc_filter m) t}"
    using news(6) rs(2) by (auto simp: asked_def request_of_def)
  moreover have "found env m \<union> key ` set news \<subseteq> found env m1" using news(4,6) by blast
  moreover have "manager_hears env (heard k ?ds) m = (map (\<lambda>t. MgrTargetDiscovered (info tenv t)) news, m1)"
    using hears news(5) rs(1) by simp
  moreover have "missing m ?W \<noteq> {} \<and> lively (heard k) \<longrightarrow> tgt_uid ` set rs \<noteq> {}" using heard_one by simp
  ultimately show ?thesis using ts' R news(7,8)
    by (intro exI [of _ ?ds] exI [of _ ts'] exI [of _ news] exI [of _ "tgt_uid ` set rs"] exI [of _ m1] conjI)
qed

lemma wf_todo: "wf todo_rel"
  unfolding todo_rel_def by (intro wf_lex_prod wf_less_than)

definition discovers ::
  "'t llrp_env \<Rightarrow> (EtcPalUuid \<Rightarrow> target_env) \<Rightarrow> u16 \<Rightarrow> RCLlrpTarget list \<Rightarrow> 't RCLlrpManager \<Rightarrow> LlrpDiscoveredTarget list \<Rightarrow> bool" where
  "discovers env tenv filt ts m ds \<longleftrightarrow>
     wanted filt ts \<subseteq> set (tree_uids env m) \<union> dt_uid ` set ds \<and> set ds \<subseteq> info tenv ` {t \<in> set ts. passes_filter filt t} \<and>
     distinct (map dkey ds) \<and> dkey ` set ds \<inter> found env m = {}"

lemma discovers_news:
  assumes "set news \<subseteq> {t \<in> set ts. passes_filter filt t}" and "distinct (map key news)" and "key ` set news \<inter> found env m = {}"
    and "wanted filt ts \<subseteq> set (tree_uids env m) \<union> tgt_uid ` set news"
  shows "discovers env tenv filt ts m (map (info tenv) news)"
proof -
  have "dkey ` set (map (info tenv) news) = key ` set news" "map dkey (map (info tenv) news) = map key news"
    "dt_uid ` set (map (info tenv) news) = tgt_uid ` set news" by (simp_all add: image_image comp_def)
  then show ?thesis using assms unfolding discovers_def by (simp only: set_map) blast
qed

lemma discovers_append:
  assumes "set news \<subseteq> {t \<in> set ts. passes_filter filt t}" and "distinct (map key news)" and "key ` set news \<inter> found env m = {}"
    and "discovers env tenv filt ts m2 ds" and "found env m \<union> key ` set news \<subseteq> found env m2"
    and "set (tree_uids env m2) \<subseteq> set (tree_uids env m) \<union> tgt_uid ` set news"
  shows "discovers env tenv filt ts m (map (info tenv) news @ ds)"
proof -
  have ds: "dkey ` set ds \<inter> found env m = {}" "key ` set news \<inter> dkey ` set ds = {}"
    using assms(4,5) unfolding discovers_def by blast+
  have new: "dkey ` set (map (info tenv) news) = key ` set news" "map dkey (map (info tenv) news) = map key news"
    "dt_uid ` set (map (info tenv) news) = tgt_uid ` set news" by (simp_all add: image_image comp_def)
  have "wanted filt ts \<subseteq> set (tree_uids env m) \<union> (tgt_uid ` set news \<union> dt_uid ` set ds)"
    using assms(4,6) unfolding discovers_def by blast
  moreover have "set (map (info tenv) news) \<union> set ds \<subseteq> info tenv ` {t \<in> set ts. passes_filter filt t}"
    using assms(1,4) unfolding discovers_def set_map by blast
  moreover have "distinct (map key news @ map dkey ds)"
    using assms(2,4) ds(2) by (simp add: discovers_def)
  moreover have "(key ` set news \<union> dkey ` set ds) \<inter> found env m = {}" using assms(3) ds(1) by blast
  ultimately show ?thesis unfolding discovers_def map_append set_append image_Un new by blast
qed

lemma discovery_from:
  assumes "lab_env env tenv" and "fair_network heard" and "\<forall>u \<in> U. dev_id u \<noteq> 0xffffffff" and "finite U"
  shows "probing env heard U (wanted (disc_filter m) ts) k m \<Longrightarrow> \<forall>t \<in> set ts. target_ok (mgr_netint m) t \<Longrightarrow> U = tgt_uid ` set ts \<Longrightarrow>
    \<exists>N ds m'. discovery_rounds env tenv heard N k (probe_of env m n) m ts = Some (map MgrTargetDiscovered ds @ [MgrDiscoveryFinished], m') \<and>
      \<not> discovery_active m' \<and> discovers env tenv (disc_filter m) ts m ds"
proof (induction "todo env U m" arbitrary: k m ts n rule: wf_induct_rule [OF wf_todo])
  case 1
  let ?filt = "disc_filter m" and ?W = "wanted (disc_filter m) ts"
  obtain ds0 ts' news R m1 where round: "targets_round tenv (mgr_netint m) (probe_of env m n) ts = Some (ds0, ts')"
    "\<forall>t \<in> set ts'. target_ok (mgr_netint m) t" "list_all2 same_target ts ts'"
    "manager_hears env (heard k ds0) m = (map (\<lambda>t. MgrTargetDiscovered (info tenv t)) news, m1)"
    and heard: "round_heard env m R m1" "R \<subseteq> missing m ?W" "missing m ?W \<noteq> {} \<and> lively (heard k) \<longrightarrow> R \<noteq> {}" "R \<subseteq> tgt_uid ` set news"
    and news: "set news \<subseteq> {t \<in> set ts. passes_filter ?filt t}" "distinct (map key news)" "key ` set news \<inter> found env m = {}"
      "found env m \<union> key ` set news \<subseteq> found env m1"
    by (rule exE [OF round_spec [OF assms(1,2) 1(2,3), of n]]) (elim exE conjE, rule that)
  have tree: "set (tree_uids env m1) = set (tree_uids env m) \<union> R" using heard(1) by (simp add: round_heard_def)
  have WU: "?W \<subseteq> U" using 1(4) by (auto simp: wanted_def)
  have "(\<exists>m2. goes_on env heard U ?W k m m1 m2) \<or>
    (\<exists>m2. process_manager_state env m1 = (MgrDiscoveryFinished, [], m2) \<and> \<not> discovery_active m2 \<and> ?W \<subseteq> set (tree_uids env m1))"
  proof (cases "R = {}")
    case False
    then show ?thesis using round_with_news [OF assms(1) 1(2) assms(4) heard(1) _ heard(2) WU] by simp
  next
    case True
    have "unat (num_clean_sends m) < 3" using 1(2) by (simp add: probing_def)
    have quiet: "missing m ?W \<noteq> {} \<longrightarrow> \<not> lively (heard k)" using heard(3) True by blast
    note rh = heard(1) [unfolded True]
    show ?thesis
    proof (cases "unat (num_clean_sends m) < 2")
      case True
      then show ?thesis using silent_round [OF assms(1) 1(2) rh _ quiet] by simp
    next
      case False
      then have "unat (num_clean_sends m) = 2" using \<open>unat (num_clean_sends m) < 3\<close> by linarith
      then show ?thesis by (rule third_silent_round [OF assms(1) 1(2) assms(2) rh _ quiet assms(3)])
    qed
  qed
  then show ?case
  proof (elim disjE exE conjE)
    fix m2 assume "goes_on env heard U ?W k m m1 m2"
    then obtain a n2 where go: "process_manager_state env m1 = (MgrEventNone, [(a, probe_of env m2 n2)], m2)"
      and p2: "probing env heard U ?W (Suc k) m2" and m2: "tree_uids env m2 = tree_uids env m1" "found env m2 = found env m1"
        "mgr_netint m2 = mgr_netint m" "disc_filter m2 = ?filt" and less: "(todo env U m2, todo env U m) \<in> todo_rel"
      by (auto simp: goes_on_def)
    obtain N ds m' where rest: "discovery_rounds env tenv heard N (Suc k) (probe_of env m2 n2) m2 ts' = Some (map MgrTargetDiscovered ds @ [MgrDiscoveryFinished], m')"
      "\<not> discovery_active m'" "discovers env tenv ?filt ts' m2 ds"
      using 1(1) [OF less, of ts' "Suc k" n2, unfolded m2(3,4) same_targets [OF round(3)], OF p2 round(2) 1(4)]
      by (elim exE conjE) (rule that)
    have "discovery_rounds env tenv heard (Suc N) k (probe_of env m n) m ts =
        Some (map MgrTargetDiscovered (map (info tenv) news @ ds) @ [MgrDiscoveryFinished], m')"
      using round(1,4) go rest(1) by (simp add: comp_def)
    moreover have "discovers env tenv ?filt ts m2 ds" using rest(3) same_targets [OF round(3)] by (simp add: discovers_def)
    then have "discovers env tenv ?filt ts m (map (info tenv) news @ ds)"
      by (rule discovers_append [OF news(1-3)]) (use news(4) tree heard(4) m2 in auto)
    ultimately show ?thesis using rest(2) by (intro exI conjI)
  next
    fix m2 assume fin: "process_manager_state env m1 = (MgrDiscoveryFinished, [], m2)" "\<not> discovery_active m2" "?W \<subseteq> set (tree_uids env m1)"
    have "discovery_rounds env tenv heard (Suc 0) k (probe_of env m n) m ts =
        Some (map MgrTargetDiscovered (map (info tenv) news) @ [MgrDiscoveryFinished], m2)"
      using round(1,4) fin(1) by (simp add: comp_def)
    moreover have "discovers env tenv ?filt ts m (map (info tenv) news)"
      by (rule discovers_news [OF news(1-3)]) (use fin(3) tree heard(4) in blast)
    ultimately show ?thesis using fin(2) by (intro exI conjI)
  qed
qed

section \<open>Discovery\<close>

lemma start_probing:
  assumes "lab_env env tenv" and "\<not> discovery_active m" and "tree_uids env m = []" and "length (mgr_cid m) = 16"
  shows "\<exists>a m1. rc_llrp_manager_start_discovery env m filt = (kEtcPalErrOk, [(a, probe_of env m1 (transaction_number m))], m1) \<and>
    probing env heard U (wanted filt ts) 0 m1 \<and> tree_uids env m1 = [] \<and> found env m1 = {} \<and> mgr_netint m1 = mgr_netint m \<and>
    disc_filter m1 = filt"
proof -
  let ?m = "m\<lparr>cur_range_low := \<lparr>manu = 0, dev_id = 0\<rparr>, cur_range_high := kRdmBroadcastUid (le_lib env),
    target_discovered_since_last_probe := False, num_clean_sends := 0, discovery_active := True, disc_filter := filt\<rparr>"
  have L: "llrp_ok (le_lib env)" using assms(1) by (simp add: lab_env_def)
  let ?m1 = "?m\<lparr>known_uids := []\<rparr>"
  have upd: "update_probe_range env ?m = (True, ?m1)"
    using assms(3) by (simp add: update_probe_range_def tree_uids_def Let_def)
  have known: "known_ok env ?m1" using assms(3) by (simp add: known_ok_def tree_uids_def)
  have "range_ok env U ?m1" using assms(3,4) by (simp add: range_ok_def tree_uids_def uids_sorted_def uid_val_def)
  then have "probing env heard U (wanted filt ts) 0 ?m1" using known by (simp add: probing_def uid_val_def)
  moreover obtain a where "send_next_probe env ?m = (True, [(a, probe_of env ?m1 (transaction_number ?m1))], sent_probe env ?m1)"
    using send_next_probe_ok [OF assms(1) upd known] by blast
  moreover have "tree_uids env (sent_probe env ?m1) = []" using assms(3) unfolding sent_probe_simps by (simp add: tree_uids_def)
  moreover from this have "found env (sent_probe env ?m1) = {}" unfolding found_def by simp
  ultimately show ?thesis using assms(2)
    by (intro exI [of _ a] exI [of _ "sent_probe env ?m1"]) (simp add: rc_llrp_manager_start_discovery_def Let_def)
qed

lemma discovers_all:
  assumes "discovers env tenv filt ts m ds" and "tree_uids env m = []" and "distinct (map tgt_uid ts)"
  shows "distinct ds" "set ds = info tenv ` {t \<in> set ts. passes_filter filt t}"
proof -
  show "distinct ds" using assms(1) by (simp add: discovers_def distinct_map)
  have "info tenv t \<in> set ds" if "t \<in> set ts" "passes_filter filt t" for t
  proof -
    have "tgt_uid t \<in> dt_uid ` set ds" using assms(1,2) that by (auto simp: discovers_def wanted_def)
    then obtain d where d: "d \<in> set ds" "dt_uid d = tgt_uid t" by force
    then obtain t' where t': "d = info tenv t'" "t' \<in> set ts" using assms(1) unfolding discovers_def by blast
    then have "t' = t" using assms(3) that(1) d(2) by (auto simp: distinct_map dest: inj_onD)
    then show ?thesis using d(1) t'(1) by simp
  qed
  then show "set ds = info tenv ` {t \<in> set ts. passes_filter filt t}" using assms(1) by (auto simp: discovers_def)
qed

text \<open>
  C5. LLRP discovery is complete and ends. A manager that is not discovering and has nothing left of an earlier discovery
  starts one on an interface with any number of targets, with different UIDs. Replies may get lost, repeated and reordered, as
  long as of three rounds in a row one is not silent when there is a reply. Then after some number of rounds discovery has
  ended, and the owner of the manager has been told of each target that passes the filter, once and with its CID,
  UID, hardware address and component type, of no other target, and last that discovery has finished.
\<close>

theorem llrp_discovery_complete:
  assumes "lab_env env tenv" and "fair_network heard" and "\<not> discovery_active m" and "tree_uids env m = []"
    and "length (mgr_cid m) = 16" and "\<forall>t \<in> set ts. target_ok (mgr_netint m) t" and "distinct (map tgt_uid ts)"
  shows "\<exists>a p m1 N ds m'. rc_llrp_manager_start_discovery env m filt = (kEtcPalErrOk, [(a, p)], m1) \<and>
    discovery_rounds env tenv heard N 0 p m1 ts = Some (map MgrTargetDiscovered ds @ [MgrDiscoveryFinished], m') \<and>
    \<not> discovery_active m' \<and> distinct ds \<and> set ds = info tenv ` {t \<in> set ts. passes_filter filt t}"
proof -
  let ?U = "tgt_uid ` set ts"
  obtain a m1 where start: "rc_llrp_manager_start_discovery env m filt = (kEtcPalErrOk, [(a, probe_of env m1 (transaction_number m))], m1)"
    "probing env heard ?U (wanted filt ts) 0 m1" "tree_uids env m1 = []" "mgr_netint m1 = mgr_netint m" "disc_filter m1 = filt"
    using start_probing [OF assms(1,3,4,5), of filt heard ?U ts] by (elim exE conjE) (rule that)
  have "\<forall>u \<in> ?U. dev_id u \<noteq> 0xffffffff" using assms(6) by (simp add: target_ok_def)
  from discovery_from [OF assms(1,2) this finite_imageI [OF finite_set], of m1 ts 0 "transaction_number m", unfolded start(4,5), OF start(2) assms(6) refl]
  obtain N ds m' where "discovery_rounds env tenv heard N 0 (probe_of env m1 (transaction_number m)) m1 ts =
      Some (map MgrTargetDiscovered ds @ [MgrDiscoveryFinished], m')" "\<not> discovery_active m'" "discovers env tenv filt ts m1 ds"
    by (elim exE conjE) (rule that)
  then show ?thesis using start(1) discovers_all [OF _ start(3) assms(7)] by (intro exI conjI)
qed

text \<open>
  A manager on one interface with a device and two brokers, and a network that
  repeats what it is given in two rounds of three and loses all of it in the third.
\<close>

definition list_tree :: "RdmUid list uid_tree" where
  "list_tree = \<lparr>rb_init = [], rb_inorder = (\<lambda>us. us), rb_find = (\<lambda>us u. u \<in> set us), rb_insert = (\<lambda>us u. insort_key uid_val u us),
     rb_clear = (\<lambda>_. [])\<rparr>"

definition bench_env :: "RdmUid list llrp_env" where
  "bench_env = \<lparr>le_lib = llrp_be, le_tree = list_tree, le_fails = (\<lambda>_. None), le_expired = (\<lambda>_. True), le_start = (\<lambda>_. undefined), le_malloc = True, le_node_alloc = True,
     rdm_pack_command = (\<lambda>_ _. Inl kEtcPalErrSys), rdm_unpack_response = (\<lambda>_. None)\<rparr>"

definition hex_digit :: "u8 \<Rightarrow> u8" where
  "hex_digit n = (if n < 10 then 48 + n else 87 + n)"

definition be_uuid_to_string :: "EtcPalUuid \<Rightarrow> bytes" where
  "be_uuid_to_string cid =
     (let h = concat (map (\<lambda>b. [hex_digit (b div 16), hex_digit (b mod 16)]) cid) in
      take 8 h @ [45] @ take 4 (drop 8 h) @ [45] @ take 4 (drop 12 h) @ [45] @ take 4 (drop 16 h) @ [45] @ drop 20 h @ [0])"

definition bench_tenv :: "EtcPalUuid \<Rightarrow> target_env" where
  "bench_tenv cid = \<lparr>te_lib = llrp_be, te_fails = (\<lambda>_. None), te_expired = (\<lambda>_. True), te_start = (\<lambda>_. undefined), te_rand = 100,
     RAND_MAX = 32767, te_can_log_err = False, etcpal_uuid_to_string = be_uuid_to_string, te_lowest_mac = replicate 6 7, rdm_unpack_command = (\<lambda>_. None),
     rdm_pack_response = (\<lambda>_ _. Inl kEtcPalErrSys), rdm_pack_nack_response = (\<lambda>_ _. Inl kEtcPalErrSys),
     rdm_command_received = (\<lambda>_ _. SyncNoResponse)\<rparr>"

definition bench_netint :: EtcPalMcastNetintId where
  "bench_netint = \<lparr>netint_index = 1, netint_v6 = False\<rparr>"

definition bench_target :: "u8 \<Rightarrow> u8 \<Rightarrow> bool \<Rightarrow> RCLlrpTarget" where
  "bench_target k typ conn = \<lparr>tgt_cid = replicate 16 k, tgt_uid = \<lparr>manu = 1, dev_id = ucast k\<rparr>, component_type = typ,
     tgt_netints = [\<lparr>tn_id = bench_netint, reply_pending = False, pending_reply_cid = [], pending_reply_trans_num = 0,
       reply_backoff = undefined\<rparr>], connected_to_broker = conn\<rparr>"

definition bench_manager :: "RdmUid list RCLlrpManager" where
  "bench_manager = \<lparr>mgr_cid = replicate 16 9, mgr_uid = \<lparr>manu = 1, dev_id = 9\<rparr>, mgr_netint = bench_netint, transaction_number = 0,
     discovery_active = False, target_discovered_since_last_probe = False, num_clean_sends = 0, disc_timer = undefined, disc_filter = 0,
     discovered_targets = [], target_chains = (\<lambda>_. []), cur_range_low = undefined, cur_range_high = undefined, known_uids = []\<rparr>"

definition bench_heard :: "nat \<Rightarrow> bytes list \<Rightarrow> bytes list" where
  "bench_heard k ds = (if k mod 3 = 0 then [] else rev (ds @ ds))"

lemma bench_lab: "lab_env bench_env bench_tenv"
  by (simp add: lab_env_def bench_env_def bench_tenv_def list_tree_def uid_tree_ok_def reply_backoff_ms_def)

lemma bench_fair: "fair_network bench_heard"
proof -
  have "\<exists>j \<in> {k, k + 1, k + 2}. \<forall>ds. ds \<noteq> [] \<longrightarrow> bench_heard j ds \<noteq> []" for k
  proof (cases "k mod 3 = 0")
    case True
    then have "(k + 1) mod 3 \<noteq> 0" by presburger
    then have "\<forall>ds. ds \<noteq> [] \<longrightarrow> bench_heard (k + 1) ds \<noteq> []" by (simp add: bench_heard_def)
    then show ?thesis by blast
  next
    case False
    then have "\<forall>ds. ds \<noteq> [] \<longrightarrow> bench_heard k ds \<noteq> []" by (simp add: bench_heard_def)
    then show ?thesis by blast
  qed
  then show ?thesis unfolding fair_network_def by (simp add: bench_heard_def)
qed

theorem llrp_discovery_complete_witness:
  "\<exists>a p m1 N ds m'. rc_llrp_manager_start_discovery bench_env bench_manager 2 = (kEtcPalErrOk, [(a, p)], m1) \<and>
    discovery_rounds bench_env bench_tenv bench_heard N 0 p m1 [bench_target 1 0 False, bench_target 2 2 True, bench_target 3 2 False] =
      Some (map MgrTargetDiscovered ds @ [MgrDiscoveryFinished], m') \<and>
    \<not> discovery_active m' \<and> distinct ds \<and> set ds = info bench_tenv ` {bench_target 2 2 True, bench_target 3 2 False}"
proof -
  let ?ts = "[bench_target 1 0 False, bench_target 2 2 True, bench_target 3 2 False]"
  have filt: "{t \<in> set ?ts. passes_filter 2 t} = {bench_target 2 2 True, bench_target 3 2 False}"
    by (auto simp: passes_filter_def bench_target_def)
  have ts: "\<forall>t \<in> set ?ts. target_ok (mgr_netint bench_manager) t" "distinct (map tgt_uid ?ts)"
    by (simp_all add: target_ok_def bench_target_def bench_manager_def)
  have m: "\<not> discovery_active bench_manager" "tree_uids bench_env bench_manager = []" "length (mgr_cid bench_manager) = 16"
    by (simp_all add: bench_manager_def tree_uids_def bench_env_def list_tree_def)
  show ?thesis by (rule llrp_discovery_complete [OF bench_lab bench_fair m ts, of 2, unfolded filt])
qed

end
