(* ===== verification/Llrp_Commands.thy ===== *)
theory Llrp_Commands
  imports Llrp_Discovery
begin

text \<open>
  RDM commands over LLRP: a manager's command reaches the target, and the target's answer the manager. Then what goes wrong in
  the target: the backoff time of a probe reply, and errors of a response.
\<close>

section \<open>Commands and responses\<close>

text \<open>
  What is taken of the RDM library: a command or response that it packs is a message of RDM, which starts with the start code
  of RDM, and unpacks to what was packed. \<open>answer\<close> is the header of the response to a command.
\<close>

definition rdm_ok :: "'t llrp_env \<Rightarrow> target_env \<Rightarrow> (RdmCommandHeader \<Rightarrow> RdmResponseHeader) \<Rightarrow> bool" where
  "rdm_ok env tenv answer \<longleftrightarrow>
     (\<forall>h d buf. rdm_pack_command env h d = Inr buf \<longrightarrow>
        26 \<le> length buf \<and> length buf \<le> 257 \<and> hd buf = VECTOR_RDM_CMD_RDM_DATA \<and> rdm_unpack_command tenv buf = Some (h, d)) \<and>
     (\<forall>h d buf. rdm_pack_response tenv h d = Inr buf \<longrightarrow>
        26 \<le> length buf \<and> length buf \<le> 257 \<and> hd buf = VECTOR_RDM_CMD_RDM_DATA \<and> rdm_unpack_response env buf = Some (answer h, d))"

definition command_header :: "'t RCLlrpManager \<Rightarrow> LlrpDestinationAddr \<Rightarrow> u8 \<Rightarrow> u16 \<Rightarrow> RdmCommandHeader" where
  "command_header m dest cc pid = \<lparr>ch_source_uid = mgr_uid m, ch_dest_uid = da_dest_uid dest,
     ch_transaction_num = ucast (transaction_number m), ch_port_id = 1, ch_subdevice = da_subdevice dest, ch_command_class = cc,
     ch_param_id = pid\<rparr>"

lemma rdm_datagram_parsed:
  assumes "llrp_ok L" and "valid_header h" and "my_cid interest = lh_dest_cid h" and "26 \<le> length buf" and "length buf \<le> 257"
    and "hd buf = VECTOR_RDM_CMD_RDM_DATA"
  shows "rc_parse_llrp_message L (llrp_datagram L VECTOR_LLRP_RDM_CMD h (rdm_command_pdu L buf)) interest =
    Some \<lparr>lm_vector = VECTOR_LLRP_RDM_CMD, lm_header = h, lm_data = LlrpRdm buf\<rparr>"
  using assms parse_packed_rdm_command [OF assms(1,4-6)] by (simp add: message_packed)

text \<open>The target, with a command of which the callback wants to acknowledge with some data.\<close>

lemma target_answers:
  assumes "llrp_ok (te_lib tenv)" and "te_fails tenv = (\<lambda>_. None)" and "get_target_netint (tgt_netints t) i \<noteq> None"
    and "valid_header h" and "lh_dest_cid h = tgt_cid t" and "26 \<le> length buf" "length buf \<le> 257" "hd buf = VECTOR_RDM_CMD_RDM_DATA"
    and "rdm_unpack_command tenv buf = Some (rh, d)"
    and "rdm_command_received tenv t \<lparr>cmd_source_cid = lh_sender_cid h, cmd_seq_num = lh_transaction_number h, cmd_netint_id = i,
           cmd_rdm_header = rh, cmd_data = d\<rparr> = SyncSendAck (length d') (Some d')"
    and "length d' \<le> 231" and "rdm_pack_response tenv rh d' = Inr resp"
  shows "\<exists>a. target_handle_llrp_message tenv t (llrp_datagram (te_lib tenv) VECTOR_LLRP_RDM_CMD h (rdm_command_pdu (te_lib tenv) buf)) i =
    Some ([(a, llrp_datagram (te_lib tenv) VECTOR_LLRP_RDM_CMD
      \<lparr>lh_sender_cid = tgt_cid t, lh_dest_cid = lh_sender_cid h, lh_transaction_number = lh_transaction_number h\<rparr>
      (rdm_command_pdu (te_lib tenv) resp))], t)"
proof -
  obtain n where n: "get_target_netint (tgt_netints t) i = Some n" using assms(3) by blast
  have "tn_id n = i" by (rule get_set_netint(1) [OF n])
  then show ?thesis using assms(2,5,9-12) n rdm_datagram_parsed [OF assms(1,4) _ assms(6-8)]
    by (simp add: target_handle_llrp_message_def send_response_if_requested_def target_send_ack_internal_def
        rc_send_llrp_rdm_response_def send_llrp_rdm_def sendto_def)
qed

text \<open>
  C13. An RDM command over LLRP is answered. A manager sends a command to a target of its interface; the callback of the
  target gets the parameter data of the command with the UID of the manager as its source, and acknowledges with data of its
  own. When the manager gets what the target sent, its owner is told of a response from the target's CID with exactly that
  data, and with the sequence number that sending the command returned; the manager has gone on to the next number.
\<close>

theorem llrp_command_answered:
  assumes "lab_env env tenv" and "rdm_ok env (tenv (tgt_cid t)) answer" and "target_ok (mgr_netint m) t"
    and "length (mgr_cid m) = 16" and "da_dest_cid dest = tgt_cid t" and "rdm_pack_command env (command_header m dest cc pid) d = Inr buf"
    and "rdm_command_received (tenv (tgt_cid t)) t \<lparr>cmd_source_cid = mgr_cid m, cmd_seq_num = transaction_number m,
           cmd_netint_id = mgr_netint m, cmd_rdm_header = command_header m dest cc pid, cmd_data = d\<rparr> = SyncSendAck (length d') (Some d')"
    and "length d' \<le> 231" and "rdm_pack_response (tenv (tgt_cid t)) (command_header m dest cc pid) d' = Inr resp"
  shows "\<exists>a p m1 a' p'. rc_llrp_manager_send_rdm_command env m dest cc pid d True = (kEtcPalErrOk, Some (transaction_number m), [(a, p)], m1) \<and>
    transaction_number m1 = transaction_number m + 1 \<and>
    rc_get_llrp_destination_cid (le_lib env) p = Some (tgt_cid t) \<and>
    target_handle_llrp_message (tenv (tgt_cid t)) t p (mgr_netint m) = Some ([(a', p')], t) \<and>
    rc_get_llrp_destination_cid (le_lib env) p' = Some (mgr_cid m) \<and>
    manager_data_received env p' m1 = (MgrRdmRespReceived \<lparr>resp_source_cid = tgt_cid t, resp_seq_num = transaction_number m,
      resp_rdm_header = answer (command_header m dest cc pid), resp_rdm_data = d'\<rparr>, m1)"
proof -
  let ?tenv = "tenv (tgt_cid t)" and ?L = "le_lib env"
  let ?h = "\<lparr>lh_sender_cid = mgr_cid m, lh_dest_cid = tgt_cid t, lh_transaction_number = transaction_number m\<rparr>"
  let ?h' = "\<lparr>lh_sender_cid = tgt_cid t, lh_dest_cid = mgr_cid m, lh_transaction_number = transaction_number m\<rparr>"
  let ?m1 = "m\<lparr>transaction_number := transaction_number m + 1\<rparr>"
  let ?p = "llrp_datagram ?L VECTOR_LLRP_RDM_CMD ?h (rdm_command_pdu ?L buf)" and ?p' = "llrp_datagram ?L VECTOR_LLRP_RDM_CMD ?h' (rdm_command_pdu ?L resp)"
  have L: "llrp_ok ?L" "te_lib ?tenv = ?L" "te_fails ?tenv = (\<lambda>_. None)" "le_fails env = (\<lambda>_. None)"
    using assms(1) by (simp_all add: lab_env_def)
  have h: "valid_header ?h" "valid_header ?h'" and i: "get_target_netint (tgt_netints t) (mgr_netint m) \<noteq> None"
    using assms(3,4) by (simp_all add: valid_header_def target_ok_def)
  have buf: "26 \<le> length buf" "length buf \<le> 257" "hd buf = VECTOR_RDM_CMD_RDM_DATA" "rdm_unpack_command ?tenv buf = Some (command_header m dest cc pid, d)"
    and resp: "26 \<le> length resp" "length resp \<le> 257" "hd resp = VECTOR_RDM_CMD_RDM_DATA" "rdm_unpack_response env resp = Some (answer (command_header m dest cc pid), d')"
    using assms(2,6,9) unfolding rdm_ok_def by blast+
  have "\<exists>a. rc_llrp_manager_send_rdm_command env m dest cc pid d True = (kEtcPalErrOk, Some (transaction_number m), [(a, ?p)], ?m1)"
    using assms(5,6) L(4) by (simp add: rc_llrp_manager_send_rdm_command_def command_header_def rc_send_llrp_rdm_command_def send_llrp_rdm_def sendto_def)
  moreover have "\<exists>a. target_handle_llrp_message ?tenv t ?p (mgr_netint m) = Some ([(a, ?p')], t)"
    using target_answers [OF _ L(3) i h(1) _ buf, of d' resp] L(1,2) assms(7-9) by simp
  moreover have "manager_data_received env ?p' ?m1 = (MgrRdmRespReceived \<lparr>resp_source_cid = tgt_cid t, resp_seq_num = transaction_number m,
      resp_rdm_header = answer (command_header m dest cc pid), resp_rdm_data = d'\<rparr>, ?m1)"
    using rdm_datagram_parsed [OF L(1) h(2) _ resp(1-3)] resp(4) by (simp add: manager_data_received_def handle_llrp_message_def)
  moreover have "rc_get_llrp_destination_cid ?L ?p = Some (tgt_cid t)" "rc_get_llrp_destination_cid ?L ?p' = Some (mgr_cid m)"
    using destination_cid_packed [OF L(1) h(1), of "rdm_command_pdu ?L buf"] destination_cid_packed [OF L(1) h(2), of "rdm_command_pdu ?L resp"]
      parse_packed_rdm_command(1) [OF L(1) buf(1-3)] parse_packed_rdm_command(1) [OF L(1) resp(1-3)] buf(1,2) resp(1,2) by simp_all
  ultimately show ?thesis by (elim exE) (intro exI conjI, assumption, simp_all)
qed


text \<open>A concrete RDM library: the layout of RDM messages, with a checksum of zero.\<close>

definition be_rdm_pack :: "RdmUid \<Rightarrow> RdmUid \<Rightarrow> u8 \<Rightarrow> u8 \<Rightarrow> u8 \<Rightarrow> u16 \<Rightarrow> u8 \<Rightarrow> u16 \<Rightarrow> bytes \<Rightarrow> RdmBuffer" where
  "be_rdm_pack dest src tn port count sub cc pid d =
     [VECTOR_RDM_CMD_RDM_DATA, 1, 24 + of_nat (length d)] @ pack_uid etcpal_be dest @ pack_uid etcpal_be src @ [tn, port, count] @
     pack_u16b etcpal_be sub @ [cc] @ pack_u16b etcpal_be pid @ [of_nat (length d)] @ d @ [0, 0]"

definition be_rdm_unpack :: "RdmBuffer \<Rightarrow> RdmUid \<times> RdmUid \<times> u8 \<times> u8 \<times> u8 \<times> u16 \<times> u8 \<times> u16 \<times> bytes" where
  "be_rdm_unpack b = (unpack_uid etcpal_be (drop 3 b), unpack_uid etcpal_be (drop 9 b), b ! 15, b ! 16, b ! 17,
     unpack_u16b etcpal_be (drop 18 b), b ! 20, unpack_u16b etcpal_be (drop 21 b), take (length b - 26) (drop 24 b))"

lemma be_rdm_unpack_pack:
  "be_rdm_unpack (be_rdm_pack dest src tn port count sub cc pid d) = (dest, src, tn, port, count, sub, cc, pid, d)"
  "length (be_rdm_pack dest src tn port count sub cc pid d) = 26 + length d"
  "hd (be_rdm_pack dest src tn port count sub cc pid d) = VECTOR_RDM_CMD_RDM_DATA"
  by (simp_all add: be_rdm_pack_def be_rdm_unpack_def etcpal_simps nth_append)

definition be_answer :: "RdmCommandHeader \<Rightarrow> RdmResponseHeader" where
  "be_answer h = \<lparr>rh_source_uid = ch_dest_uid h, rh_dest_uid = ch_source_uid h, rh_transaction_num = ch_transaction_num h, rh_resp_type = 0,
     rh_msg_count = 0, rh_subdevice = ch_subdevice h, rh_command_class = ch_command_class h + 1, rh_param_id = ch_param_id h\<rparr>"

definition rdm_env :: "RdmUid list llrp_env" where
  "rdm_env = bench_env\<lparr>
     rdm_pack_command := (\<lambda>h d. if length d \<le> 231 then Inr (be_rdm_pack (ch_dest_uid h) (ch_source_uid h) (ch_transaction_num h) (ch_port_id h) 0
       (ch_subdevice h) (ch_command_class h) (ch_param_id h) d) else Inl kEtcPalErrInvalid),
     rdm_unpack_response := (\<lambda>b. case be_rdm_unpack b of (dest, src, tn, port, count, sub, cc, pid, d) \<Rightarrow>
       Some (\<lparr>rh_source_uid = src, rh_dest_uid = dest, rh_transaction_num = tn, rh_resp_type = port, rh_msg_count = count, rh_subdevice = sub,
         rh_command_class = cc, rh_param_id = pid\<rparr>, d))\<rparr>"

text \<open>The callback of the target sends the data of the command back.\<close>

definition rdm_tenv :: "EtcPalUuid \<Rightarrow> target_env" where
  "rdm_tenv cid = (bench_tenv cid)\<lparr>
     rdm_unpack_command := (\<lambda>b. case be_rdm_unpack b of (dest, src, tn, port, count, sub, cc, pid, d) \<Rightarrow>
       Some (\<lparr>ch_source_uid = src, ch_dest_uid = dest, ch_transaction_num = tn, ch_port_id = port, ch_subdevice = sub, ch_command_class = cc,
         ch_param_id = pid\<rparr>, d)),
     rdm_pack_response := (\<lambda>h d. if length d \<le> 231 then Inr (be_rdm_pack (ch_source_uid h) (ch_dest_uid h) (ch_transaction_num h) 0 0
       (ch_subdevice h) (ch_command_class h + 1) (ch_param_id h) d) else Inl kEtcPalErrInvalid),
     rdm_command_received := (\<lambda>t cmd. SyncSendAck (length (cmd_data cmd)) (Some (cmd_data cmd)))\<rparr>"

lemma rdm_lab: "lab_env rdm_env rdm_tenv"
  using bench_lab by (simp add: lab_env_def rdm_env_def rdm_tenv_def)

lemma be_rdm_ok: "rdm_ok rdm_env (rdm_tenv cid) be_answer"
  unfolding rdm_ok_def rdm_env_def rdm_tenv_def be_answer_def by (auto simp: be_rdm_unpack_pack split: if_splits)

theorem llrp_command_answered_witness:
  "\<exists>a p m1 a' p'. rc_llrp_manager_send_rdm_command rdm_env bench_manager \<lparr>da_dest_cid = replicate 16 1, da_dest_uid = \<lparr>manu = 1, dev_id = 1\<rparr>,
      da_subdevice = 0\<rparr> 0x30 0x82 [5, 6] True = (kEtcPalErrOk, Some 0, [(a, p)], m1) \<and>
    target_handle_llrp_message (rdm_tenv (replicate 16 1)) (bench_target 1 0 False) p bench_netint = Some ([(a', p')], bench_target 1 0 False) \<and>
    manager_data_received rdm_env p' m1 = (MgrRdmRespReceived \<lparr>resp_source_cid = replicate 16 1, resp_seq_num = 0,
      resp_rdm_header = \<lparr>rh_source_uid = \<lparr>manu = 1, dev_id = 1\<rparr>, rh_dest_uid = \<lparr>manu = 1, dev_id = 9\<rparr>, rh_transaction_num = 0, rh_resp_type = 0,
        rh_msg_count = 0, rh_subdevice = 0, rh_command_class = 0x31, rh_param_id = 0x82\<rparr>, resp_rdm_data = [5, 6]\<rparr>, m1)"
proof -
  let ?dest = "\<lparr>da_dest_cid = replicate 16 1, da_dest_uid = \<lparr>manu = 1, dev_id = 1\<rparr>, da_subdevice = 0\<rparr>" and ?t = "bench_target 1 0 False"
  let ?h = "command_header bench_manager ?dest 0x30 0x82"
  obtain buf resp where buf: "rdm_pack_command rdm_env ?h [5, 6] = Inr buf" and resp: "rdm_pack_response (rdm_tenv (tgt_cid ?t)) ?h [5, 6] = Inr resp"
    by (simp add: rdm_env_def rdm_tenv_def)
  have t: "target_ok (mgr_netint bench_manager) ?t" "da_dest_cid ?dest = tgt_cid ?t" "length (mgr_cid bench_manager) = 16" "tgt_cid ?t = replicate 16 1"
    "transaction_number bench_manager = 0" "mgr_netint bench_manager = bench_netint"
    by (simp_all add: target_ok_def bench_target_def bench_manager_def)
  have ack: "rdm_command_received (rdm_tenv (tgt_cid ?t)) ?t \<lparr>cmd_source_cid = mgr_cid bench_manager, cmd_seq_num = transaction_number bench_manager,
      cmd_netint_id = mgr_netint bench_manager, cmd_rdm_header = ?h, cmd_data = [5, 6]\<rparr> = SyncSendAck (length [5, 6 :: u8]) (Some [5, 6])"
    by (simp add: rdm_tenv_def)
  have len: "length [5, 6 :: u8] \<le> 231" by simp
  have answer: "be_answer ?h = \<lparr>rh_source_uid = \<lparr>manu = 1, dev_id = 1\<rparr>, rh_dest_uid = \<lparr>manu = 1, dev_id = 9\<rparr>, rh_transaction_num = 0,
      rh_resp_type = 0, rh_msg_count = 0, rh_subdevice = 0, rh_command_class = 0x31, rh_param_id = 0x82\<rparr>"
    by (simp add: be_answer_def command_header_def bench_manager_def)
  show ?thesis
    using llrp_command_answered [OF rdm_lab be_rdm_ok t(1,3,2) buf ack len resp, unfolded answer t(4-6)]
    by (elim exE conjE) (intro exI conjI, assumption+)
qed

section \<open>What goes wrong\<close>

text \<open>
  C33. The backoff time of a probe reply. With a \<^verbatim>\<open>RAND_MAX\<close> of 32767, as on Windows, the time is always defined and at most
  \<^verbatim>\<open>LLRP_MAX_BACKOFF_MS\<close>. With a \<^verbatim>\<open>RAND_MAX\<close> of \<^verbatim>\<open>INT_MAX\<close>, as in the C libraries of Linux and macOS, it is zero when it is
  defined, and the multiplication overflows for every random number above 1431655: all targets reply at once.
\<close>

theorem reply_backoff_bounds:
  assumes "0 \<le> r" and "r \<le> rand_max" and "0 < rand_max"
  shows "(rand_max \<le> 32767 \<longrightarrow> (\<exists>ms. reply_backoff_ms r rand_max = Some ms \<and> ms \<le> 1500)) \<and>
    (rand_max = 2 ^ 31 - 1 \<longrightarrow> reply_backoff_ms r rand_max = (if r \<le> 1431655 then Some 0 else None))"
proof
  have "r * 1500 div rand_max \<le> rand_max * 1500 div rand_max" using assms by (intro zdiv_mono1) simp_all
  then have "r * 1500 div rand_max \<le> 1500" using assms(3) by simp
  moreover have "0 \<le> r * 1500 div rand_max" using assms by (simp add: pos_imp_zdiv_nonneg_iff)
  ultimately have "(word_of_int (r * 1500 div rand_max) :: u32) \<le> 1500"
    by (simp add: word_le_def uint_word_of_int)
  then show "rand_max \<le> 32767 \<longrightarrow> (\<exists>ms. reply_backoff_ms r rand_max = Some ms \<and> ms \<le> 1500)"
    using assms by (auto simp: reply_backoff_ms_def)
  have "r \<le> 1431655 \<longrightarrow> r * 1500 div (2 ^ 31 - 1) = 0" using assms(1) by (intro impI div_pos_pos_trivial) simp_all
  then show "rand_max = 2 ^ 31 - 1 \<longrightarrow> reply_backoff_ms r rand_max = (if r \<le> 1431655 then Some 0 else None)"
    using assms(1) by (simp add: reply_backoff_ms_def)
qed

theorem reply_backoff_bounds_witness:
  "(\<exists>ms. reply_backoff_ms 20000 32767 = Some ms \<and> ms \<le> 1500) \<and>
   reply_backoff_ms 1431655 (2 ^ 31 - 1) = Some 0 \<and> reply_backoff_ms 1431656 (2 ^ 31 - 1) = None"
  using reply_backoff_bounds [of 20000 32767] reply_backoff_bounds [of 1431655 "2 ^ 31 - 1"]
    reply_backoff_bounds [of 1431656 "2 ^ 31 - 1"] by simp

text \<open>
  C34. A response that cannot be sent. A target gets an RDM command, its callback asks for an acknowledgement or for a NACK, and
  the response cannot be sent. Without a log of errors the failure is dropped: nothing is sent and the target stays as it is.
  With one, the text of the CID of the target is written to a buffer on the stack which has the 16 bytes of a binary UUID, and not
  the 37 that the text takes with its final null: the call has undefined behaviour.
\<close>

theorem failed_response_overruns:
  assumes "llrp_ok (te_lib tenv)" and "get_target_netint (tgt_netints t) i \<noteq> None" and "valid_header h" and "lh_dest_cid h = tgt_cid t"
    and "26 \<le> length buf" and "length buf \<le> 257" and "hd buf = VECTOR_RDM_CMD_RDM_DATA" and "rdm_unpack_command tenv buf = Some (rh, d)"
    and "rdm_command_received tenv t \<lparr>cmd_source_cid = lh_sender_cid h, cmd_seq_num = lh_transaction_number h, cmd_netint_id = i,
           cmd_rdm_header = rh, cmd_data = d\<rparr> \<noteq> SyncNoResponse"
    and "\<forall>cid. length cid = 16 \<longrightarrow> length (etcpal_uuid_to_string tenv cid) = 37"
    and "\<forall>dg. \<exists>e. te_fails tenv dg = Some e \<and> e \<noteq> kEtcPalErrOk"
    and "\<forall>rh d e. rdm_pack_response tenv rh d = Inl e \<longrightarrow> e \<noteq> kEtcPalErrOk"
    and "\<forall>rh n e. rdm_pack_nack_response tenv rh n = Inl e \<longrightarrow> e \<noteq> kEtcPalErrOk"
  shows "target_handle_llrp_message tenv t (llrp_datagram (te_lib tenv) VECTOR_LLRP_RDM_CMD h (rdm_command_pdu (te_lib tenv) buf)) i =
    (if te_can_log_err tenv then None else Some ([], t))"
proof -
  obtain n where n: "get_target_netint (tgt_netints t) i = Some n" using assms(2) by blast
  have i: "tn_id n = i" by (rule get_set_netint(1) [OF n])
  have sends: "\<exists>e. sendto (te_fails tenv) dg = (e, []) \<and> e \<noteq> kEtcPalErrOk" for dg
    using assms(11) [rule_format, of dg] by (auto simp: sendto_def)
  have ack: "\<exists>e. target_send_ack_internal tenv t cid sn rh i d = (e, []) \<and> e \<noteq> kEtcPalErrOk" for cid sn d
    using n sends assms(12) by (cases "rdm_pack_response tenv rh d")
      (simp_all add: target_send_ack_internal_def rc_send_llrp_rdm_response_def send_llrp_rdm_def)
  have nack: "\<exists>e. target_send_nack_internal tenv t cid sn rh i r = (e, []) \<and> e \<noteq> kEtcPalErrOk" for cid sn r
    using n sends assms(13) by (cases "rdm_pack_nack_response tenv rh r")
      (simp_all add: target_send_nack_internal_def rc_send_llrp_rdm_response_def send_llrp_rdm_def)
  let ?cmd = "\<lparr>cmd_source_cid = lh_sender_cid h, cmd_seq_num = lh_transaction_number h, cmd_netint_id = i, cmd_rdm_header = rh, cmd_data = d\<rparr>"
  have "length (etcpal_uuid_to_string tenv (tgt_cid t)) = 37" using assms(3,4,10) by (simp add: valid_header_def)
  then have log: "log_cids tenv (tgt_cid t # cids) [] = (if te_can_log_err tenv then None else Some [])" for cids
    using assms(1) by (simp add: log_cids_def char_buffer_def etcpal_simps)
  have "send_response_if_requested tenv t ?cmd r = (if te_can_log_err tenv then None else Some [])" if "r \<noteq> SyncNoResponse" for r
  proof (cases r)
    case (SyncSendAck len b)
    then show ?thesis using ack [of "lh_sender_cid h" "lh_transaction_number h" "case b of None \<Rightarrow> [] | Some d \<Rightarrow> take len d"]
      by (auto simp: send_response_if_requested_def log)
  next
    case (SyncSendNack reason)
    then show ?thesis using nack [of "lh_sender_cid h" "lh_transaction_number h" reason]
      by (auto simp: send_response_if_requested_def log)
  qed (use that in simp)
  then show ?thesis using n i assms(4,8,9) rdm_datagram_parsed [OF assms(1,3) _ assms(5-7)]
    by (simp add: target_handle_llrp_message_def)
qed

theorem failed_response_overruns_witness:
  "target_handle_llrp_message ((rdm_tenv [])\<lparr>te_fails := \<lambda>_. Some kEtcPalErrSys, te_can_log_err := True\<rparr>) (bench_target 1 0 False)
     (llrp_datagram llrp_be VECTOR_LLRP_RDM_CMD \<lparr>lh_sender_cid = replicate 16 9, lh_dest_cid = replicate 16 1, lh_transaction_number = 0\<rparr>
       (rdm_command_pdu llrp_be (be_rdm_pack \<lparr>manu = 1, dev_id = 1\<rparr> \<lparr>manu = 1, dev_id = 9\<rparr> 0 1 0 0 0x30 0x82 [5]))) bench_netint = None"
proof -
  have str: "length (be_uuid_to_string cid) = 37" if "length cid = 16" for cid
  proof -
    have "length (concat (map (\<lambda>b. [hex_digit (b div 16), hex_digit (b mod 16)]) cid)) = 32" using that by (simp add: length_concat comp_def sum_list_triv)
    then show ?thesis by (simp add: be_uuid_to_string_def Let_def)
  qed
  let ?env = "(rdm_tenv [])\<lparr>te_fails := \<lambda>_. Some kEtcPalErrSys, te_can_log_err := True\<rparr>"
  have "te_lib ?env = llrp_be" "te_can_log_err ?env" by (simp_all add: rdm_tenv_def bench_tenv_def)
  moreover have "get_target_netint (tgt_netints (bench_target 1 0 False)) bench_netint \<noteq> None" "tgt_cid (bench_target 1 0 False) = replicate 16 1"
    by (simp_all add: bench_target_def)
  moreover have "rdm_unpack_command ?env (be_rdm_pack \<lparr>manu = 1, dev_id = 1\<rparr> \<lparr>manu = 1, dev_id = 9\<rparr> 0 1 0 0 0x30 0x82 [5]) =
      Some (\<lparr>ch_source_uid = \<lparr>manu = 1, dev_id = 9\<rparr>, ch_dest_uid = \<lparr>manu = 1, dev_id = 1\<rparr>, ch_transaction_num = 0, ch_port_id = 1, ch_subdevice = 0,
        ch_command_class = 0x30, ch_param_id = 0x82\<rparr>, [5])"
    by (simp add: rdm_tenv_def be_rdm_unpack_pack)
  ultimately show ?thesis
    using failed_response_overruns [of ?env "bench_target 1 0 False" bench_netint
        "\<lparr>lh_sender_cid = replicate 16 9, lh_dest_cid = replicate 16 1, lh_transaction_number = 0\<rparr>"
        "be_rdm_pack \<lparr>manu = 1, dev_id = 1\<rparr> \<lparr>manu = 1, dev_id = 9\<rparr> 0 1 0 0 0x30 0x82 [5]"]
    by (simp add: valid_header_def be_rdm_unpack_pack rdm_tenv_def bench_tenv_def str del: not_None_eq)
qed

end
