(* ===== verification/Spec2Isabelle.thy ===== *)
theory Spec2Isabelle
  imports Uid_Manager Client_Roundtrip Parser_Properties Connection_Runs Broker_Routing Llrp_Commands
begin

text \<open>
  RDMnet (ANSI E1.33): a verification of the message layer, the connections, the broker and LLRP of the library under
  \<^verbatim>\<open>src/src/rdmnet\<close>. Paths below are relative to that directory.

  \<^bold>\<open>The program.\<close> Controllers and devices connect over TCP to a broker, which routes RDM commands between them. The core library
  (\<^verbatim>\<open>core/\<close>, C) packs and parses messages and runs the connection of a client to its broker; the broker (\<^verbatim>\<open>broker/\<close>, C++) accepts
  connections, assigns UIDs, queues and routes messages. LLRP, also in \<^verbatim>\<open>core/\<close>, finds and configures components over multicast
  UDP, without a broker.

  \<^bold>\<open>The theories and the code they model.\<close>
  \<^item> \<^verbatim>\<open>Rdmnet_Prelude\<close>, \<^verbatim>\<open>Etcpal\<close>: words, byte lists and association lists; the functions of EtcPal and of the ACN and RDM
    libraries as a record \<open>E\<close>, the predicate \<open>etcpal_ok\<close> for what is documented of them, and the instance \<open>etcpal_be\<close>.
  \<^item> \<^verbatim>\<open>Messages\<close>: the message structures of \<^verbatim>\<open>core/message.h\<close>, \<^verbatim>\<open>broker_message.h\<close> and \<^verbatim>\<open>rpt_message.h\<close>. Unions are products.
  \<^item> \<^verbatim>\<open>Pdu_Block\<close>, \<^verbatim>\<open>Broker_Parse\<close>, \<^verbatim>\<open>Rpt_Parse\<close>, \<^verbatim>\<open>Msg_Buf\<close>: \<^verbatim>\<open>core/msg_buf.c\<close>, the receive buffer and the resumable parsers of the
    root, broker and RPT layers, with their state structures.
  \<^item> \<^verbatim>\<open>Packing\<close>, \<^verbatim>\<open>Broker_Prot\<close>, \<^verbatim>\<open>Rpt_Prot\<close>: \<^verbatim>\<open>core/broker_prot.c\<close> and \<^verbatim>\<open>core/rpt_prot.c\<close>, every pack and send function.
  \<^item> \<^verbatim>\<open>Ref_List\<close>: the reference lists of \<^verbatim>\<open>core/util.c\<close>.
  \<^item> \<^verbatim>\<open>Connection\<close>: \<^verbatim>\<open>core/connection.c\<close>, the state machine of a connection. Sockets, timers, random numbers and the callbacks of the
    owner are an environment; a callback is the list of calls it makes back into the module.
  \<^item> \<^verbatim>\<open>Uid_Manager\<close>: \<^verbatim>\<open>broker/broker_uid_manager.cpp\<close>.
  \<^item> \<^verbatim>\<open>Broker_Client\<close>: \<^verbatim>\<open>broker/broker_client.cpp\<close>, the queues of pending clients, controllers and devices. The classes are records
    that extend each other; virtual methods are arguments.
  \<^item> \<^verbatim>\<open>Broker_Core\<close>: \<^verbatim>\<open>broker/broker_core.cpp\<close> and \<^verbatim>\<open>broker/broker_util.cpp\<close>. The client objects are in a store and the maps of the
    broker hold their addresses, so that stale pointers and wrong casts can be told. A handler is one step.
  \<^item> \<^verbatim>\<open>Llrp_Prot\<close>, \<^verbatim>\<open>Llrp_Manager\<close>, \<^verbatim>\<open>Llrp_Target\<close>: \<^verbatim>\<open>core/llrp_prot.c\<close>, \<^verbatim>\<open>core/llrp_manager.c\<close> and \<^verbatim>\<open>core/llrp_target.c\<close>. The red-black
    tree of EtcPal is a parameter with the laws of an ordered set.

  \<^bold>\<open>Errors and undefined behaviour.\<close> Error codes are values. The result \<^const>\<open>None\<close> of an operation stands for undefined behaviour
  (a copy out of bounds, a stale pointer, a wrong cast, an overflow of \<^verbatim>\<open>int\<close>) or for a loop that does not end. A theorem that an
  operation gives \<^const>\<open>Some\<close> therefore says that it returns, and safely.

  \<^bold>\<open>What is shown.\<close>
  \<^item> \<^verbatim>\<open>Roundtrip\<close>, \<^verbatim>\<open>Rpt_Roundtrip\<close>, \<^verbatim>\<open>Client_Roundtrip\<close>: what is packed or sent is parsed back, through all layers and with bytes of
    the next message behind it; sending piece by piece agrees with packing at once.
  \<^item> \<^verbatim>\<open>Parser_Properties\<close>: the parse loop ends, the accounts of the nested blocks are kept, lists may arrive in pieces, receiving
    appends what came in; and the inputs on which the parser copies out of bounds or stops for good.
  \<^item> \<^verbatim>\<open>Connection_Properties\<close>, \<^verbatim>\<open>Connection_Runs\<close>: an invariant over all calls, ticks and socket events, the handshake, back-off, and
    the order of what the owner is told; and two errors of the state machine.
  \<^item> \<^verbatim>\<open>Uid_Manager\<close>: the search for an id ends, the tables agree, routes and reservations are kept until the counter wraps around,
    and what happens then.
  \<^item> \<^verbatim>\<open>Broker_Client_Properties\<close>: a client implements a byte stream, the queue of a device is fair and stays well formed.
  \<^item> \<^verbatim>\<open>Broker_Core_Properties\<close>, \<^verbatim>\<open>Broker_Routing\<close>: memory safety of runs of the broker, reachability of connected clients, routing
    of requests; and the runs that are not safe.
  \<^item> \<^verbatim>\<open>Llrp_Discovery\<close>: the manager and any number of targets composed in rounds; discovery ends and is complete on a network that
    loses, repeats and reorders replies.
  \<^item> \<^verbatim>\<open>Llrp_Commands\<close>: an RDM command over LLRP is answered; the backoff of replies, and failed responses.

  \<^bold>\<open>Interfaces.\<close> The locales \<open>element_codec\<close>, \<open>layer_parser\<close> and \<open>pdu_layer\<close> are the contracts between the layers of the parser,
  \<open>uid_registry\<close> that between the registry and the broker, and \<open>byte_stream\<close> that of a client's queue. Each is interpreted on the
  definitions of the model.

  \<^bold>\<open>Bounds and fuel.\<close> Loops that may not end are \<^theory_text>\<open>partial_function (option)\<close>; that they end, where they do, is proved. The only fuel is the
  number of rounds of \<open>discovery_rounds\<close>: the theorem shows that some number is enough, by induction on the UIDs not
  found, the range not covered and the probes left, in this order. Message lengths are below \<open>2\<^sup>2\<^sup>0\<close>, the limit of the length field; the runs of the broker have fewer
  than \<open>2\<^sup>3\<^sup>1\<close> connections, those of the UID registry end before its counter of 32 bits wraps around.

  \<^bold>\<open>Not modelled.\<close> Locks and threads: a call or handler is one step. Logging, but for the buffers that a failed response of a target is logged with. The
  engine of a client (\<^verbatim>\<open>core/client.c\<close>) and the C API around it; the sockets and lists of LLRP (\<^verbatim>\<open>core/llrp.c\<close>, registration and module
  ticks); start and stop of the core modules; DNS discovery and its platform back ends; the listening sockets, threads and RDM
  responder of the broker; the C++ wrappers and the example programs. The list of EPT clients is not implemented in the code.
\<close>

end
